theory Spec2Isabelle
  imports Main "HOL-Library.Sublist"
begin

section \<open>Python strings\<close>

text \<open>
  A Python \<^verbatim>\<open>str\<close> is a \<^typ>\<open>string\<close>: the bytes of its UTF-8 encoding, which is also
  what a file holds. The methods the program calls are given their Python names; the
  patterns it passes to them are ASCII, and an ASCII pattern occurs in a \<^verbatim>\<open>str\<close> where its
  bytes occur in the encoding. \<^verbatim>\<open>s.split(sep)\<close> and \<^verbatim>\<open>sep.join(xs)\<close> are written for the
  one-character separators the program and \<^verbatim>\<open>posixpath\<close> use.
\<close>

definition startswith :: "string \<Rightarrow> string \<Rightarrow> bool" where
  "startswith s pre = prefix pre s"

definition endswith :: "string \<Rightarrow> string \<Rightarrow> bool" where
  "endswith s suf = suffix suf s"

definition str_in :: "string \<Rightarrow> string \<Rightarrow> bool" where
  \<comment> \<open>\<^verbatim>\<open>sub in s\<close>\<close>
  "str_in sub s = sublist sub s"

fun str_split :: "char \<Rightarrow> string \<Rightarrow> string list" where
  "str_split sep [] = [[]]"
| "str_split sep (c # cs) =
     (if c = sep then [] # str_split sep cs
      else (case str_split sep cs of
              [] \<Rightarrow> [[c]]
            | w # ws \<Rightarrow> (c # w) # ws))"

fun str_join :: "string \<Rightarrow> string list \<Rightarrow> string" where
  "str_join sep [] = []"
| "str_join sep [x] = x"
| "str_join sep (x # y # ys) = x @ sep @ str_join sep (y # ys)"

definition rstrip :: "char \<Rightarrow> string \<Rightarrow> string" where
  "rstrip ch s = rev (dropWhile (\<lambda>c. c = ch) (rev s))"

fun str_replace :: "string \<Rightarrow> string \<Rightarrow> string \<Rightarrow> string" where
  \<comment> \<open>\<^verbatim>\<open>s.replace(old, new)\<close> for a non-empty \<^verbatim>\<open>old\<close>: every occurrence, left to right,
      without overlap\<close>
  "str_replace [] old new = []"
| "str_replace (c # cs) old new =
     (if old \<noteq> [] \<and> prefix old (c # cs)
      then new @ str_replace (drop (length old - 1) cs) old new
      else c # str_replace cs old new)"

fun str_replace1 :: "string \<Rightarrow> string \<Rightarrow> string \<Rightarrow> string" where
  \<comment> \<open>\<^verbatim>\<open>s.replace(old, new, 1)\<close>: the first occurrence only\<close>
  "str_replace1 [] old new = []"
| "str_replace1 (c # cs) old new =
     (if old \<noteq> [] \<and> prefix old (c # cs)
      then new @ drop (length old - 1) cs
      else c # str_replace1 cs old new)"

text \<open>
  Reading a file that was opened with \<^verbatim>\<open>open(path, "r", encoding="utf8")\<close>. The bytes
  are decoded, and bytes that are not well-formed UTF-8 raise \<^verbatim>\<open>UnicodeDecodeError\<close>:
  \<open>utf8_valid\<close> is the table of well-formed byte sequences (no overlong form, no
  surrogate, nothing above U+10FFFF). The stream is in universal-newlines mode, so a
  carriage return, alone or before a line feed, reaches the program as a line feed.
  \<^verbatim>\<open>file.readlines()\<close> then cuts the text after each line feed.
\<close>

definition byte_in :: "char \<Rightarrow> nat \<Rightarrow> nat \<Rightarrow> bool" where
  "byte_in c lo hi = (lo \<le> of_char c \<and> of_char c \<le> hi)"

fun utf8_valid :: "string \<Rightarrow> bool" where
  "utf8_valid [] = True"
| "utf8_valid (a # s) =
     (if byte_in a 0x00 0x7F then utf8_valid s
      else if byte_in a 0xC2 0xDF then
        (case s of b # s' \<Rightarrow> byte_in b 0x80 0xBF \<and> utf8_valid s' | _ \<Rightarrow> False)
      else if byte_in a 0xE0 0xEF then
        (case s of
           b # c # s' \<Rightarrow>
             byte_in b (if a = CHR 0xE0 then 0xA0 else 0x80) (if a = CHR 0xED then 0x9F else 0xBF)
             \<and> byte_in c 0x80 0xBF \<and> utf8_valid s'
         | _ \<Rightarrow> False)
      else if byte_in a 0xF0 0xF4 then
        (case s of
           b # c # d # s' \<Rightarrow>
             byte_in b (if a = CHR 0xF0 then 0x90 else 0x80) (if a = CHR 0xF4 then 0x8F else 0xBF)
             \<and> byte_in c 0x80 0xBF \<and> byte_in d 0x80 0xBF \<and> utf8_valid s'
         | _ \<Rightarrow> False)
      else False)"

fun universal_newlines :: "string \<Rightarrow> string" where
  "universal_newlines [] = []"
| "universal_newlines (c # cs) =
     (if c = CHR 0x0D then
        (if cs \<noteq> [] \<and> hd cs = CHR 0x0A then universal_newlines cs
         else CHR 0x0A # universal_newlines cs)
      else c # universal_newlines cs)"

fun split_lines :: "string \<Rightarrow> string list" where
  \<comment> \<open>the lines of a text, each with the line feed that ends it\<close>
  "split_lines [] = []"
| "split_lines (c # cs) =
     (if c = CHR 0x0A then [c] # split_lines cs
      else (case split_lines cs of
              [] \<Rightarrow> [[c]]
            | l # ls \<Rightarrow> (c # l) # ls))"

definition readlines :: "string \<Rightarrow> string list" where
  \<comment> \<open>\<^verbatim>\<open>file.readlines()\<close> on the decoded bytes of the file\<close>
  "readlines t = split_lines (universal_newlines t)"

section \<open>Errors\<close>

text \<open>
  Every exception the program raises is a value; \<open>Exception\<close> is what
  \<^verbatim>\<open>Error.exit_on_error\<close> raises. A function that can raise returns \<open>error + 'a\<close>.
  \<open>RecursionError\<close> is what Python raises when the recursion over included
  configurations exceeds the interpreter's depth limit.
\<close>

datatype error =
    ValueError string
  | FileNotFoundError string
  | FileExistsError string
  | IsADirectoryError string
  | OSError string
  | YAMLError string
  | TypeError string
  | UnicodeDecodeError string
  | AttributeError string
  | CalledProcessError string
  | RecursionError
  | Exception string

section \<open>The data of the program\<close>

datatype path_type = Relative | Absolute | User

text \<open>
  The class \<^verbatim>\<open>Path\<close>. \<open>basedir\<close> is \<open>None\<close> where the attribute is not set (an
  absolute path). Where the source passes a \<^verbatim>\<open>Path\<close> for a string,
  \<^verbatim>\<open>Path.to_string\<close> takes its \<open>path\<close>; the model passes that string.
\<close>

record Path =
  ptype :: path_type
  basedir :: "string option"
  path :: string

text \<open>
  What \<^verbatim>\<open>yaml.safe_load\<close> returns for a configuration file: a mapping, its keys in the
  order of the document (the order in which a Python \<^verbatim>\<open>dict\<close> is iterated, no key twice).
  A key is a string, or another scalar: \<^verbatim>\<open>5:\<close> gives the integer 5, \<^verbatim>\<open>on:\<close> the boolean
  \<^verbatim>\<open>True\<close>, \<^verbatim>\<open>~:\<close> gives \<^verbatim>\<open>None\<close>. \<open>type_name\<close> is the name of the key's type as Python
  prints it in an error message. The values covered are \<^verbatim>\<open>None\<close>, a string and a list of
  strings.
\<close>

datatype yaml = YNull | YStr string | YSeq "string list"

datatype ykey = KStr string | KInt int | KBool bool | KNull

fun type_name :: "ykey \<Rightarrow> string" where
  "type_name (KStr s) = ''str''"
| "type_name (KInt i) = ''int''"
| "type_name (KBool b) = ''bool''"
| "type_name KNull = ''NoneType''"

type_synonym ydoc = "(ykey \<times> yaml) list"

text \<open>
  A file system maps a path name to what \<^verbatim>\<open>os.stat\<close> finds there: a regular file with
  its bytes, a directory, or something else (a device, a socket). Permission bits are not
  part of the model.
\<close>

datatype node = File string | Dir | Special

type_synonym fs = "string \<Rightarrow> node option"

text \<open>
  The environment is what the program reads from its process and from code that is not
  its own:
  \<^item> \<open>HOME\<close>, \<open>getcwd\<close>, \<open>argv\<close> and \<open>module_file\<close> (\<^verbatim>\<open>__file__\<close>);
  \<^item> \<open>resolve_links\<close>, the path \<^verbatim>\<open>_joinrealpath('', filename, strict, {})\<close> returns, which
    depends on the symbolic links of the file system;
  \<^item> \<open>object_addr\<close>, the address that the default \<^verbatim>\<open>object.__repr__\<close> prints for a
    \<^verbatim>\<open>Path\<close> object (the class defines no \<^verbatim>\<open>__str__\<close>);
  \<^item> \<open>yaml_safe_load\<close>, what \<^verbatim>\<open>yaml.safe_load(file)\<close> returns or raises for an opened
    file with the given bytes (the parser reads, and so decodes, the stream itself);
  \<^item> \<open>iglob\<close>, the names \<^verbatim>\<open>glob.iglob(pattern, recursive=True)\<close> yields;
  \<^item> \<open>recursionlimit\<close>, the number of nested calls of \<^verbatim>\<open>Config.get_extra_configs\<close> the
    interpreter allows before it raises \<^verbatim>\<open>RecursionError\<close>;
  \<^item> \<open>get_defines\<close>, the result of \<^verbatim>\<open>Qmake.get_defines\<close>, which builds the sketch with
    \<^verbatim>\<open>make\<close> and reads the compiler's flags from the build's output (a list, empty when
    the build fails). What the build does to the file system is not part of the model.
\<close>

record env =
  HOME :: string
  getcwd :: string
  argv :: "string list"
  module_file :: string
  resolve_links :: "string \<Rightarrow> string"
  object_addr :: "Path \<Rightarrow> string"
  yaml_safe_load :: "string \<Rightarrow> error + ydoc"
  iglob :: "string \<Rightarrow> string list"
  recursionlimit :: nat
  get_defines :: "Path \<Rightarrow> error + string list"

text \<open>
  The state the program changes: the files, the class attribute
  \<^verbatim>\<open>Config.extra_config_stack\<close>, and what it has printed (one entry for each call of
  \<^verbatim>\<open>print\<close>). \<open>loads\<close> records the files handed to \<^verbatim>\<open>yaml.safe_load\<close>, in order.
\<close>

record world =
  files :: fs
  extra_config_stack :: "Path list"
  stdout :: "string list"
  loads :: "string list"

definition py_print :: "string \<Rightarrow> world \<Rightarrow> world" where
  "py_print s w = w\<lparr>stdout := stdout w @ [s]\<rparr>"

section \<open>The module \<^verbatim>\<open>posixpath\<close>\<close>

definition isabs :: "string \<Rightarrow> bool" where
  "isabs s = startswith s ''/''"

definition join :: "string \<Rightarrow> string \<Rightarrow> string" where
  "join a b =
     (if startswith b ''/'' then b
      else if a = [] \<or> endswith a ''/'' then a @ b
      else a @ ''/'' @ b)"

definition basename :: "string \<Rightarrow> string" where
  \<comment> \<open>\<^verbatim>\<open>p[i:]\<close> with \<^verbatim>\<open>i = p.rfind('/') + 1\<close>\<close>
  "basename p = rev (takeWhile (\<lambda>c. c \<noteq> CHR ''/'') (rev p))"

definition dirname :: "string \<Rightarrow> string" where
  "dirname p =
     (let head = rev (dropWhile (\<lambda>c. c \<noteq> CHR ''/'') (rev p))
      in if head \<noteq> [] \<and> head \<noteq> replicate (length head) CHR ''/''
         then rstrip CHR ''/'' head else head)"

definition splitext_ext :: "string \<Rightarrow> string" where
  \<comment> \<open>\<^verbatim>\<open>os.path.splitext(p)[-1]\<close>: from the last dot of the last component, unless
      only dots come before it\<close>
  "splitext_ext p =
     (let name = basename p;
          e = rev (takeWhile (\<lambda>c. c \<noteq> CHR ''.'') (rev name));
          stem = take (length name - length e - 1) name
      in if CHR ''.'' \<in> set name \<and> set stem \<noteq> {} \<and> set stem \<noteq> {CHR ''.''}
         then CHR ''.'' # e else [])"

fun norm_comps :: "nat \<Rightarrow> string list \<Rightarrow> string list \<Rightarrow> string list" where
  "norm_comps initial_slashes new_comps [] = new_comps"
| "norm_comps initial_slashes new_comps (cmp # comps) =
     (if cmp = [] \<or> cmp = ''.'' then norm_comps initial_slashes new_comps comps
      else if cmp \<noteq> ''..'' \<or> (initial_slashes = 0 \<and> new_comps = [])
                \<or> (new_comps \<noteq> [] \<and> last new_comps = ''..'')
      then norm_comps initial_slashes (new_comps @ [cmp]) comps
      else if new_comps \<noteq> [] then norm_comps initial_slashes (butlast new_comps) comps
      else norm_comps initial_slashes new_comps comps)"

definition normpath :: "string \<Rightarrow> string" where
  "normpath p =
     (if p = [] then ''.''
      else
        let initial_slashes =
              (if startswith p ''//'' \<and> \<not> startswith p ''///'' then 2
               else if startswith p ''/'' then 1 else 0);
            comps = norm_comps initial_slashes [] (str_split CHR ''/'' p);
            r = replicate initial_slashes CHR ''/'' @ str_join ''/'' comps
        in if r = [] then ''.'' else r)"

definition abspath :: "string \<Rightarrow> string \<Rightarrow> string" where
  \<comment> \<open>the first argument is \<^verbatim>\<open>os.getcwd()\<close>\<close>
  "abspath cwd p = normpath (if isabs p then p else join cwd p)"

definition relpath :: "string \<Rightarrow> string \<Rightarrow> string \<Rightarrow> error + string" where
  \<comment> \<open>\<^verbatim>\<open>commonprefix\<close> of two lists is their longest common prefix\<close>
  "relpath cwd p start =
     (if p = [] then Inl (ValueError ''no path specified'')
      else
        let start_list = filter (\<lambda>x. x \<noteq> []) (str_split CHR ''/'' (abspath cwd start));
            path_list = filter (\<lambda>x. x \<noteq> []) (str_split CHR ''/'' (abspath cwd p));
            i = length (longest_common_prefix start_list path_list);
            rel_list = replicate (length start_list - i) ''..'' @ drop i path_list
        in Inr (if rel_list = [] then ''.'' else foldl join (hd rel_list) (tl rel_list)))"

text \<open>
  \<^verbatim>\<open>_joinrealpath\<close> on a file system without symbolic links, where \<^verbatim>\<open>lstat\<close> never
  reports a link: the loop over the components of \<^verbatim>\<open>rest\<close> (what repeated
  \<^verbatim>\<open>rest.partition('/')\<close> yields), started from \<^verbatim>\<open>'/'\<close> for an absolute name and from
  the empty path otherwise.
\<close>

fun joinrealpath_loop :: "string \<Rightarrow> string list \<Rightarrow> string" where
  "joinrealpath_loop p [] = p"
| "joinrealpath_loop p (name # rest) =
     (if name = [] \<or> name = ''.'' then joinrealpath_loop p rest
      else if name = ''..'' then
        (if p \<noteq> [] then
           (if basename p = ''..'' then joinrealpath_loop (join (join (dirname p) ''..'') ''..'') rest
            else joinrealpath_loop (dirname p) rest)
         else joinrealpath_loop ''..'' rest)
      else joinrealpath_loop (join p name) rest)"

definition joinrealpath_nolinks :: "string \<Rightarrow> string" where
  "joinrealpath_nolinks filename =
     (if isabs filename then joinrealpath_loop ''/'' (str_split CHR ''/'' (tl filename))
      else joinrealpath_loop [] (str_split CHR ''/'' filename))"

section \<open>Paths that depend on the environment\<close>

definition realpath :: "env \<Rightarrow> string \<Rightarrow> string" where
  \<comment> \<open>\<^verbatim>\<open>abspath(_joinrealpath('', filename, strict, {})[0])\<close>\<close>
  "realpath e filename = abspath (getcwd e) (resolve_links e filename)"

definition expanduser :: "env \<Rightarrow> string \<Rightarrow> string" where
  \<comment> \<open>with \<^verbatim>\<open>HOME\<close> set; a \<^verbatim>\<open>~user\<close> prefix is left as it is (Python does so for an
      unknown user)\<close>
  "expanduser e p =
     (if \<not> startswith p ''~'' then p
      else if p = ''~'' \<or> startswith p ''~/'' then
        (let userhome = rstrip CHR ''/'' (HOME e);
             r = userhome @ drop 1 p
         in if r = [] then ''/'' else r)
      else p)"

definition os_exists :: "fs \<Rightarrow> string \<Rightarrow> bool" where
  "os_exists f p = (f p \<noteq> None)"

definition os_isfile :: "fs \<Rightarrow> string \<Rightarrow> bool" where
  "os_isfile f p = (case f p of Some (File c) \<Rightarrow> True | _ \<Rightarrow> False)"

definition os_isdir :: "fs \<Rightarrow> string \<Rightarrow> bool" where
  "os_isdir f p = (f p = Some Dir)"

section \<open>The class \<^verbatim>\<open>Path\<close>\<close>

definition check_basedir_valid :: "fs \<Rightarrow> string option \<Rightarrow> error + bool" where
  "check_basedir_valid f b =
     (case b of
        None \<Rightarrow> Inl (ValueError ''Base dir is None'')
      | Some d \<Rightarrow>
          if \<not> isabs d
          then Inl (ValueError (''Base dir '' @ d @ '' is not valid (should be absolute)''))
          else if os_exists f d \<and> \<not> os_isdir f d
          then Inl (ValueError (''Base dir '' @ d @ '' is not valid (exists and is not a directory''))
          else Inr True)"

definition Path_init :: "env \<Rightarrow> fs \<Rightarrow> string \<Rightarrow> string option \<Rightarrow> error + Path" where
  "Path_init e f p b =
     (if startswith p ''~/'' then
        Inr \<lparr>ptype = User, basedir = Some (expanduser e ''~/''),
             path = realpath e (expanduser e p)\<rparr>
      else if isabs p then
        Inr \<lparr>ptype = Absolute, basedir = None, path = realpath e p\<rparr>
      else
        (case check_basedir_valid f b of
           Inl err \<Rightarrow> Inl err
         | Inr _ \<Rightarrow>
             Inr \<lparr>ptype = Relative, basedir = b, path = realpath e (join (the b) p)\<rparr>))"

definition Path_eq :: "Path \<Rightarrow> Path \<Rightarrow> bool" where
  "Path_eq p q = (path p = path q)"

definition Path_in :: "Path \<Rightarrow> Path list \<Rightarrow> bool" where
  \<comment> \<open>\<^verbatim>\<open>p in ps\<close>, by \<^verbatim>\<open>__eq__\<close>\<close>
  "Path_in p ps = (path p \<in> set (map path ps))"

definition to_relative :: "env \<Rightarrow> fs \<Rightarrow> Path \<Rightarrow> string \<Rightarrow> error + Path" where
  "to_relative e f p b =
     (case check_basedir_valid f (Some b) of
        Inl err \<Rightarrow> Inl err
      | Inr _ \<Rightarrow>
          (case relpath (getcwd e) (path p) b of
             Inl err \<Rightarrow> Inl err
           | Inr r \<Rightarrow> Path_init e f r (Some b)))"

definition rel_path :: "env \<Rightarrow> Path \<Rightarrow> error + string" where
  "rel_path e p =
     (if ptype p = Absolute then Inl (ValueError ''Calling rel_path() on an absolute path'')
      else (case basedir p of
              None \<Rightarrow> Inl (AttributeError ''basedir'')
            | Some b \<Rightarrow> relpath (getcwd e) (path p) b))"

definition isuser :: "Path \<Rightarrow> bool" where
  "isuser p = (ptype p = User)"

definition isabs_Path :: "Path \<Rightarrow> bool" where
  "isabs_Path p = (ptype p = Absolute)"

definition isrel :: "Path \<Rightarrow> bool" where
  "isrel p = (ptype p = Relative)"

definition parent_dir :: "Path \<Rightarrow> Path" where
  "parent_dir p = p\<lparr>path := dirname (path p)\<rparr>"

definition Path_str :: "env \<Rightarrow> Path \<Rightarrow> string" where
  \<comment> \<open>\<^verbatim>\<open>str(path)\<close>: the class has no \<^verbatim>\<open>__str__\<close>, so this is \<^verbatim>\<open>object.__repr__\<close>\<close>
  "Path_str e p = ''<__main__.Path object at 0x'' @ object_addr e p @ ''>''"

text \<open>
  \<^verbatim>\<open>str(pathlib.Path(p).with_suffix(ext))\<close>. \<^verbatim>\<open>pathlib\<close> drops empty and \<^verbatim>\<open>'.'\<close>
  components and keeps one leading slash, or two when there are exactly two.
\<close>

definition pathlib_suffix :: "string \<Rightarrow> string" where
  \<comment> \<open>\<^verbatim>\<open>name[i:]\<close> for \<^verbatim>\<open>i = name.rfind('.')\<close> when \<^verbatim>\<open>0 < i < len(name) - 1\<close>\<close>
  "pathlib_suffix name =
     (let e = rev (takeWhile (\<lambda>c. c \<noteq> CHR ''.'') (rev name))
      in if CHR ''.'' \<in> set name \<and> e \<noteq> [] \<and> Suc (length e) < length name
         then CHR ''.'' # e else [])"

definition with_suffix :: "string \<Rightarrow> string \<Rightarrow> error + string" where
  "with_suffix p ext =
     (let parts = filter (\<lambda>c. c \<noteq> [] \<and> c \<noteq> ''.'') (str_split CHR ''/'' p);
          root = (if startswith p ''//'' \<and> \<not> startswith p ''///'' then ''//''
                  else if startswith p ''/'' then ''/'' else [])
      in if CHR ''/'' \<in> set ext \<or> (ext \<noteq> [] \<and> \<not> startswith ext ''.'') \<or> ext = ''.''
         then Inl (ValueError ''Invalid suffix'')
         else if parts = [] then Inl (ValueError ''has an empty name'')
         else
           let name = last parts;
               old_suffix = pathlib_suffix name;
               name' = (if old_suffix = [] then name @ ext
                        else take (length name - length old_suffix) name @ ext)
           in Inr (root @ str_join ''/'' (butlast parts @ [name'])))"

definition with_extension :: "Path \<Rightarrow> string \<Rightarrow> error + Path" where
  "with_extension p extension =
     (case with_suffix (path p) extension of
        Inl err \<Rightarrow> Inl err
      | Inr s \<Rightarrow> Inr (p\<lparr>path := s\<rparr>))"

definition exists_Path :: "fs \<Rightarrow> Path \<Rightarrow> bool" where
  "exists_Path f p = os_exists f (path p)"

definition isfile :: "fs \<Rightarrow> Path \<Rightarrow> bool" where
  "isfile f p = os_isfile f (path p)"

definition isdir :: "fs \<Rightarrow> Path \<Rightarrow> bool" where
  "isdir f p = os_isdir f (path p)"

definition getsize :: "fs \<Rightarrow> string \<Rightarrow> nat" where
  "getsize f p = (case f p of Some (File c) \<Rightarrow> length c | _ \<Rightarrow> 0)"

definition isemptyfile :: "fs \<Rightarrow> Path \<Rightarrow> bool" where
  "isemptyfile f p = (isfile f p \<and> getsize f (path p) = 0)"

definition generated_by_us_string :: string where
  "generated_by_us_string = ''# Generated by arduino-genmakefile\<newline>''"

definition header_strings :: "env \<Rightarrow> string list" where
  \<comment> \<open>\<^verbatim>\<open>sys.argv\<close> is never empty\<close>
  "header_strings e =
     (let cmd_line = (case argv e of [] \<Rightarrow> [] | a # as \<Rightarrow> basename a # as)
      in [generated_by_us_string,
          ''#\<newline>'',
          ''# Command line:\<newline>'',
          ''# '' @ str_join '' '' cmd_line @ ''\<newline>'',
          ''\<newline>''])"

definition read_lines :: "fs \<Rightarrow> Path \<Rightarrow> error + string list" where
  \<comment> \<open>\<^verbatim>\<open>open(self.path, "r", encoding="utf8")\<close>, then \<^verbatim>\<open>file.readlines()\<close>, which reads
      the file to its end\<close>
  "read_lines f p =
     (case f (path p) of
        None \<Rightarrow> Inl (FileNotFoundError (path p))
      | Some Dir \<Rightarrow> Inl (IsADirectoryError (path p))
      | Some Special \<Rightarrow> Inl (OSError (path p))
      | Some (File c) \<Rightarrow>
          if utf8_valid c then Inr (readlines c)
          else Inl (UnicodeDecodeError ''utf-8''))"

definition write_lines :: "Path \<Rightarrow> string list \<Rightarrow> world \<Rightarrow> (error + unit) \<times> world" where
  \<comment> \<open>\<^verbatim>\<open>open(self.path, "a")\<close> appends to the file, and creates it in an existing
      directory when it is not there\<close>
  "write_lines p lines w =
     (case files w (path p) of
        Some (File c) \<Rightarrow> (Inr (), w\<lparr>files := (files w)(path p \<mapsto> File (c @ concat lines))\<rparr>)
      | Some Dir \<Rightarrow> (Inl (IsADirectoryError (path p)), w)
      | Some Special \<Rightarrow> (Inl (OSError (path p)), w)
      | None \<Rightarrow>
          if os_isdir (files w) (dirname (path p))
          then (Inr (), w\<lparr>files := (files w)(path p \<mapsto> File (concat lines))\<rparr>)
          else (Inl (FileNotFoundError (path p)), w))"

fun any_startswith :: "string list \<Rightarrow> string \<Rightarrow> bool" where
  \<comment> \<open>the loop of \<^verbatim>\<open>generated_by_us\<close>\<close>
  "any_startswith [] m = False"
| "any_startswith (line # ls) m = (if startswith line m then True else any_startswith ls m)"

definition generated_by_us :: "fs \<Rightarrow> Path \<Rightarrow> error + bool" where
  "generated_by_us f p =
     (case read_lines f p of
        Inl err \<Rightarrow> Inl err
      | Inr ls \<Rightarrow> Inr (any_startswith ls generated_by_us_string))"

definition safely_remove_or_exit :: "Path \<Rightarrow> world \<Rightarrow> (error + unit) \<times> world" where
  "safely_remove_or_exit p w =
     (if \<not> exists_Path (files w) p then (Inr (), w)
      else if \<not> isfile (files w) p
      then (Inl (Exception (path p @ '' cannot be safely removed (not a file), please remove it manually'')), w)
      else
        (case generated_by_us (files w) p of
           Inl err \<Rightarrow> (Inl err, w)
         | Inr g \<Rightarrow>
             if \<not> g \<and> \<not> isemptyfile (files w) p
             then (Inl (Exception (path p @ '' cannot be safely removed (not empty, not generated by us), please remove it manually'')), w)
             else (Inr (), w\<lparr>files := (files w)(path p := None)\<rparr>)))"

definition iter_yaml :: "yaml \<Rightarrow> error + string list" where
  \<comment> \<open>what a \<^verbatim>\<open>for\<close> loop (or \<^verbatim>\<open>+=\<close> on a list) takes from a value: the items of a
      list, the characters of a string; \<^verbatim>\<open>None\<close> is not iterable\<close>
  "iter_yaml v =
     (case v of
        YSeq xs \<Rightarrow> Inr xs
      | YStr s \<Rightarrow> Inr (map (\<lambda>c. [c]) s)
      | YNull \<Rightarrow> Inl (TypeError ''NoneType object is not iterable''))"

fun list_from_key_loop :: "env \<Rightarrow> fs \<Rightarrow> string list \<Rightarrow> string \<Rightarrow> error + Path list" where
  "list_from_key_loop e f [] config_dir = Inr []"
| "list_from_key_loop e f (k # ks) config_dir =
     (case Path_init e f k (Some config_dir) of
        Inl err \<Rightarrow> Inl err
      | Inr p \<Rightarrow>
          (case list_from_key_loop e f ks config_dir of
             Inl err \<Rightarrow> Inl err
           | Inr ps \<Rightarrow> Inr (p # ps)))"

definition list_from_key :: "env \<Rightarrow> fs \<Rightarrow> yaml \<Rightarrow> string \<Rightarrow> error + Path list" where
  "list_from_key e f key config_dir =
     (case iter_yaml key of
        Inl err \<Rightarrow> Inl err
      | Inr ks \<Rightarrow> list_from_key_loop e f ks config_dir)"

fun check_files_exist :: "fs \<Rightarrow> Path list \<Rightarrow> error + unit" where
  "check_files_exist f [] = Inr ()"
| "check_files_exist f (p # ps) =
     (if \<not> exists_Path f p then Inl (FileNotFoundError (path p @ '' doesn't exist''))
      else if \<not> isfile f p then Inl (FileExistsError (path p @ '' is not a file''))
      else check_files_exist f ps)"

fun check_dirs_exist :: "fs \<Rightarrow> Path list \<Rightarrow> error + unit" where
  "check_dirs_exist f [] = Inr ()"
| "check_dirs_exist f (p # ps) =
     (if \<not> exists_Path f p then Inl (FileNotFoundError (path p @ '' doesn't exist''))
      else if \<not> isdir f p then Inl (FileExistsError (path p @ '' is not a directory''))
      else check_dirs_exist f ps)"

section \<open>The class \<^verbatim>\<open>Config\<close>\<close>

record Config =
  main_paths :: "Path list"
  paths :: "Path list"
  fqbn :: yaml
  cflags :: "string list"
  debug_command :: yaml
  baudrate :: yaml
  lib_paths :: "Path list"
  qmake_dirs :: "Path list"
  qmake_exclude_dirs :: "Path list"

definition load_yaml :: "env \<Rightarrow> string \<Rightarrow> world \<Rightarrow> (error + ydoc) \<times> world" where
  \<comment> \<open>\<^verbatim>\<open>with open(p, "r", encoding="utf8") as file: data = yaml.safe_load(file)\<close>\<close>
  "load_yaml e p w =
     (case files w p of
        None \<Rightarrow> (Inl (FileNotFoundError p), w)
      | Some Dir \<Rightarrow> (Inl (IsADirectoryError p), w)
      | Some Special \<Rightarrow> (Inl (OSError p), w)
      | Some (File c) \<Rightarrow> (yaml_safe_load e c, w\<lparr>loads := loads w @ [p]\<rparr>))"

text \<open>
  \<^verbatim>\<open>Config.get_extra_configs\<close>, with the loop over \<^verbatim>\<open>data.get("configs", [])\<close> as a
  second function. The first argument is the number of nested calls the interpreter
  still allows.
\<close>

fun get_extra_configs :: "nat \<Rightarrow> env \<Rightarrow> Path \<Rightarrow> world \<Rightarrow> (error + Path list) \<times> world"
  and get_extra_configs_loop ::
    "nat \<Rightarrow> env \<Rightarrow> Path \<Rightarrow> string list \<Rightarrow> Path list \<Rightarrow> world \<Rightarrow> (error + Path list) \<times> world"
where
  "get_extra_configs 0 e p w = (Inl RecursionError, w)"
| "get_extra_configs (Suc depth) e p w =
     (if Path_in p (extra_config_stack w) then
        (Inl (Exception ''Aborting due to circular configuration inclusion''),
         w\<lparr>stdout := stdout w
              @ [''Circular configuration inclusion detected while parsing '' @ path p,
                 ''Inclusion stack: '']
              @ map (\<lambda>stack_item. '' - '' @ path stack_item) (extra_config_stack w)\<rparr>)
      else
        (case load_yaml e (path p) (w\<lparr>extra_config_stack := extra_config_stack w @ [p]\<rparr>) of
           (Inl err, w1) \<Rightarrow> (Inl err, w1)
         | (Inr data, w1) \<Rightarrow>
             (case (case map_of data (KStr ''configs'') of None \<Rightarrow> Inr [] | Some v \<Rightarrow> iter_yaml v) of
                Inl err \<Rightarrow> (Inl err, w1)
              | Inr configs \<Rightarrow>
                  (case get_extra_configs_loop depth e p configs [] w1 of
                     (Inl err, w2) \<Rightarrow> (Inl err, w2)
                   | (Inr ret, w2) \<Rightarrow>
                       (Inr ret, w2\<lparr>extra_config_stack := butlast (extra_config_stack w2)\<rparr>)))))"
| "get_extra_configs_loop depth e p [] ret w = (Inr ret, w)"
| "get_extra_configs_loop depth e p (config # configs) ret w =
     (case Path_init e (files w) config (Some (path (parent_dir p))) of
        Inl err \<Rightarrow> (Inl err, w)
      | Inr config_path \<Rightarrow>
          (case get_extra_configs depth e config_path w of
             (Inl err, w1) \<Rightarrow> (Inl err, w1)
           | (Inr sub, w1) \<Rightarrow>
               get_extra_configs_loop depth e p configs (ret @ [config_path] @ sub) w1))"

fun init_paths :: "env \<Rightarrow> Path list \<Rightarrow> Path list \<Rightarrow> world \<Rightarrow> (error + Path list) \<times> world" where
  \<comment> \<open>the first loop of \<^verbatim>\<open>Config.__init__\<close>; the third argument is \<^verbatim>\<open>self.paths\<close>\<close>
  "init_paths e [] acc w = (Inr acc, w)"
| "init_paths e (p # ps) acc w =
     (case get_extra_configs (recursionlimit e) e p w of
        (Inl err, w1) \<Rightarrow> (Inl err, w1)
      | (Inr sub, w1) \<Rightarrow> init_paths e ps (acc @ [p] @ sub) w1)"

definition merge_key ::
    "env \<Rightarrow> Path \<Rightarrow> ykey \<Rightarrow> yaml \<Rightarrow> Config \<Rightarrow> world \<Rightarrow> (error + Config) \<times> world" where
  \<comment> \<open>the body of \<^verbatim>\<open>for key in data.keys()\<close>, with \<open>v\<close> for \<^verbatim>\<open>data[key]\<close>. In the last
      branch \<^verbatim>\<open>"Warning: unhandled key " + key\<close> needs a string for \<^verbatim>\<open>key\<close>\<close>
  "merge_key e p key v c w =
     (if key = KStr ''fqbn'' then (Inr (c\<lparr>fqbn := v\<rparr>), w)
      else if key = KStr ''cflags'' then
        (case iter_yaml v of
           Inl err \<Rightarrow> (Inl err, w)
         | Inr xs \<Rightarrow> (Inr (c\<lparr>cflags := cflags c @ xs\<rparr>), w))
      else if key = KStr ''debug_command'' then (Inr (c\<lparr>debug_command := v\<rparr>), w)
      else if key = KStr ''baudrate'' then (Inr (c\<lparr>baudrate := v\<rparr>), w)
      else if key = KStr ''libs'' then
        (case list_from_key e (files w) v (path (parent_dir p)) of
           Inl err \<Rightarrow> (Inl err, w)
         | Inr ps \<Rightarrow> (Inr (c\<lparr>lib_paths := lib_paths c @ ps\<rparr>), w))
      else if key = KStr ''qmake_dirs'' then
        (case list_from_key e (files w) v (path (parent_dir p)) of
           Inl err \<Rightarrow> (Inl err, w)
         | Inr ps \<Rightarrow> (Inr (c\<lparr>qmake_dirs := qmake_dirs c @ ps\<rparr>), w))
      else if key = KStr ''qmake_exclude_dirs'' then
        (case list_from_key e (files w) v (path (parent_dir p)) of
           Inl err \<Rightarrow> (Inl err, w)
         | Inr ps \<Rightarrow> (Inr (c\<lparr>qmake_exclude_dirs := qmake_exclude_dirs c @ ps\<rparr>), w))
      else if key = KStr ''configs'' then (Inr c, w)
      else
        (case key of
           KStr k \<Rightarrow>
             (Inr c,
              py_print (''Warning: unhandled key '' @ k @ '' in configuration file '' @ Path_str e p) w)
         | _ \<Rightarrow>
             (Inl (TypeError (''can only concatenate str (not '' @ [CHR 0x22] @ type_name key
                               @ [CHR 0x22] @ '') to str'')), w)))"

fun merge_keys ::
    "env \<Rightarrow> Path \<Rightarrow> ydoc \<Rightarrow> Config \<Rightarrow> world \<Rightarrow> (error + Config) \<times> world" where
  "merge_keys e p [] c w = (Inr c, w)"
| "merge_keys e p ((key, v) # kvs) c w =
     (case merge_key e p key v c w of
        (Inl err, w1) \<Rightarrow> (Inl err, w1)
      | (Inr c1, w1) \<Rightarrow> merge_keys e p kvs c1 w1)"

fun merge_paths ::
    "env \<Rightarrow> Path list \<Rightarrow> Config \<Rightarrow> world \<Rightarrow> (error + Config) \<times> world" where
  \<comment> \<open>the loop \<^verbatim>\<open>for path in self.paths\<close>; \<^verbatim>\<open>Error.exit_on_exception\<close> prints its message
      and raises the exception again\<close>
  "merge_paths e [] c w = (Inr c, w)"
| "merge_paths e (p # ps) c w =
     (case load_yaml e (path p) w of
        (Inl err, w1) \<Rightarrow>
          (Inl err,
           (case err of
              YAMLError m \<Rightarrow> py_print ''Failed parsing configuration file'' w1
            | FileNotFoundError m \<Rightarrow> py_print ''Failed opening configuration file'' w1
            | IsADirectoryError m \<Rightarrow> py_print ''Failed opening configuration file'' w1
            | OSError m \<Rightarrow> py_print ''Failed opening configuration file'' w1
            | _ \<Rightarrow> w1))
      | (Inr data, w1) \<Rightarrow>
          (case merge_keys e p data c w1 of
             (Inl err, w2) \<Rightarrow> (Inl err, w2)
           | (Inr c1, w2) \<Rightarrow> merge_paths e ps c1 w2))"

definition title_string :: "string \<Rightarrow> string" where
  "title_string title = '' * '' @ title @ '':''"

definition item_string :: "string \<Rightarrow> string" where
  "item_string item = ''   - '' @ item"

definition Config_str :: "Config \<Rightarrow> error + string" where
  \<comment> \<open>\<^verbatim>\<open>Config.__str__\<close>; \<^verbatim>\<open>"   - " + self.fqbn\<close> needs a string\<close>
  "Config_str c =
     (case fqbn c of
        YStr s \<Rightarrow>
          Inr (str_join ''\<newline>''
            ([title_string ''main configuration paths'']
             @ map (\<lambda>p. item_string (path p)) (main_paths c)
             @ [title_string ''sub configurations'']
             @ map (\<lambda>p. item_string (path p)) (filter (\<lambda>p. \<not> Path_in p (main_paths c)) (paths c))
             @ [title_string ''fqbn'', item_string s]
             @ [title_string ''libs'']
             @ map (\<lambda>p. item_string (path p)) (lib_paths c)
             @ [title_string ''cflags'']
             @ map item_string (cflags c)))
      | _ \<Rightarrow> Inl (TypeError ''can only concatenate str to str''))"

definition initial_config :: "Path list \<Rightarrow> Path list \<Rightarrow> Config" where
  \<comment> \<open>the attributes \<^verbatim>\<open>Config.__init__\<close> sets before it reads the files\<close>
  "initial_config ps all_paths =
     \<lparr>main_paths = ps, paths = all_paths, fqbn = YNull, cflags = [],
      debug_command = YStr ''cat $$SERIALPORT'', baudrate = YStr ''115200'',
      lib_paths = [], qmake_dirs = [], qmake_exclude_dirs = []\<rparr>"

definition Config_init :: "env \<Rightarrow> Path list \<Rightarrow> world \<Rightarrow> (error + Config) \<times> world" where
  "Config_init e ps w =
     (case init_paths e ps [] w of
        (Inl err, w1) \<Rightarrow> (Inl err, w1)
      | (Inr all_paths, w1) \<Rightarrow>
          (case merge_paths e all_paths (initial_config ps all_paths) w1 of
             (Inl err, w2) \<Rightarrow> (Inl err, w2)
           | (Inr c, w2) \<Rightarrow>
               if fqbn c = YNull
               then (Inl (Exception ''Missing fqbn field in configuration''), w2)
               else
                 (case Config_str c of
                    Inl err \<Rightarrow> (Inl err, py_print ''Loaded configuration:'' (py_print [] w2))
                  | Inr s \<Rightarrow>
                      (Inr c,
                       py_print [] (py_print s (py_print ''Loaded configuration:'' (py_print [] w2)))))))"

section \<open>The class \<^verbatim>\<open>Makefile\<close>\<close>

record Makefile =
  m_path :: Path
  m_config :: Config
  m_sketch_path :: Path
  m_template_path :: Path

definition Makefile_init ::
    "env \<Rightarrow> fs \<Rightarrow> Config \<Rightarrow> Path \<Rightarrow> Path \<Rightarrow> Path \<Rightarrow> error + Makefile" where
  \<comment> \<open>\<^verbatim>\<open>Makefile(config, path, template_path, sketch_path)\<close>\<close>
  "Makefile_init e f cfg p template_path sketch_path =
     (case to_relative e f sketch_path (path (parent_dir p)) of
        Inl err \<Rightarrow> Inl err
      | Inr sp \<Rightarrow>
          Inr \<lparr>m_path = p, m_config = cfg, m_sketch_path = sp, m_template_path = template_path\<rparr>)"

definition str_of_yaml :: "yaml \<Rightarrow> error + string" where
  \<comment> \<open>\<^verbatim>\<open>line.replace(token, v)\<close> needs a string for \<^verbatim>\<open>v\<close>\<close>
  "str_of_yaml v =
     (case v of
        YStr s \<Rightarrow> Inr s
      | _ \<Rightarrow> Inl (TypeError ''replace() argument 2 must be str''))"

definition makefile_lib_string :: "env \<Rightarrow> fs \<Rightarrow> Makefile \<Rightarrow> Path \<Rightarrow> error + string" where
  "makefile_lib_string e f m lib_path =
     (if isuser lib_path then
        (case rel_path e lib_path of
           Inl err \<Rightarrow> Inl err
         | Inr r \<Rightarrow> Inr (join ''$(HOME)'' r))
      else if isrel lib_path then
        (case to_relative e f lib_path (path (parent_dir (m_path m))) of
           Inl err \<Rightarrow> Inl err
         | Inr q \<Rightarrow>
             (case rel_path e q of
                Inl err \<Rightarrow> Inl err
              | Inr r \<Rightarrow> Inr (join ''$(MAKEFILE_DIR)'' r)))
      else Inr (Path_str e lib_path))"

fun makefile_lib_lines :: "env \<Rightarrow> fs \<Rightarrow> Makefile \<Rightarrow> Path list \<Rightarrow> error + string list" where
  \<comment> \<open>the loop \<^verbatim>\<open>for lib_path in self.config.lib_paths\<close>\<close>
  "makefile_lib_lines e f m [] = Inr []"
| "makefile_lib_lines e f m (lib_path # libs) =
     (case makefile_lib_string e f m lib_path of
        Inl err \<Rightarrow> Inl err
      | Inr s \<Rightarrow>
          (case makefile_lib_lines e f m libs of
             Inl err \<Rightarrow> Inl err
           | Inr ls \<Rightarrow>
               Inr (([CHR 0x09, CHR 0x09] @ ''--library '' @ [CHR 0x22] @ s @ [CHR 0x22]
                      @ '' '' @ [CHR 0x5C] @ ''\<newline>'') # ls)))"

definition Makefile_replace_tokens ::
    "env \<Rightarrow> fs \<Rightarrow> Makefile \<Rightarrow> string \<Rightarrow> Path \<Rightarrow> error + string list" where
  "Makefile_replace_tokens e f m line sketch_path =
     (if str_in ''LIBS_PLACEHOLDER'' line then
        (case check_dirs_exist f (lib_paths (m_config m)) of
           Inl err \<Rightarrow> Inl err
         | Inr _ \<Rightarrow> makefile_lib_lines e f m (lib_paths (m_config m)))
      else if str_in ''FQBN_PLACEHOLDER'' line then
        (case str_of_yaml (fqbn (m_config m)) of
           Inl err \<Rightarrow> Inl err
         | Inr s \<Rightarrow> Inr [str_replace line ''FQBN_PLACEHOLDER'' s])
      else if str_in ''BINDIR_PLACEHOLDER'' line then
        (let bindir_suffix = str_replace1 (basename (path (m_path m))) ''Makefile'' [];
             bindir = (if bindir_suffix \<noteq> [] then ''bin'' @ bindir_suffix else ''bin'')
         in Inr [str_replace line ''BINDIR_PLACEHOLDER'' bindir])
      else if str_in ''BINFILE_PLACEHOLDER'' line then
        (case with_extension sketch_path ''.ino.bin'' of
           Inl err \<Rightarrow> Inl err
         | Inr sp \<Rightarrow> Inr [str_replace line ''BINFILE_PLACEHOLDER'' (basename (path sp))])
      else if str_in ''CFLAGS_PLACEHOLDER'' line then
        Inr [str_replace line ''CFLAGS_PLACEHOLDER'' (str_join '' '' (cflags (m_config m)))]
      else if str_in ''SKETCH_NOEXT_PLACEHOLDER'' line then
        (case to_relative e f sketch_path (path (parent_dir (m_path m))) of
           Inl err \<Rightarrow> Inl err
         | Inr sp \<Rightarrow>
             (case with_extension sp [] of
                Inl err \<Rightarrow> Inl err
              | Inr sp' \<Rightarrow>
                  (case rel_path e sp' of
                     Inl err \<Rightarrow> Inl err
                   | Inr r \<Rightarrow> Inr [str_replace line ''SKETCH_NOEXT_PLACEHOLDER'' r])))
      else if str_in ''DEBUG_COMMAND_PLACEHOLDER'' line then
        (case str_of_yaml (debug_command (m_config m)) of
           Inl err \<Rightarrow> Inl err
         | Inr s \<Rightarrow> Inr [str_replace line ''DEBUG_COMMAND_PLACEHOLDER'' s])
      else if str_in ''BAUDRATE_PLACEHOLDER'' line then
        (case str_of_yaml (baudrate (m_config m)) of
           Inl err \<Rightarrow> Inl err
         | Inr s \<Rightarrow> Inr [str_replace line ''BAUDRATE_PLACEHOLDER'' s])
      else Inr [line])"

fun makefile_out_lines ::
    "env \<Rightarrow> fs \<Rightarrow> Makefile \<Rightarrow> string list \<Rightarrow> string list \<Rightarrow> error + string list" where
  \<comment> \<open>the loop \<^verbatim>\<open>for line in in_lines: out_lines += self.replace_tokens(...)\<close>; the last
      argument is \<^verbatim>\<open>out_lines\<close>\<close>
  "makefile_out_lines e f m [] out_lines = Inr out_lines"
| "makefile_out_lines e f m (line # in_lines) out_lines =
     (case Makefile_replace_tokens e f m line (m_sketch_path m) of
        Inl err \<Rightarrow> Inl err
      | Inr ls \<Rightarrow> makefile_out_lines e f m in_lines (out_lines @ ls))"

definition Makefile_generate :: "env \<Rightarrow> Makefile \<Rightarrow> world \<Rightarrow> (error + unit) \<times> world" where
  "Makefile_generate e m w =
     (case safely_remove_or_exit (m_path m) w of
        (Inl err, w1) \<Rightarrow> (Inl err, w1)
      | (Inr _, w1) \<Rightarrow>
          (let w2 = py_print (''Generating '' @ path (m_path m) @ ''...'') w1 in
           case read_lines (files w2) (m_template_path m) of
             Inl err \<Rightarrow> (Inl err, w2)
           | Inr in_lines \<Rightarrow>
               (case makefile_out_lines e (files w2) m in_lines (header_strings e) of
                  Inl err \<Rightarrow> (Inl err, w2)
                | Inr out_lines \<Rightarrow>
                    (case write_lines (m_path m) out_lines w2 of
                       (Inl err, w3) \<Rightarrow> (Inl err, w3)
                     | (Inr _, w3) \<Rightarrow> (Inr (), py_print ''Done'' w3)))))"

section \<open>The class \<^verbatim>\<open>Qmake\<close>\<close>

record Qmake =
  q_path :: Path
  q_prifile_path :: Path
  q_config :: Config
  q_template_path :: Path
  q_prifile_template_path :: Path
  q_sketch_path :: Path
  q_makefile_path :: Path
  q_included_dirs :: "Path list"
  q_excluded_dirs :: "Path list"
  q_script_path :: Path

definition Qmake_init ::
    "env \<Rightarrow> fs \<Rightarrow> Config \<Rightarrow> Path \<Rightarrow> Path \<Rightarrow> Path \<Rightarrow> Path \<Rightarrow> error + Qmake" where
  \<comment> \<open>\<^verbatim>\<open>Qmake(config, path, template_path, sketch_path, makefile_path)\<close>\<close>
  "Qmake_init e f cfg p template_path sketch_path makefile_path =
     (case with_extension p ''.pri'' of
        Inl err \<Rightarrow> Inl err
      | Inr prifile_path \<Rightarrow>
          (case with_extension template_path ''.pri'' of
             Inl err \<Rightarrow> Inl err
           | Inr prifile_template_path \<Rightarrow>
               (case to_relative e f sketch_path (path (parent_dir p)) of
                  Inl err \<Rightarrow> Inl err
                | Inr sp \<Rightarrow>
                    (case with_extension p [] of
                       Inl err \<Rightarrow> Inl err
                     | Inr script_path \<Rightarrow>
                         Inr \<lparr>q_path = p, q_prifile_path = prifile_path, q_config = cfg,
                              q_template_path = template_path,
                              q_prifile_template_path = prifile_template_path,
                              q_sketch_path = sp, q_makefile_path = makefile_path,
                              q_included_dirs = [parent_dir sp] @ lib_paths cfg @ qmake_dirs cfg,
                              q_excluded_dirs = qmake_exclude_dirs cfg,
                              q_script_path = script_path\<rparr>))))"

fun headers_dirs_loop :: "Path list \<Rightarrow> Path option \<Rightarrow> Path list \<Rightarrow> Path list" where
  \<comment> \<open>the loop of \<^verbatim>\<open>headers_dirs\<close>, with \<^verbatim>\<open>prev_header_dir\<close> and \<^verbatim>\<open>ret\<close>\<close>
  "headers_dirs_loop [] prev_header_dir ret = ret"
| "headers_dirs_loop (header # headers) prev_header_dir ret =
     (if (case prev_header_dir of None \<Rightarrow> False | Some d \<Rightarrow> Path_eq d (parent_dir header))
      then headers_dirs_loop headers prev_header_dir ret
      else
        (let header_dir = parent_dir header
         in headers_dirs_loop headers (Some header_dir)
              (if \<not> Path_in header_dir ret then ret @ [header_dir] else ret)))"

definition headers_dirs :: "Path list \<Rightarrow> Path list" where
  "headers_dirs headers = headers_dirs_loop headers None []"

fun is_rawpath_excluded :: "env \<Rightarrow> string \<Rightarrow> Path list \<Rightarrow> bool" where
  "is_rawpath_excluded e raw_real_path [] = False"
| "is_rawpath_excluded e raw_real_path (excluded_dir # excluded_dirs) =
     (if startswith raw_real_path (Path_str e excluded_dir) then True
      else is_rawpath_excluded e raw_real_path excluded_dirs)"

definition get_other_files :: "Qmake \<Rightarrow> Path list" where
  "get_other_files q = [q_makefile_path q] @ paths (q_config q)"

definition path_from_ancestor :: "env \<Rightarrow> fs \<Rightarrow> Path \<Rightarrow> Path \<Rightarrow> string \<Rightarrow> error + Path" where
  "path_from_ancestor e f ancestor qmake_path raw_path =
     (if isuser ancestor then
        (case relpath (getcwd e) raw_path (expanduser e ''~/'') of
           Inl err \<Rightarrow> Inl err
         | Inr r \<Rightarrow> Path_init e f (join ''~/'' r) None)
      else if isabs_Path ancestor then Path_init e f raw_path None
      else
        (case Path_init e f raw_path None of
           Inl err \<Rightarrow> Inl err
         | Inr p \<Rightarrow> to_relative e f p (path (parent_dir qmake_path))))"

fun get_files_glob ::
    "env \<Rightarrow> fs \<Rightarrow> Qmake \<Rightarrow> string list \<Rightarrow> Path \<Rightarrow> string list \<Rightarrow> Path list \<times> string list
       \<Rightarrow> error + Path list \<times> string list" where
  \<comment> \<open>the inner loop of \<^verbatim>\<open>get_files\<close> over the names \<^verbatim>\<open>glob.iglob\<close> yields, with
      \<^verbatim>\<open>ret\<close> and \<^verbatim>\<open>raw_paths\<close>\<close>
  "get_files_glob e f q extensions included_dir [] (ret, raw_paths) = Inr (ret, raw_paths)"
| "get_files_glob e f q extensions included_dir (raw_path # raw) (ret, raw_paths) =
     (let raw_real_path = realpath e raw_path in
      if is_rawpath_excluded e raw_real_path (q_excluded_dirs q)
      then get_files_glob e f q extensions included_dir raw (ret, raw_paths)
      else if \<not> os_isfile f raw_real_path
      then get_files_glob e f q extensions included_dir raw (ret, raw_paths)
      else if splitext_ext raw_real_path \<notin> set extensions
      then get_files_glob e f q extensions included_dir raw (ret, raw_paths)
      else if raw_real_path \<in> set raw_paths
      then get_files_glob e f q extensions included_dir raw (ret, raw_paths)
      else
        (case path_from_ancestor e f included_dir (q_path q) raw_real_path of
           Inl err \<Rightarrow> Inl err
         | Inr p \<Rightarrow>
             get_files_glob e f q extensions included_dir raw
               (ret @ [p], raw_paths @ [realpath e raw_real_path])))"

fun get_files_dirs ::
    "env \<Rightarrow> fs \<Rightarrow> Qmake \<Rightarrow> string list \<Rightarrow> Path list \<Rightarrow> Path list \<times> string list
       \<Rightarrow> error + Path list \<times> string list" where
  \<comment> \<open>the outer loop of \<^verbatim>\<open>get_files\<close> over \<^verbatim>\<open>self.included_dirs\<close>\<close>
  "get_files_dirs e f q extensions [] acc = Inr acc"
| "get_files_dirs e f q extensions (included_dir # dirs) acc =
     (case get_files_glob e f q extensions included_dir
             (iglob e (join (path included_dir) ''**'')) acc of
        Inl err \<Rightarrow> Inl err
      | Inr acc' \<Rightarrow> get_files_dirs e f q extensions dirs acc')"

definition get_files :: "env \<Rightarrow> fs \<Rightarrow> Qmake \<Rightarrow> string list \<Rightarrow> error + Path list" where
  "get_files e f q extensions =
     (case get_files_dirs e f q extensions (q_included_dirs q) ([], []) of
        Inl err \<Rightarrow> Inl err
      | Inr (ret, raw_paths) \<Rightarrow> Inr ret)"

definition to_qmake_file_directive :: "env \<Rightarrow> fs \<Rightarrow> Path \<Rightarrow> Path \<Rightarrow> error + string" where
  "to_qmake_file_directive e f file_path qmake_path =
     (case (if isuser file_path then
              (case rel_path e file_path of
                 Inl err \<Rightarrow> Inl err
               | Inr r \<Rightarrow> Inr (''$$HOME/'' @ r))
            else if isabs_Path file_path then Inr (path file_path)
            else
              (case to_relative e f file_path (path (parent_dir qmake_path)) of
                 Inl err \<Rightarrow> Inl err
               | Inr p \<Rightarrow> rel_path e p)) of
        Inl err \<Rightarrow> Inl err
      | Inr path_string \<Rightarrow> Inr ([CHR 0x09] @ path_string @ '' '' @ [CHR 0x5C] @ ''\<newline>''))"

definition to_qmake_define :: "string \<Rightarrow> string" where
  \<comment> \<open>\<^verbatim>\<open>define[2:]\<close>, then a backslash and a quote become three backslashes and a quote\<close>
  "to_qmake_define define =
     str_replace (drop 2 define) [CHR 0x5C, CHR 0x22] [CHR 0x5C, CHR 0x5C, CHR 0x5C, CHR 0x22]"

fun qmake_path_lines ::
    "env \<Rightarrow> fs \<Rightarrow> Qmake \<Rightarrow> bool \<Rightarrow> bool \<Rightarrow> bool \<Rightarrow> Path list \<Rightarrow> error + string list" where
  \<comment> \<open>the loop \<^verbatim>\<open>for path in paths\<close> of \<^verbatim>\<open>Qmake.replace_tokens\<close>\<close>
  "qmake_path_lines e f q include_abs include_rel include_user [] = Inr []"
| "qmake_path_lines e f q include_abs include_rel include_user (p # ps) =
     (if (isrel p \<and> \<not> isuser p) \<and> include_rel \<or> isuser p \<and> include_user
           \<or> isabs_Path p \<and> include_abs
      then
        (case to_qmake_file_directive e f p (q_path q) of
           Inl err \<Rightarrow> Inl err
         | Inr d \<Rightarrow>
             (case qmake_path_lines e f q include_abs include_rel include_user ps of
                Inl err \<Rightarrow> Inl err
              | Inr ds \<Rightarrow> Inr (d # ds)))
      else qmake_path_lines e f q include_abs include_rel include_user ps)"

definition qmake_rel_string :: "env \<Rightarrow> fs \<Rightarrow> Path \<Rightarrow> Path \<Rightarrow> error + string" where
  \<comment> \<open>\<^verbatim>\<open>p.to_relative(qmake_dir).rel_path()\<close>\<close>
  "qmake_rel_string e f p qmake_dir =
     (case to_relative e f p (path qmake_dir) of
        Inl err \<Rightarrow> Inl err
      | Inr r \<Rightarrow> rel_path e r)"

definition Qmake_replace_tokens ::
    "env \<Rightarrow> fs \<Rightarrow> Qmake \<Rightarrow> string \<Rightarrow> Path list \<Rightarrow> Path list \<Rightarrow> Path list \<Rightarrow> Path list
       \<Rightarrow> string list \<Rightarrow> bool \<Rightarrow> bool \<Rightarrow> bool \<Rightarrow> error + string list" where
  \<comment> \<open>a line without a token is returned as the string it is, and \<^verbatim>\<open>out_lines += line\<close>
      then appends its characters one by one\<close>
  "Qmake_replace_tokens e f q line other_files headers sources includepaths defines
       include_abs include_rel include_user =
     (let qmake_dir = parent_dir (q_path q) in
      if str_in ''TARGET_PLACEHOLDER'' line then
        (case with_extension (q_script_path q) [] of
           Inl err \<Rightarrow> Inl err
         | Inr sp \<Rightarrow>
             (case qmake_rel_string e f sp qmake_dir of
                Inl err \<Rightarrow> Inl err
              | Inr r \<Rightarrow> Inr [str_replace line ''TARGET_PLACEHOLDER'' r]))
      else if str_in ''MAKEFILE_PLACEHOLDER'' line then
        (case qmake_rel_string e f (q_makefile_path q) qmake_dir of
           Inl err \<Rightarrow> Inl err
         | Inr r \<Rightarrow> Inr [str_replace line ''MAKEFILE_PLACEHOLDER'' r])
      else if str_in ''PRIFILE_PLACEHOLDER'' line then
        (case qmake_rel_string e f (q_prifile_path q) qmake_dir of
           Inl err \<Rightarrow> Inl err
         | Inr r \<Rightarrow> Inr [str_replace line ''PRIFILE_PLACEHOLDER'' r])
      else if str_in ''DEFINES_PLACEHOLDER'' line then
        Inr (map (\<lambda>define. [CHR 0x09] @ to_qmake_define define @ '' '' @ [CHR 0x5C] @ ''\<newline>'')
               defines)
      else if str_in ''OTHER_FILES_PLACEHOLDER'' line then
        qmake_path_lines e f q include_abs include_rel include_user other_files
      else if str_in ''SOURCES_PLACEHOLDER'' line then
        qmake_path_lines e f q include_abs include_rel include_user sources
      else if str_in ''HEADERS_PLACEHOLDER'' line then
        qmake_path_lines e f q include_abs include_rel include_user headers
      else if str_in ''INCLUDEPATH_PLACEHOLDER'' line then
        qmake_path_lines e f q include_abs include_rel include_user includepaths
      else Inr (map (\<lambda>c. [c]) line))"

fun qmake_out_lines ::
    "env \<Rightarrow> fs \<Rightarrow> Qmake \<Rightarrow> Path list \<Rightarrow> Path list \<Rightarrow> Path list \<Rightarrow> Path list \<Rightarrow> string list
       \<Rightarrow> bool \<Rightarrow> bool \<Rightarrow> bool \<Rightarrow> string list \<Rightarrow> string list \<Rightarrow> error + string list" where
  \<comment> \<open>the loop \<^verbatim>\<open>for line in in_lines: out_lines += self.replace_tokens(...)\<close>; the last
      argument is \<^verbatim>\<open>out_lines\<close>\<close>
  "qmake_out_lines e f q other_files headers sources includepaths defines
       include_abs include_rel include_user [] out_lines = Inr out_lines"
| "qmake_out_lines e f q other_files headers sources includepaths defines
       include_abs include_rel include_user (line # in_lines) out_lines =
     (case Qmake_replace_tokens e f q line other_files headers sources includepaths defines
             include_abs include_rel include_user of
        Inl err \<Rightarrow> Inl err
      | Inr ls \<Rightarrow>
          qmake_out_lines e f q other_files headers sources includepaths defines
            include_abs include_rel include_user in_lines (out_lines @ ls))"

definition create_runscript :: "env \<Rightarrow> Qmake \<Rightarrow> world \<Rightarrow> (error + unit) \<times> world" where
  \<comment> \<open>\<^verbatim>\<open>os.chmod\<close> changes permission bits only\<close>
  "create_runscript e q w =
     (case safely_remove_or_exit (q_script_path q) w of
        (Inl err, w1) \<Rightarrow> (Inl err, w1)
      | (Inr _, w1) \<Rightarrow>
          (case to_relative e (files w1) (q_makefile_path q) (path (parent_dir (q_script_path q))) of
             Inl err \<Rightarrow> (Inl err, w1)
           | Inr makefile_rel_path \<Rightarrow>
               (case rel_path e makefile_rel_path of
                  Inl err \<Rightarrow> (Inl err, w1)
                | Inr r \<Rightarrow>
                    write_lines (q_script_path q)
                      ([''#!/bin/sh\<newline>''] @ header_strings e @ [''make -f '' @ r @ '' run\<newline>''])
                      w1)))"

definition qmake_write ::
    "env \<Rightarrow> Qmake \<Rightarrow> Path \<Rightarrow> Path \<Rightarrow> Path list \<Rightarrow> Path list \<Rightarrow> Path list \<Rightarrow> Path list
       \<Rightarrow> string list \<Rightarrow> bool \<Rightarrow> bool \<Rightarrow> bool \<Rightarrow> world \<Rightarrow> (error + unit) \<times> world" where
  \<comment> \<open>one of the two blocks of \<^verbatim>\<open>Qmake.generate\<close> that print \<^verbatim>\<open>Generating\<close>, read a
      template, replace its tokens and write the result\<close>
  "qmake_write e q target template other_files headers sources includepaths defines
       include_abs include_rel include_user w =
     (let w1 = py_print (''Generating '' @ path target @ ''...'') w in
      case read_lines (files w1) template of
        Inl err \<Rightarrow> (Inl err, w1)
      | Inr in_lines \<Rightarrow>
          (case qmake_out_lines e (files w1) q other_files headers sources includepaths defines
                  include_abs include_rel include_user in_lines (header_strings e) of
             Inl err \<Rightarrow> (Inl err, w1)
           | Inr out_lines \<Rightarrow>
               (case write_lines target out_lines w1 of
                  (Inl err, w2) \<Rightarrow> (Inl err, w2)
                | (Inr _, w2) \<Rightarrow> (Inr (), py_print ''Done'' w2))))"

definition Qmake_generate :: "env \<Rightarrow> Qmake \<Rightarrow> world \<Rightarrow> (error + unit) \<times> world" where
  "Qmake_generate e q w =
     (case safely_remove_or_exit (q_path q) w of
        (Inl err, w1) \<Rightarrow> (Inl err, w1)
      | (Inr _, w1) \<Rightarrow>
          (case safely_remove_or_exit (q_prifile_path q) w1 of
             (Inl err, w2) \<Rightarrow> (Inl err, w2)
           | (Inr _, w2) \<Rightarrow>
               (let w3 = py_print (''Getting '' @ [CHR 0x22] @ ''OTHER_FILES'' @ [CHR 0x22] @ ''...'')
                           (py_print ''Scanning files for qmake generation...'' w2);
                    other_files = get_other_files q;
                    w4 = py_print (''Getting '' @ [CHR 0x22] @ ''HEADERS'' @ [CHR 0x22] @ ''...'') w3
                in case get_files e (files w4) q [''.h'', ''.hpp''] of
                     Inl err \<Rightarrow> (Inl err, w4)
                   | Inr headers \<Rightarrow>
                       (let w5 = py_print (''Getting '' @ [CHR 0x22] @ ''SOURCES'' @ [CHR 0x22] @ ''...'') w4
                        in case get_files e (files w5) q [''.c'', ''.cpp''] of
                             Inl err \<Rightarrow> (Inl err, w5)
                           | Inr srcs \<Rightarrow>
                               (let sources = q_sketch_path q # srcs;
                                    w6 = py_print (''Getting '' @ [CHR 0x22] @ ''INCLUDEPATH'' @ [CHR 0x22] @ ''...'') w5;
                                    includepaths = headers_dirs headers;
                                    w7 = py_print ''Building sketch to check proprocessor defines...''
                                           (py_print ''Done'' w6)
                                in case get_defines e (q_makefile_path q) of
                                     Inl err \<Rightarrow> (Inl err, w7)
                                   | Inr defines \<Rightarrow>
                                       (case qmake_write e q (q_path q) (q_template_path q)
                                               other_files headers sources includepaths defines
                                               False True False w7 of
                                          (Inl err, w8) \<Rightarrow> (Inl err, w8)
                                        | (Inr _, w8) \<Rightarrow>
                                            (case qmake_write e q (q_prifile_path q)
                                                    (q_prifile_template_path q)
                                                    other_files headers sources includepaths defines
                                                    True False True w8 of
                                               (Inl err, w9) \<Rightarrow> (Inl err, w9)
                                             | (Inr _, w9) \<Rightarrow> create_runscript e q w9)))))))"

section \<open>The function \<^verbatim>\<open>main\<close>\<close>

text \<open>
  The command line as \<^verbatim>\<open>argparse\<close> returns it: \<^verbatim>\<open>--config\<close> may be given several
  times, the last three options may be absent.
\<close>

record args =
  arg_sketch :: string
  arg_config :: "string list"
  arg_makefile :: string
  arg_makefile_template :: "string option"
  arg_qmake :: "string option"
  arg_qmake_template :: "string option"

definition templates_dir :: "env \<Rightarrow> fs \<Rightarrow> error + Path" where
  "templates_dir e f = Path_init e f (join (dirname (module_file e)) ''templates'') None"

definition makefile_default_template_path :: "env \<Rightarrow> fs \<Rightarrow> error + Path" where
  "makefile_default_template_path e f =
     (case templates_dir e f of
        Inl err \<Rightarrow> Inl err
      | Inr d \<Rightarrow> Path_init e f (join (path d) ''Makefile'') None)"

definition qmake_default_template_path :: "env \<Rightarrow> fs \<Rightarrow> error + Path" where
  "qmake_default_template_path e f =
     (case templates_dir e f of
        Inl err \<Rightarrow> Inl err
      | Inr d \<Rightarrow> Path_init e f (join (path d) ''qmake.pro'') None)"

definition truthy :: "string option \<Rightarrow> bool" where
  \<comment> \<open>\<^verbatim>\<open>if args.x\<close>: neither \<^verbatim>\<open>None\<close> nor the empty string\<close>
  "truthy x = (case x of None \<Rightarrow> False | Some s \<Rightarrow> s \<noteq> [])"

fun config_paths_of :: "env \<Rightarrow> fs \<Rightarrow> string list \<Rightarrow> error + Path list" where
  \<comment> \<open>the loop \<^verbatim>\<open>for config in args.config\<close>\<close>
  "config_paths_of e f [] = Inr []"
| "config_paths_of e f (c # cs) =
     (case Path_init e f c (Some (getcwd e)) of
        Inl err \<Rightarrow> Inl err
      | Inr p \<Rightarrow>
          (case config_paths_of e f cs of
             Inl err \<Rightarrow> Inl err
           | Inr ps \<Rightarrow> Inr (p # ps)))"

definition template_path_of ::
    "env \<Rightarrow> fs \<Rightarrow> string option \<Rightarrow> error + Path \<Rightarrow> error + Path" where
  \<comment> \<open>\<^verbatim>\<open>Path(args.t, os.getcwd()) if args.t else default\<close>\<close>
  "template_path_of e f t dflt =
     (if truthy t then Path_init e f (the t) (Some (getcwd e)) else dflt)"

definition main_generate ::
    "env \<Rightarrow> Path \<Rightarrow> Path list \<Rightarrow> Path \<Rightarrow> Path \<Rightarrow> (Path \<times> Path) option \<Rightarrow> world
       \<Rightarrow> (error + unit) \<times> world" where
  \<comment> \<open>\<^verbatim>\<open>main\<close> from \<^verbatim>\<open>config = Config(config_paths)\<close> on; the last option holds
      \<^verbatim>\<open>qmake_path\<close> and \<^verbatim>\<open>qmake_template_path\<close>. The elapsed time in the last line
      printed is left out.\<close>
  "main_generate e sketch_path config_paths makefile_path makefile_template_path qm w =
     (case Config_init e config_paths w of
        (Inl err, w1) \<Rightarrow> (Inl err, w1)
      | (Inr cfg, w1) \<Rightarrow>
          (case Makefile_init e (files w1) cfg makefile_path makefile_template_path sketch_path of
             Inl err \<Rightarrow> (Inl err, w1)
           | Inr makefile \<Rightarrow>
               (case Makefile_generate e makefile w1 of
                  (Inl err, w2) \<Rightarrow> (Inl err, w2)
                | (Inr _, w2) \<Rightarrow>
                    (case qm of
                       None \<Rightarrow> (Inr (), py_print ''Files generated in seconds'' w2)
                     | Some (qmake_path, qmake_template_path) \<Rightarrow>
                         (case Qmake_init e (files w2) cfg qmake_path qmake_template_path
                                 sketch_path makefile_path of
                            Inl err \<Rightarrow> (Inl err, w2)
                          | Inr qmakefile \<Rightarrow>
                              (case Qmake_generate e qmakefile w2 of
                                 (Inl err, w3) \<Rightarrow> (Inl err, w3)
                               | (Inr _, w3) \<Rightarrow>
                                   (Inr (), py_print ''Files generated in seconds'' w3)))))))"

definition main :: "env \<Rightarrow> args \<Rightarrow> world \<Rightarrow> (error + unit) \<times> world" where
  "main e a w =
     (let f = files w in
      case Path_init e f (arg_sketch a) (Some (getcwd e)) of
        Inl err \<Rightarrow> (Inl err, w)
      | Inr sketch_path \<Rightarrow>
          (case config_paths_of e f (arg_config a) of
             Inl err \<Rightarrow> (Inl err, w)
           | Inr config_paths \<Rightarrow>
               if \<not> startswith (basename (arg_makefile a)) ''Makefile''
               then (Inl (Exception (''Please use a Makefile base name starting with ''
                                      @ [CHR 0x22] @ ''Makefile'' @ [CHR 0x22])), w)
               else
                 (case Path_init e f (arg_makefile a) (Some (getcwd e)) of
                    Inl err \<Rightarrow> (Inl err, w)
                  | Inr makefile_path \<Rightarrow>
                      (case template_path_of e f (arg_makefile_template a)
                              (makefile_default_template_path e f) of
                         Inl err \<Rightarrow> (Inl err, w)
                       | Inr makefile_template_path \<Rightarrow>
                           (case (if truthy (arg_qmake a) then
                                    (case Path_init e f (the (arg_qmake a)) (Some (getcwd e)) of
                                       Inl err \<Rightarrow> Inl err
                                     | Inr qmake_path \<Rightarrow>
                                         if \<not> endswith (the (arg_qmake a)) ''.pro''
                                         then Inl (Exception (''Please use a qmake file name ending with ''
                                                                @ [CHR 0x22] @ ''.pro'' @ [CHR 0x22]))
                                         else
                                           (case template_path_of e f (arg_qmake_template a)
                                                   (qmake_default_template_path e f) of
                                              Inl err \<Rightarrow> Inl err
                                            | Inr qmake_template_path \<Rightarrow>
                                                Inr (Some (qmake_path, qmake_template_path))))
                                  else Inr None) of
                              Inl err \<Rightarrow> (Inl err, w)
                            | Inr qm \<Rightarrow>
                                (case check_files_exist f
                                        ([sketch_path] @ config_paths @ [makefile_template_path]
                                         @ (case qm of None \<Rightarrow> [] | Some (qp, qt) \<Rightarrow> [qt])) of
                                   Inl err \<Rightarrow> (Inl err, w)
                                 | Inr _ \<Rightarrow>
                                     main_generate e sketch_path config_paths makefile_path
                                       makefile_template_path qm w))))))"

section \<open>Notions used in the statements\<close>

text \<open>
  Two states give a composition the same input when they agree on the files and on the
  inclusion stack; what has been printed and loaded before does not matter. \<open>frame\<close>
  relates two runs of one operation from such states: the same result, states that agree
  again, the files as they were, and after a result that is not an error the stack as
  it was.
\<close>

definition same_input :: "world \<Rightarrow> world \<Rightarrow> bool" where
  "same_input w v = (files w = files v \<and> extra_config_stack w = extra_config_stack v)"

definition frame :: "world \<Rightarrow> world \<Rightarrow> (error + 'a) \<times> world \<Rightarrow> (error + 'a) \<times> world \<Rightarrow> bool" where
  "frame w v rw sv =
     (fst rw = fst sv \<and> same_input (snd rw) (snd sv) \<and> files (snd rw) = files w \<and>
      (case fst rw of Inr x \<Rightarrow> extra_config_stack (snd rw) = extra_config_stack w | Inl err \<Rightarrow> True))"

text \<open>
  The words of the specification for the merge of configuration layers. \<open>doc_of\<close> is
  the mapping a configuration file holds; \<open>declared\<close> is the list a layer gives for a
  list-valued key (empty when the key is absent); \<open>overwrite\<close> is a scalar field after a
  layer, \<open>last_value\<close> after a sequence of layers; \<open>resolved_in\<close> resolves path
  strings against the parent directory of the file that declares them. \<open>layer_merged\<close>
  and \<open>layers_merged\<close> say that a configuration is another one merged with one layer, or
  with a sequence of layers in order.
\<close>

definition doc_of :: "env \<Rightarrow> fs \<Rightarrow> Path \<Rightarrow> ydoc" where
  "doc_of e f p =
     (case f (path p) of
        Some (File t) \<Rightarrow> (case yaml_safe_load e t of Inr d \<Rightarrow> d | Inl err \<Rightarrow> [])
      | _ \<Rightarrow> [])"

definition items :: "yaml \<Rightarrow> string list" where
  "items x = (case iter_yaml x of Inr xs \<Rightarrow> xs | Inl err \<Rightarrow> [])"

definition declared :: "ydoc \<Rightarrow> string \<Rightarrow> string list" where
  "declared d k =
     (case map_of d (KStr k) of
        None \<Rightarrow> []
      | Some v \<Rightarrow> items v)"

definition overwrite :: "string \<Rightarrow> yaml \<Rightarrow> ydoc \<Rightarrow> yaml" where
  "overwrite k cur d = (case map_of d (KStr k) of None \<Rightarrow> cur | Some v \<Rightarrow> v)"

definition last_value :: "string \<Rightarrow> yaml \<Rightarrow> ydoc list \<Rightarrow> yaml" where
  "last_value k dflt docs = foldl (overwrite k) dflt docs"

definition resolved_in :: "env \<Rightarrow> fs \<Rightarrow> Path \<Rightarrow> string list \<Rightarrow> (error + Path) list" where
  "resolved_in e f p xs = map (\<lambda>s. Path_init e f s (Some (dirname (path p)))) xs"

definition recognized_keys :: "string list" where
  "recognized_keys =
     [''fqbn'', ''cflags'', ''debug_command'', ''baudrate'', ''libs'', ''qmake_dirs'',
      ''qmake_exclude_dirs'', ''configs'']"

definition layer_merged :: "env \<Rightarrow> fs \<Rightarrow> Path \<Rightarrow> ydoc \<Rightarrow> Config \<Rightarrow> Config \<Rightarrow> bool" where
  "layer_merged e f p d c c' =
     (fqbn c' = overwrite ''fqbn'' (fqbn c) d \<and>
      cflags c' = cflags c @ declared d ''cflags'' \<and>
      debug_command c' = overwrite ''debug_command'' (debug_command c) d \<and>
      baudrate c' = overwrite ''baudrate'' (baudrate c) d \<and>
      map Inr (lib_paths c') = map Inr (lib_paths c) @ resolved_in e f p (declared d ''libs'') \<and>
      map Inr (qmake_dirs c') = map Inr (qmake_dirs c) @ resolved_in e f p (declared d ''qmake_dirs'') \<and>
      map Inr (qmake_exclude_dirs c') =
        map Inr (qmake_exclude_dirs c) @ resolved_in e f p (declared d ''qmake_exclude_dirs'') \<and>
      main_paths c' = main_paths c \<and> paths c' = paths c)"

definition layers_merged :: "env \<Rightarrow> fs \<Rightarrow> Path list \<Rightarrow> Config \<Rightarrow> Config \<Rightarrow> bool" where
  "layers_merged e f ps c c' =
     (fqbn c' = last_value ''fqbn'' (fqbn c) (map (doc_of e f) ps) \<and>
      cflags c' = cflags c @ concat (map (\<lambda>p. declared (doc_of e f p) ''cflags'') ps) \<and>
      debug_command c' = last_value ''debug_command'' (debug_command c) (map (doc_of e f) ps) \<and>
      baudrate c' = last_value ''baudrate'' (baudrate c) (map (doc_of e f) ps) \<and>
      map Inr (lib_paths c') =
        map Inr (lib_paths c)
          @ concat (map (\<lambda>p. resolved_in e f p (declared (doc_of e f p) ''libs'')) ps) \<and>
      map Inr (qmake_dirs c') =
        map Inr (qmake_dirs c)
          @ concat (map (\<lambda>p. resolved_in e f p (declared (doc_of e f p) ''qmake_dirs'')) ps) \<and>
      map Inr (qmake_exclude_dirs c') =
        map Inr (qmake_exclude_dirs c)
          @ concat (map (\<lambda>p. resolved_in e f p (declared (doc_of e f p) ''qmake_exclude_dirs'')) ps) \<and>
      main_paths c' = main_paths c \<and> paths c' = paths c)"

text \<open>
  What a generated file begins with: \<open>file_begins f p s\<close> says that \<open>p\<close> is a regular file
  whose bytes begin with \<open>s\<close>. The marker string ends with a line feed, so a file that
  begins with it has the marker line as its first line. \<open>qmake_prints\<close> is the state after
  the progress messages \<^verbatim>\<open>Qmake.generate\<close> prints before it writes.
\<close>

definition file_begins :: "fs \<Rightarrow> string \<Rightarrow> string \<Rightarrow> bool" where
  "file_begins f p s = (case f p of Some (File c) \<Rightarrow> startswith c s | _ \<Rightarrow> False)"

definition qmake_prints :: "world \<Rightarrow> world" where
  "qmake_prints w =
     py_print ''Building sketch to check proprocessor defines...''
       (py_print ''Done''
         (py_print (''Getting '' @ [CHR 0x22] @ ''INCLUDEPATH'' @ [CHR 0x22] @ ''...'')
           (py_print (''Getting '' @ [CHR 0x22] @ ''SOURCES'' @ [CHR 0x22] @ ''...'')
             (py_print (''Getting '' @ [CHR 0x22] @ ''HEADERS'' @ [CHR 0x22] @ ''...'')
               (py_print (''Getting '' @ [CHR 0x22] @ ''OTHER_FILES'' @ [CHR 0x22] @ ''...'')
                 (py_print ''Scanning files for qmake generation...'' w))))))"

subsection \<open>Canonical names as lists of components\<close>

text \<open>
  The proofs about \<^verbatim>\<open>posixpath\<close> read an absolute name with one leading slash as the
  list of its components: \<^term>\<open>render\<close> writes such a list back as a name, a component is
  \<^term>\<open>plain\<close> when it is neither empty nor \<^verbatim>\<open>.\<close> nor \<^verbatim>\<open>..\<close> and holds no slash, and
  \<^term>\<open>walk\<close> follows a sequence of components from a list, \<^verbatim>\<open>..\<close> dropping the last one.
\<close>

definition plain :: "string \<Rightarrow> bool" where
  "plain c = (c \<noteq> [] \<and> CHR ''/'' \<notin> set c \<and> c \<noteq> ''.'' \<and> c \<noteq> ''..'')"

definition render :: "string list \<Rightarrow> string" where
  "render st = ''/'' @ str_join ''/'' st"

fun walk :: "string list \<Rightarrow> string list \<Rightarrow> string list" where
  "walk st [] = st"
| "walk st (c # cs) =
     (if c = [] \<or> c = ''.'' then walk st cs
      else if c = ''..'' then walk (butlast st) cs
      else walk (st @ [c]) cs)"

section \<open>Example inputs\<close>

text \<open>
  Configuration files for the examples, and a parser that knows their texts.
\<close>

definition ex_docs :: "(string \<times> ydoc) list" where
  "ex_docs =
     [(''configs: [b.yaml]\<newline>'', [(KStr ''configs'', YSeq [''b.yaml''])]),
      (''configs: [a.yaml]\<newline>'', [(KStr ''configs'', YSeq [''a.yaml''])]),
      (''configs: [d.yaml, b2.yaml]\<newline>'', [(KStr ''configs'', YSeq [''d.yaml'', ''b2.yaml''])]),
      (''configs: [d.yaml, a2.yaml]\<newline>'', [(KStr ''configs'', YSeq [''d.yaml'', ''a2.yaml''])]),
      (''cflags: [-Os]\<newline>'', [(KStr ''cflags'', YSeq [''-Os''])]),
      (''configs: [missing.yaml]\<newline>'', [(KStr ''configs'', YSeq [''missing.yaml''])]),
      (''fqbn: arduino:avr:uno\<newline>cflags: [-DA]\<newline>baudrate: !!str 9600\<newline>libs: [libA]\<newline>colour: red\<newline>configs: [sub/y.yaml]\<newline>'',
       [(KStr ''fqbn'', YStr ''arduino:avr:uno''), (KStr ''cflags'', YSeq [''-DA'']),
        (KStr ''baudrate'', YStr ''9600''), (KStr ''libs'', YSeq [''libA'']), (KStr ''colour'', YStr ''red''),
        (KStr ''configs'', YSeq [''sub/y.yaml''])]),
      (''cflags: [-DB]\<newline>baudrate: !!str 57600\<newline>libs: [libB]\<newline>'',
       [(KStr ''cflags'', YSeq [''-DB'']), (KStr ''baudrate'', YStr ''57600''), (KStr ''libs'', YSeq [''libB''])]),
      (''fqbn: arduino:avr:uno\<newline>libs: [nolib]\<newline>'',
       [(KStr ''fqbn'', YStr ''arduino:avr:uno''), (KStr ''libs'', YSeq [''nolib''])]),
      (''fqbn: arduino:avr:uno\<newline>5: five\<newline>'',
       [(KStr ''fqbn'', YStr ''arduino:avr:uno''), (KInt 5, YStr ''five'')])]"

definition ex_yaml :: "string \<Rightarrow> error + ydoc" where
  "ex_yaml t = (case map_of ex_docs t of None \<Rightarrow> Inl (YAMLError t) | Some d \<Rightarrow> Inr d)"

definition ex_env :: env where
  "ex_env =
     \<lparr>HOME = ''/home/u'', getcwd = ''/w'',
      argv = [''/opt/agm/arduino-genmakefile.py'', ''--sketch'', ''s.ino''],
      module_file = ''/opt/agm/arduino-genmakefile.py'',
      resolve_links = joinrealpath_nolinks,
      object_addr = (\<lambda>p. ''7f55d2910790''),
      yaml_safe_load = ex_yaml,
      iglob = (\<lambda>p. []),
      recursionlimit = 900,
      get_defines = (\<lambda>p. Inr [])\<rparr>"

definition ex_world :: "fs \<Rightarrow> world" where
  "ex_world f = \<lparr>files = f, extra_config_stack = [], stdout = [], loads = []\<rparr>"

definition ex_abs :: "string \<Rightarrow> Path" where
  "ex_abs s = \<lparr>ptype = Absolute, basedir = None, path = s\<rparr>"

definition ex_script_files :: fs where
  "ex_script_files =
     (\<lambda>p. if p = ''/w/proj'' then
             Some (File ''#!/bin/sh\<newline># Generated by arduino-genmakefile\<newline>make -f Makefile run\<newline>'')
           else if p = ''/w/notes'' then Some (File ''my notes\<newline>'')
           else if p = ''/w/mac'' then
             Some (File (''x'' @ [CHR 0x0D] @ ''# Generated by arduino-genmakefile''
                           @ [CHR 0x0D, CHR 0x0A]))
           else if p = ''/w/latin1'' then
             Some (File (''# Generated by arduino-genmakefile\<newline># caf'' @ [CHR 0xE9, CHR 0x0A]))
           else if p = ''/w'' then Some Dir
           else None)"

definition ex_config_files :: fs where
  "ex_config_files =
     map_of
       [(''/w'', Dir),
        (''/w/a.yaml'', File ''configs: [b.yaml]\<newline>''),
        (''/w/b.yaml'', File ''configs: [a.yaml]\<newline>''),
        (''/w/a2.yaml'', File ''configs: [d.yaml, b2.yaml]\<newline>''),
        (''/w/b2.yaml'', File ''configs: [d.yaml, a2.yaml]\<newline>''),
        (''/w/d.yaml'', File ''cflags: [-Os]\<newline>''),
        (''/w/m.yaml'', File ''configs: [missing.yaml]\<newline>''),
        (''/w/x.yaml'', File ''fqbn: arduino:avr:uno\<newline>cflags: [-DA]\<newline>baudrate: !!str 9600\<newline>libs: [libA]\<newline>colour: red\<newline>configs: [sub/y.yaml]\<newline>''),
        (''/w/k.yaml'', File ''fqbn: arduino:avr:uno\<newline>5: five\<newline>''),
        (''/w/sub'', Dir),
        (''/w/sub/y.yaml'', File ''cflags: [-DB]\<newline>baudrate: !!str 57600\<newline>libs: [libB]\<newline>'')]"

definition ex_rel :: "string \<Rightarrow> string \<Rightarrow> Path" where
  "ex_rel b s = \<lparr>ptype = Relative, basedir = Some b, path = s\<rparr>"

definition ex_d :: Path where
  "ex_d = ex_rel ''/w'' ''/w/d.yaml''"

text \<open>
  A project in \<^verbatim>\<open>/w/proj\<close>: a sketch, a configuration with a library directory, a
  Makefile and a helper script that an earlier run has generated, and the templates
  beside the program. \<open>ex_nolib_files\<close> is the same project with a configuration that
  names a library directory that does not exist.
\<close>

definition ex_project_docs :: "(string \<times> ydoc) list" where
  "ex_project_docs =
     [(''fqbn: arduino:avr:uno\<newline>libs: [../libA]\<newline>qmake_exclude_dirs: [../libA/skip]\<newline>'',
       [(KStr ''fqbn'', YStr ''arduino:avr:uno''), (KStr ''libs'', YSeq [''../libA'']),
        (KStr ''qmake_exclude_dirs'', YSeq [''../libA/skip''])]),
      (''fqbn: arduino:avr:uno\<newline>libs: [nolib]\<newline>'',
       [(KStr ''fqbn'', YStr ''arduino:avr:uno''), (KStr ''libs'', YSeq [''nolib''])])]"

definition ex_project_env :: env where
  "ex_project_env =
     ex_env\<lparr>getcwd := ''/w/proj'',
            argv := [''/opt/agm/arduino-genmakefile.py'', ''--sketch'', ''sketch.ino'',
                     ''--config'', ''c.yaml'', ''--makefile'', ''Makefile'',
                     ''--qmake'', ''proj.pro''],
            yaml_safe_load :=
              (\<lambda>t. case map_of ex_project_docs t of None \<Rightarrow> Inl (YAMLError t) | Some d \<Rightarrow> Inr d),
            iglob :=
              (\<lambda>pat. if pat = ''/w/libA/**''
                      then [''/w/libA/'', ''/w/libA/a.h'', ''/w/libA/a.c'', ''/w/libA/skip'',
                            ''/w/libA/skip/b.h'']
                      else if pat = ''/w/proj/**''
                      then [''/w/proj/'', ''/w/proj/sketch.ino'', ''/w/proj/c.yaml'',
                            ''/w/proj/Makefile'', ''/w/proj/proj'']
                      else [])\<rparr>"

definition ex_project_list :: "(string \<times> node) list" where
  "ex_project_list =
     [(''/w'', Dir), (''/w/proj'', Dir), (''/w/libA'', Dir), (''/w/libA/skip'', Dir),
      (''/w/libA/a.h'', File ''int a(void);\<newline>''),
      (''/w/libA/a.c'', File ''int a(void) { return 1; }\<newline>''),
      (''/w/libA/skip/b.h'', File ''int b(void);\<newline>''),
      (''/w/proj/sketch.ino'', File ''void setup() {}\<newline>void loop() {}\<newline>''),
      (''/w/proj/c.yaml'',
       File ''fqbn: arduino:avr:uno\<newline>libs: [../libA]\<newline>qmake_exclude_dirs: [../libA/skip]\<newline>''),
      (''/w/proj/Makefile'', File ''# Generated by arduino-genmakefile\<newline>FQBN := old\<newline>''),
      (''/opt/agm/templates'', Dir),
      (''/opt/agm/templates/Makefile'',
       File ''FQBN := FQBN_PLACEHOLDER\<newline>LIBS := \<newline>LIBS_PLACEHOLDER\<newline>all:\<newline>''),
      (''/opt/agm/templates/qmake.pro'',
       File ''include(PRIFILE_PLACEHOLDER)\<newline>HEADERS += \<newline>HEADERS_PLACEHOLDER\<newline>''),
      (''/opt/agm/templates/qmake.pri'',
       File ''HEADERS += \<newline>HEADERS_PLACEHOLDER\<newline>'')]"

definition ex_project_files :: fs where
  "ex_project_files = map_of ex_project_list"

definition ex_nolib_files :: fs where
  "ex_nolib_files =
     map_of ((''/w/proj/c.yaml'', File ''fqbn: arduino:avr:uno\<newline>libs: [nolib]\<newline>'')
             # ex_project_list)"

definition ex_args :: args where
  "ex_args =
     \<lparr>arg_sketch = ''sketch.ino'', arg_config = [''c.yaml''], arg_makefile = ''Makefile'',
      arg_makefile_template = None, arg_qmake = None, arg_qmake_template = None\<rparr>"

definition ex_args_qmake :: args where
  "ex_args_qmake = ex_args\<lparr>arg_qmake := Some ''proj.pro''\<rparr>"

definition ex_args_collide :: args where
  "ex_args_collide = ex_args\<lparr>arg_qmake := Some ''Makefile.pro''\<rparr>"

text \<open>
  The objects \<^verbatim>\<open>main\<close> builds for this project.
\<close>

definition ex_config :: Config where
  "ex_config =
     \<lparr>main_paths = [ex_rel ''/w/proj'' ''/w/proj/c.yaml''],
      paths = [ex_rel ''/w/proj'' ''/w/proj/c.yaml''],
      fqbn = YStr ''arduino:avr:uno'', cflags = [],
      debug_command = YStr ''cat $$SERIALPORT'', baudrate = YStr ''115200'',
      lib_paths = [ex_rel ''/w/proj'' ''/w/libA''], qmake_dirs = [],
      qmake_exclude_dirs = [ex_rel ''/w/proj'' ''/w/libA/skip'']\<rparr>"

definition ex_makefile :: Makefile where
  "ex_makefile =
     \<lparr>m_path = ex_rel ''/w/proj'' ''/w/proj/Makefile'', m_config = ex_config,
      m_sketch_path = ex_rel ''/w/proj'' ''/w/proj/sketch.ino'',
      m_template_path = ex_abs ''/opt/agm/templates/Makefile''\<rparr>"

definition ex_qmake :: Qmake where
  "ex_qmake =
     \<lparr>q_path = ex_rel ''/w/proj'' ''/w/proj/proj.pro'',
      q_prifile_path = ex_rel ''/w/proj'' ''/w/proj/proj.pri'',
      q_config = ex_config,
      q_template_path = ex_abs ''/opt/agm/templates/qmake.pro'',
      q_prifile_template_path = ex_abs ''/opt/agm/templates/qmake.pri'',
      q_sketch_path = ex_rel ''/w/proj'' ''/w/proj/sketch.ino'',
      q_makefile_path = ex_rel ''/w/proj'' ''/w/proj/Makefile'',
      q_included_dirs = [ex_rel ''/w/proj'' ''/w/proj'', ex_rel ''/w/proj'' ''/w/libA''],
      q_excluded_dirs = [ex_rel ''/w/proj'' ''/w/libA/skip''],
      q_script_path = ex_rel ''/w/proj'' ''/w/proj/proj''\<rparr>"

section \<open>Properties\<close>

subsection \<open>Paths\<close>

lemma normpath_nonempty: "normpath p \<noteq> []"
  by (simp add: normpath_def Let_def)

lemma realpath_nonempty: "realpath e p \<noteq> []"
  by (simp add: realpath_def abspath_def normpath_nonempty)

lemma Path_init_path_nonempty: "Path_init e f p b = Inr q \<Longrightarrow> path q \<noteq> []"
  by (auto simp: Path_init_def realpath_nonempty split: if_splits sum.splits)

lemma relpath_Inr: "p \<noteq> [] \<Longrightarrow> \<exists>r. relpath cwd p start = Inr r"
  by (simp add: relpath_def Let_def)

text \<open>
  Claim C10. For a \<^verbatim>\<open>Path\<close> the constructor has built, \<^verbatim>\<open>rel_path()\<close> raises
  \<^verbatim>\<open>ValueError\<close> if and only if the path is absolute; for a user path it returns the
  canonical location relative to the expanded home directory, and for a relative path
  the canonical location relative to the base directory the path was built with.
\<close>

theorem rel_path_value_error_iff:
  "Path_init e f s b = Inr p \<Longrightarrow>
     ((\<exists>m. rel_path e p = Inl (ValueError m)) \<longleftrightarrow> ptype p = Absolute) \<and>
     (ptype p = User \<longrightarrow>
        (\<exists>r. rel_path e p = Inr r \<and> relpath (getcwd e) (path p) (expanduser e ''~/'') = Inr r)) \<and>
     (ptype p = Relative \<longrightarrow>
        (\<exists>r d. b = Some d \<and> rel_path e p = Inr r \<and> relpath (getcwd e) (path p) d = Inr r))"
proof -
  assume init: "Path_init e f s b = Inr p"
  then have ne: "path p \<noteq> []" by (rule Path_init_path_nonempty)
  from ne obtain r where r: "\<And>start. \<exists>r. relpath (getcwd e) (path p) start = Inr r"
    using relpath_Inr by blast
  show ?thesis
  proof (cases "ptype p")
    case Absolute
    then show ?thesis by (simp add: rel_path_def)
  next
    case User
    with init have b: "basedir p = Some (expanduser e ''~/'')"
      by (auto simp: Path_init_def split: if_splits sum.splits)
    from r obtain x where "relpath (getcwd e) (path p) (expanduser e ''~/'') = Inr x" by blast
    with User b show ?thesis by (simp add: rel_path_def)
  next
    case Relative
    with init obtain d where b: "b = Some d" "basedir p = Some d"
      by (auto simp: Path_init_def check_basedir_valid_def split: if_splits sum.splits option.splits)
    from r obtain x where "relpath (getcwd e) (path p) d = Inr x" by blast
    with Relative b show ?thesis by (simp add: rel_path_def)
  qed
qed

lemma split_lines_newline_last:
  "l \<in> set (split_lines c) \<Longrightarrow> CHR 0x0A \<notin> set (butlast l)"
proof (induction c arbitrary: l)
  case Nil then show ?case by simp
next
  case (Cons a c)
  show ?case
  proof (cases "a = CHR 0x0A")
    case True with Cons show ?thesis by auto
  next
    case False
    show ?thesis
    proof (cases "split_lines c")
      case Nil with False Cons.prems show ?thesis by simp
    next
      case (Cons l' ls)
      with False Cons.prems have "l = a # l' \<or> l \<in> set ls" by simp
      then show ?thesis
      proof
        assume "l = a # l'"
        moreover have "CHR 0x0A \<notin> set (butlast l')" using Cons.IH[of l'] Cons by simp
        ultimately show ?thesis using False by (cases l') auto
      next
        assume "l \<in> set ls" then show ?thesis using Cons.IH[of l] Cons by simp
      qed
    qed
  qed
qed

lemma any_startswith_iff: "any_startswith ls m = (\<exists>l\<in>set ls. prefix m l)"
  by (induction ls) (auto simp: startswith_def)

lemma prefix_line_eq:
  assumes "prefix (m @ [CHR 0x0A]) l" "CHR 0x0A \<notin> set (butlast l)"
  shows "l = m @ [CHR 0x0A]"
proof -
  from assms(1) obtain r where l: "l = m @ [CHR 0x0A] @ r" by (auto simp: prefix_def)
  show ?thesis
  proof (cases r rule: rev_cases)
    case Nil with l show ?thesis by simp
  next
    case (snoc r' x)
    with l have "butlast l = m @ [CHR 0x0A] @ r'" by (simp add: butlast_append)
    with assms(2) show ?thesis by simp
  qed
qed

lemma generated_marker_line:
  "any_startswith (split_lines c) generated_by_us_string = (generated_by_us_string \<in> set (split_lines c))"
proof -
  have m: "generated_by_us_string = ''# Generated by arduino-genmakefile'' @ [CHR 0x0A]"
    by (simp add: generated_by_us_string_def)
  show ?thesis
    unfolding any_startswith_iff
  proof
    assume "\<exists>l\<in>set (split_lines c). prefix generated_by_us_string l"
    then obtain l where l: "l \<in> set (split_lines c)" "prefix generated_by_us_string l" by blast
    from l(2) split_lines_newline_last[OF l(1)] have "l = generated_by_us_string"
      unfolding m by (rule prefix_line_eq)
    with l(1) show "generated_by_us_string \<in> set (split_lines c)" by simp
  next
    assume "generated_by_us_string \<in> set (split_lines c)"
    then show "\<exists>l\<in>set (split_lines c). prefix generated_by_us_string l" by auto
  qed
qed

lemma readlines_marker_line:
  "any_startswith (readlines c) generated_by_us_string = (generated_by_us_string \<in> set (readlines c))"
  by (simp add: readlines_def generated_marker_line)

lemma byte_in_ascii [simp]: "byte_in c 0 0x7F = (\<not> digit7 c)"
  by (cases c) (auto simp: byte_in_def)

lemma ascii_valid: "list_all (\<lambda>c. \<not> digit7 c) s \<Longrightarrow> utf8_valid s"
proof (induction s)
  case Nil
  then show ?case by simp
next
  case (Cons a s)
  then have "byte_in a 0 0x7F" "utf8_valid s" by (simp_all add: byte_in_ascii)
  then show ?case by simp
qed

text \<open>
  Claim C4, as the code has it. \<^verbatim>\<open>safely_remove_or_exit\<close> does nothing when the target
  does not exist, and fails, leaving the files as they are, when the target is not a
  regular file. It reads a regular file: when its bytes are not UTF-8 it raises
  \<^verbatim>\<open>UnicodeDecodeError\<close> and the files are as they were. Otherwise it fails, leaving the
  files as they are, when the file is not empty and no line of it is the marker line, and
  it removes the target when the file is empty or some line is the marker line. The
  marker line may be any line of the file, not only the first, and a line ends at a line
  feed, at a carriage return, or at a carriage return followed by a line feed.
\<close>

theorem safely_remove_or_exit_cases:
  "safely_remove_or_exit p w =
     (case files w (path p) of
        None \<Rightarrow> (Inr (), w)
      | Some (File c) \<Rightarrow>
          if \<not> utf8_valid c then (Inl (UnicodeDecodeError ''utf-8''), w)
          else if c = [] \<or> generated_by_us_string \<in> set (readlines c)
          then (Inr (), w\<lparr>files := (files w)(path p := None)\<rparr>)
          else (Inl (Exception (path p @ '' cannot be safely removed (not empty, not generated by us), please remove it manually'')), w)
      | Some _ \<Rightarrow>
          (Inl (Exception (path p @ '' cannot be safely removed (not a file), please remove it manually'')), w))"
  by (auto simp: safely_remove_or_exit_def exists_Path_def os_exists_def isfile_def os_isfile_def
        generated_by_us_def read_lines_def isemptyfile_def getsize_def readlines_marker_line
      split: option.splits node.splits)

theorem safely_remove_or_exit_cases_witness:
  "safely_remove_or_exit (ex_abs ''/w/notes'') (ex_world ex_script_files)
     = (Inl (Exception ''/w/notes cannot be safely removed (not empty, not generated by us), please remove it manually''),
        ex_world ex_script_files) \<and>
   safely_remove_or_exit (ex_abs ''/w'') (ex_world ex_script_files)
     = (Inl (Exception ''/w cannot be safely removed (not a file), please remove it manually''),
        ex_world ex_script_files) \<and>
   safely_remove_or_exit (ex_abs ''/w/none'') (ex_world ex_script_files)
     = (Inr (), ex_world ex_script_files) \<and>
   safely_remove_or_exit (ex_abs ''/w/mac'') (ex_world ex_script_files)
     = (Inr (), (ex_world ex_script_files)\<lparr>files := ex_script_files(''/w/mac'' := None)\<rparr>)"
  using safely_remove_or_exit_cases [of "ex_abs ''/w/notes''" "ex_world ex_script_files"]
        safely_remove_or_exit_cases [of "ex_abs ''/w''" "ex_world ex_script_files"]
        safely_remove_or_exit_cases [of "ex_abs ''/w/none''" "ex_world ex_script_files"]
        safely_remove_or_exit_cases [of "ex_abs ''/w/mac''" "ex_world ex_script_files"]
  by (simp add: ex_world_def ex_script_files_def ex_abs_def generated_by_us_string_def readlines_def)

text \<open>
  A helper script of an earlier run, whose first line is \<^verbatim>\<open>#!/bin/sh\<close> and whose second
  line is the marker line, is removed. A file whose first line is the marker line and
  which holds a byte that is not UTF-8 is not removed: reading it raises
  \<^verbatim>\<open>UnicodeDecodeError\<close>.
\<close>

theorem safely_remove_first_line_counterexample:
  "files (ex_world ex_script_files) ''/w/proj''
     = Some (File ''#!/bin/sh\<newline># Generated by arduino-genmakefile\<newline>make -f Makefile run\<newline>'') \<and>
   safely_remove_or_exit (ex_abs ''/w/proj'') (ex_world ex_script_files)
     = (Inr (), (ex_world ex_script_files)\<lparr>files := ex_script_files(''/w/proj'' := None)\<rparr>) \<and>
   files (ex_world ex_script_files) ''/w/latin1''
     = Some (File (''# Generated by arduino-genmakefile\<newline># caf'' @ [CHR 0xE9, CHR 0x0A])) \<and>
   safely_remove_or_exit (ex_abs ''/w/latin1'') (ex_world ex_script_files)
     = (Inl (UnicodeDecodeError ''utf-8''), ex_world ex_script_files)"
proof -
  have n: "\<not> utf8_valid (''# Generated by arduino-genmakefile\<newline># caf'' @ [CHR 0xE9, CHR 0x0A])"
    by code_simp
  have f: "ex_script_files ''/w/latin1''
     = Some (File (''# Generated by arduino-genmakefile\<newline># caf'' @ [CHR 0xE9, CHR 0x0A]))"
    by (simp add: ex_script_files_def)
  have a: "safely_remove_or_exit (ex_abs ''/w/latin1'') (ex_world ex_script_files)
     = (Inl (UnicodeDecodeError ''utf-8''), ex_world ex_script_files)"
    using n f
    by (simp only: safely_remove_or_exit_def ex_world_def ex_abs_def exists_Path_def os_exists_def
        isfile_def os_isfile_def generated_by_us_def read_lines_def) simp
  have b: "safely_remove_or_exit (ex_abs ''/w/proj'') (ex_world ex_script_files)
     = (Inr (), (ex_world ex_script_files)\<lparr>files := ex_script_files(''/w/proj'' := None)\<rparr>)"
    by (simp add: safely_remove_or_exit_def ex_world_def ex_script_files_def ex_abs_def
        exists_Path_def os_exists_def isfile_def os_isfile_def generated_by_us_def read_lines_def
        readlines_def startswith_def generated_by_us_string_def isemptyfile_def getsize_def)
  from a b f show ?thesis by (simp add: ex_world_def ex_script_files_def)
qed

theorem rel_path_value_error_iff_witness:
  "Path_init ex_env ex_script_files ''lib'' (Some ''/w'')
     = Inr \<lparr>ptype = Relative, basedir = Some ''/w'', path = ''/w/lib''\<rparr> \<and>
   rel_path ex_env \<lparr>ptype = Relative, basedir = Some ''/w'', path = ''/w/lib''\<rparr> = Inr ''lib''"
proof -
  have init: "Path_init ex_env ex_script_files ''lib'' (Some ''/w'')
     = Inr \<lparr>ptype = Relative, basedir = Some ''/w'', path = ''/w/lib''\<rparr>"
    by (simp add: Path_init_def ex_env_def ex_script_files_def startswith_def isabs_def
        check_basedir_valid_def os_exists_def os_isdir_def realpath_def abspath_def normpath_def
        join_def endswith_def suffix_to_prefix joinrealpath_nolinks_def Let_def)
  have "relpath ''/w'' ''/w/lib'' ''/w'' = Inr ''lib''"
    by (simp add: relpath_def abspath_def normpath_def isabs_def startswith_def Let_def)
  with rel_path_value_error_iff [OF init] init show ?thesis
    by (simp add: ex_env_def)
qed

subsection \<open>Resolving and relativizing\<close>

text \<open>
  Splitting and joining on the separator.
\<close>

lemma str_split_nonempty: "str_split sep s \<noteq> []"
  by (induction s) (auto split: list.splits)

lemma str_split_append: "str_split sep (a @ sep # b) = str_split sep a @ str_split sep b"
proof (induction a)
  case Nil
  then show ?case by simp
next
  case (Cons c a)
  then show ?case using str_split_nonempty[of sep a] str_split_nonempty[of sep "a @ sep # b"]
    by (cases "str_split sep a") (auto split: list.splits)
qed

lemma str_split_no_sep: "sep \<notin> set c \<Longrightarrow> str_split sep c = [c]"
  by (induction c) auto

lemma str_split_comps: "c \<in> set (str_split sep s) \<Longrightarrow> sep \<notin> set c"
proof (induction s arbitrary: c)
  case Nil
  then show ?case by simp
next
  case (Cons a s)
  then show ?case using str_split_nonempty[of sep s]
    by (cases "str_split sep s") (auto split: if_splits)
qed

lemma str_join_Cons: "ys \<noteq> [] \<Longrightarrow> str_join sep (x # ys) = x @ sep @ str_join sep ys"
  by (cases ys) simp_all

lemma str_join_snoc: "xs \<noteq> [] \<Longrightarrow> str_join sep (xs @ [x]) = str_join sep xs @ sep @ x"
proof (induction xs)
  case Nil
  then show ?case by simp
next
  case (Cons a xs)
  then show ?case by (cases "xs = []") (simp_all add: str_join_Cons)
qed

lemma str_split_join:
  "cs \<noteq> [] \<Longrightarrow> \<forall>c\<in>set cs. sep \<notin> set c \<Longrightarrow> str_split sep (str_join [sep] cs) = cs"
proof (induction cs)
  case Nil
  then show ?case by simp
next
  case (Cons x cs)
  show ?case
  proof (cases "cs = []")
    case True
    with Cons.prems show ?thesis by (simp add: str_split_no_sep)
  next
    case False
    with Cons have "str_split sep (str_join [sep] cs) = cs" by simp
    with False Cons.prems show ?thesis
      by (simp add: str_join_Cons str_split_append str_split_no_sep)
  qed
qed

lemma plain_no_sep: "plain c \<Longrightarrow> CHR ''/'' \<notin> set c"
  by (simp add: plain_def)

lemma walk_append: "walk st (a @ b) = walk (walk st a) b"
  by (induction a arbitrary: st) auto

lemma plain_butlast: "list_all plain st \<Longrightarrow> list_all plain (butlast st)"
  by (auto simp: list_all_iff dest: in_set_butlastD)

lemma walk_plain:
  "list_all plain st \<Longrightarrow> \<forall>c\<in>set cs. CHR ''/'' \<notin> set c \<Longrightarrow> list_all plain (walk st cs)"
proof (induction cs arbitrary: st)
  case Nil
  then show ?case by simp
next
  case (Cons c cs)
  have r: "\<forall>c\<in>set cs. CHR ''/'' \<notin> set c" using Cons.prems(2) by simp
  show ?case
  proof (cases "c = [] \<or> c = ''.''")
    case True
    with Cons.IH[OF Cons.prems(1) r] show ?thesis by auto
  next
    case False
    show ?thesis
    proof (cases "c = ''..''")
      case True
      with Cons.IH[OF plain_butlast[OF Cons.prems(1)] r] show ?thesis by simp
    next
      case nd: False
      have "plain c" using Cons.prems False nd by (simp add: plain_def)
      with Cons.prems have "list_all plain (st @ [c])" by simp
      from Cons.IH[OF this r] False nd show ?thesis by simp
    qed
  qed
qed

lemma walk_plain_push: "list_all plain cs \<Longrightarrow> walk st cs = st @ cs"
  by (induction cs arbitrary: st) (auto simp: plain_def)

lemma walk_dotdots: "walk st (replicate k ''..'' @ cs) = walk (take (length st - k) st) cs"
proof (induction k arbitrary: st)
  case 0
  then show ?case by simp
next
  case (Suc k)
  have "take (length (butlast st) - k) (butlast st) = take (length st - Suc k) st"
    by (simp add: butlast_conv_take min_def)
  with Suc[of "butlast st"] show ?case by simp
qed

lemma norm_comps_walk:
  "sl \<noteq> 0 \<Longrightarrow> list_all plain st \<Longrightarrow> \<forall>c\<in>set cs. CHR ''/'' \<notin> set c
     \<Longrightarrow> norm_comps sl st cs = walk st cs"
proof (induction cs arbitrary: st)
  case Nil
  then show ?case by simp
next
  case (Cons c cs)
  have r: "\<forall>c\<in>set cs. CHR ''/'' \<notin> set c" using Cons.prems(3) by simp
  have l: "st \<noteq> [] \<Longrightarrow> last st \<noteq> ''..''" using Cons.prems(2)
    by (auto simp: list_all_iff plain_def dest: last_in_set)
  show ?case
  proof (cases "c = [] \<or> c = ''.''")
    case True
    with Cons.IH[OF Cons.prems(1,2) r] show ?thesis by auto
  next
    case False
    show ?thesis
    proof (cases "c = ''..''")
      case True
      with Cons.prems(1) l Cons.IH[OF Cons.prems(1) plain_butlast[OF Cons.prems(2)] r]
        Cons.IH[OF Cons.prems(1,2) r] show ?thesis
        by (cases "st = []") auto
    next
      case nd: False
      have "plain c" using Cons.prems False nd by (simp add: plain_def)
      with Cons.prems have "list_all plain (st @ [c])" by simp
      from Cons.IH[OF Cons.prems(1) this r] False nd show ?thesis by simp
    qed
  qed
qed

lemma str_join_last:
  "st \<noteq> [] \<Longrightarrow> \<forall>c\<in>set st. c \<noteq> [] \<and> CHR ''/'' \<notin> set c
     \<Longrightarrow> str_join ''/'' st \<noteq> [] \<and> last (str_join ''/'' st) \<noteq> CHR ''/''
         \<and> hd (str_join ''/'' st) = hd (hd st)"
proof (induction st)
  case Nil
  then show ?case by simp
next
  case (Cons a st)
  show ?case
  proof (cases "st = []")
    case True
    with Cons.prems show ?thesis by (metis hd_conv_nth last_in_set list.sel(1) list.set_intros(1) str_join.simps(2))
  next
    case False
    with Cons show ?thesis by (auto simp: str_join_Cons)
  qed
qed

lemma render_snoc:
  "\<forall>c\<in>set st. c \<noteq> [] \<and> CHR ''/'' \<notin> set c
     \<Longrightarrow> render (st @ [x]) = (if st = [] then [] else render st) @ CHR ''/'' # x"
  by (simp add: render_def str_join_snoc)

lemma basename_snoc: "CHR ''/'' \<notin> set x \<Longrightarrow> basename (pre @ CHR ''/'' # x) = x"
proof -
  assume a: "CHR ''/'' \<notin> set x"
  have "takeWhile (\<lambda>c. c \<noteq> CHR ''/'') (rev x @ CHR ''/'' # rev pre) = rev x"
    using a by (auto simp: takeWhile_tail)
  then show ?thesis by (simp add: basename_def)
qed

lemma dirname_head:
  "CHR ''/'' \<notin> set x \<Longrightarrow>
     rev (dropWhile (\<lambda>c. c \<noteq> CHR ''/'') (rev (pre @ CHR ''/'' # x))) = pre @ ''/''"
proof -
  assume a: "CHR ''/'' \<notin> set x"
  have "dropWhile (\<lambda>c. c \<noteq> CHR ''/'') (rev x @ CHR ''/'' # rev pre) = CHR ''/'' # rev pre"
    using a by (simp add: dropWhile_append)
  then show ?thesis by simp
qed

lemma dirname_root: "CHR ''/'' \<notin> set x \<Longrightarrow> dirname (CHR ''/'' # x) = ''/''"
  using dirname_head[of x "[]"] by (simp add: dirname_def Let_def)

lemma dirname_snoc:
  "CHR ''/'' \<notin> set x \<Longrightarrow> pre \<noteq> [] \<Longrightarrow> last pre \<noteq> CHR ''/''
     \<Longrightarrow> dirname (pre @ CHR ''/'' # x) = pre"
proof -
  assume a: "CHR ''/'' \<notin> set x" and b: "pre \<noteq> []" and c: "last pre \<noteq> CHR ''/''"
  have h: "rev (dropWhile (\<lambda>c. c \<noteq> CHR ''/'') (rev (pre @ CHR ''/'' # x))) = pre @ ''/''"
    using dirname_head[OF a] .
  have n: "pre @ ''/'' \<noteq> replicate (length (pre @ ''/'')) CHR ''/''"
  proof
    assume "pre @ ''/'' = replicate (length (pre @ ''/'')) CHR ''/''"
    then have "set (pre @ ''/'') \<subseteq> {CHR ''/''}" by (metis set_replicate_conv_if empty_subsetI subset_refl)
    with b c show False using last_in_set[of pre] by (auto simp del: last_in_set)
  qed
  have r: "rstrip CHR ''/'' (pre @ ''/'') = pre"
  proof -
    have "dropWhile (\<lambda>c. c = CHR ''/'') (rev pre) = rev pre"
      using b c by (cases "rev pre") (auto simp: last_rev hd_rev[symmetric])
    then show ?thesis by (simp add: rstrip_def)
  qed
  show ?thesis unfolding dirname_def Let_def h using n r by simp
qed

lemma seg_of_plain: "list_all plain st \<Longrightarrow> \<forall>c\<in>set st. c \<noteq> [] \<and> CHR ''/'' \<notin> set c"
  by (auto simp: list_all_iff plain_def)

lemma render_last: "st \<noteq> [] \<Longrightarrow> list_all plain st \<Longrightarrow> last (render st) \<noteq> CHR ''/''"
  using str_join_last[of st] seg_of_plain[of st] by (simp add: render_def)

lemma render_split:
  assumes "st \<noteq> []" "list_all plain st"
  shows "render st = (if butlast st = [] then [] else render (butlast st)) @ CHR ''/'' # last st"
proof -
  have "\<forall>c\<in>set (butlast st). c \<noteq> [] \<and> CHR ''/'' \<notin> set c"
    using seg_of_plain[OF plain_butlast[OF assms(2)]] .
  from render_snoc[OF this, of "last st"] assms(1) show ?thesis by simp
qed

lemma join_render:
  assumes "list_all plain st" "c \<noteq> []" "CHR ''/'' \<notin> set c"
  shows "join (render st) c = render (st @ [c])"
proof (cases "st = []")
  case True
  with assms show ?thesis
    by (cases c) (auto simp: join_def render_def startswith_def endswith_def)
next
  case False
  have a: "\<not> startswith c ''/''" using assms(2,3) by (cases c) (auto simp: startswith_def)
  have b: "\<not> endswith (render st) ''/''"
  proof
    assume "endswith (render st) ''/''"
    then obtain zs where "render st = zs @ ''/''" by (auto simp: endswith_def suffix_def)
    then have "last (render st) = CHR ''/''" by simp
    with render_last[OF False assms(1)] show False by simp
  qed
  have c: "render st \<noteq> []" by (simp add: render_def)
  from render_snoc[OF seg_of_plain[OF assms(1)], of c] False a b c show ?thesis
    by (simp add: join_def)
qed

lemma basename_render:
  assumes "st \<noteq> []" "list_all plain st"
  shows "basename (render st) = last st"
proof -
  have "CHR ''/'' \<notin> set (last st)"
    using assms seg_of_plain[OF assms(2)] last_in_set[OF assms(1)] by blast
  from basename_snoc[OF this] render_split[OF assms] show ?thesis by simp
qed

lemma dirname_render:
  assumes "list_all plain st"
  shows "dirname (render st) = render (butlast st)"
proof (cases "st = []")
  case True
  then show ?thesis using dirname_root[of "[]"] by (simp add: render_def)
next
  case False
  have l: "CHR ''/'' \<notin> set (last st)"
    using seg_of_plain[OF assms] last_in_set[OF False] by blast
  show ?thesis
  proof (cases "butlast st = []")
    case True
    with render_split[OF False assms] dirname_root[OF l] show ?thesis
      by (simp add: render_def)
  next
    case bl: False
    have "render (butlast st) \<noteq> []" by (simp add: render_def)
    from dirname_snoc[OF l this render_last[OF bl plain_butlast[OF assms]]]
      render_split[OF False assms] bl show ?thesis by simp
  qed
qed

lemma joinrealpath_loop_walk:
  "list_all plain st \<Longrightarrow> \<forall>c\<in>set cs. CHR ''/'' \<notin> set c
     \<Longrightarrow> joinrealpath_loop (render st) cs = render (walk st cs)"
proof (induction cs arbitrary: st)
  case Nil
  then show ?case by simp
next
  case (Cons c cs)
  have r: "\<forall>c\<in>set cs. CHR ''/'' \<notin> set c" using Cons.prems(2) by simp
  have ne: "render st \<noteq> []" by (simp add: render_def)
  show ?case
  proof (cases "c = [] \<or> c = ''.''")
    case True
    with Cons.IH[OF Cons.prems(1) r] show ?thesis by auto
  next
    case False
    show ?thesis
    proof (cases "c = ''..''")
      case True
      have b: "basename (render st) \<noteq> ''..''"
      proof (cases "st = []")
        case True
        then show ?thesis by (simp add: render_def basename_def)
      next
        case ne: False
        have "plain (last st)" using Cons.prems(1) last_in_set[OF ne] by (auto simp: list_all_iff)
        with basename_render[OF ne Cons.prems(1)] show ?thesis by (simp add: plain_def)
      qed
      from True b ne dirname_render[OF Cons.prems(1)]
        Cons.IH[OF plain_butlast[OF Cons.prems(1)] r] show ?thesis by simp
    next
      case nd: False
      have pc: "plain c" using Cons.prems False nd by (simp add: plain_def)
      with Cons.prems have "list_all plain (st @ [c])" by simp
      from Cons.IH[OF this r] False nd join_render[OF Cons.prems(1), of c] pc
      show ?thesis by (simp add: plain_def)
    qed
  qed
qed

lemma split_leading: "str_split CHR ''/'' (CHR ''/'' # s) = [] # str_split CHR ''/'' s"
  by simp

lemma split_str_join:
  "list_all plain sp \<Longrightarrow> filter (\<lambda>x. x \<noteq> []) (str_split CHR ''/'' (str_join ''/'' sp)) = sp"
proof (cases "sp = []")
  case True
  then show ?thesis by simp
next
  case False
  assume a: "list_all plain sp"
  have "str_split CHR ''/'' (str_join ''/'' sp) = sp"
    using str_split_join[OF False, of "CHR ''/''"] seg_of_plain[OF a] by simp
  moreover have "filter (\<lambda>x. x \<noteq> []) sp = sp"
    using seg_of_plain[OF a] by (simp add: filter_id_conv)
  ultimately show ?thesis by simp
qed

lemma split_slashes:
  "list_all plain sp \<Longrightarrow>
     filter (\<lambda>x. x \<noteq> []) (str_split CHR ''/'' (replicate sl CHR ''/'' @ str_join ''/'' sp)) = sp"
  by (induction sl) (simp_all add: split_str_join)

lemma walk_split_render:
  "list_all plain sp \<Longrightarrow> walk st (str_split CHR ''/'' (render sp)) = st @ sp"
proof (cases "sp = []")
  case True
  then show ?thesis by (simp add: render_def)
next
  case False
  assume a: "list_all plain sp"
  have "str_split CHR ''/'' (str_join ''/'' sp) = sp"
    using str_split_join[OF False, of "CHR ''/''"] seg_of_plain[OF a] by simp
  then show ?thesis using walk_plain_push[OF a, of st] by (simp add: render_def)
qed

lemma render_single_slash: "list_all plain sp \<Longrightarrow> \<not> startswith (render sp) ''//''"
proof (cases "sp = []")
  case True
  then show ?thesis by (simp add: render_def startswith_def)
next
  case False
  assume a: "list_all plain sp"
  have "hd sp \<in> set sp" using False by simp
  with seg_of_plain[OF a] have h: "hd sp \<noteq> [] \<and> CHR ''/'' \<notin> set (hd sp)" by blast
  then have "hd (hd sp) \<noteq> CHR ''/''" by (cases "hd sp") auto
  with str_join_last[OF False seg_of_plain[OF a]] show ?thesis
    by (cases "str_join ''/'' sp") (auto simp: render_def startswith_def)
qed

lemma split_comps_plain: "\<forall>c\<in>set (str_split CHR ''/'' y). CHR ''/'' \<notin> set c"
  using str_split_comps by blast

lemma normpath_abs:
  assumes "isabs y"
  shows "\<exists>sl. normpath y = replicate sl CHR ''/'' @ str_join ''/'' (walk [] (str_split CHR ''/'' y))
            \<and> (sl = 1 \<or> sl = 2)"
proof -
  have ne: "y \<noteq> []" using assms by (auto simp: isabs_def startswith_def)
  have s: "startswith y ''/''" using assms by (simp add: isabs_def)
  have w: "\<And>sl. sl \<noteq> 0 \<Longrightarrow> norm_comps sl [] (str_split CHR ''/'' y) = walk [] (str_split CHR ''/'' y)"
    using norm_comps_walk[OF _ _ split_comps_plain, of _ "[]"] by simp
  show ?thesis
  proof (cases "startswith y ''//'' \<and> \<not> startswith y ''///''")
    case True
    then have "normpath y = replicate 2 CHR ''/'' @ str_join ''/'' (walk [] (str_split CHR ''/'' y))"
      using ne w[of 2] by (simp add: normpath_def Let_def del: str_split.simps)
    then show ?thesis by blast
  next
    case False
    then have "normpath y = replicate 1 CHR ''/'' @ str_join ''/'' (walk [] (str_split CHR ''/'' y))"
      using ne s w[of 1] by (auto simp: normpath_def Let_def simp del: str_split.simps)
    then show ?thesis by blast
  qed
qed

lemma normpath_abs_render:
  assumes "isabs y" "\<not> startswith (normpath y) ''//''"
  shows "normpath y = render (walk [] (str_split CHR ''/'' y))"
proof -
  from normpath_abs[OF assms(1)] obtain sl where
    n: "normpath y = replicate sl CHR ''/'' @ str_join ''/'' (walk [] (str_split CHR ''/'' y))"
    and sl: "sl = 1 \<or> sl = 2" by blast
  have "sl \<noteq> 2" using assms(2) n by (auto simp: startswith_def numeral_2_eq_2)
  with sl n show ?thesis by (simp add: render_def)
qed

lemma normpath_render:
  assumes "list_all plain sp"
  shows "normpath (render sp) = render sp"
proof -
  have a: "isabs (render sp)" by (simp add: isabs_def startswith_def render_def)
  from normpath_abs[OF a] obtain sl where
    n: "normpath (render sp) = replicate sl CHR ''/'' @ str_join ''/'' (walk [] (str_split CHR ''/'' (render sp)))"
    and sl: "sl = 1 \<or> sl = 2" by blast
  have w: "walk [] (str_split CHR ''/'' (render sp)) = sp"
    using walk_split_render[OF assms, of "[]"] by simp
  have "normpath (render sp) = render sp \<or> normpath (render sp) = CHR ''/'' # render sp"
    using n sl unfolding w by (auto simp: render_def numeral_2_eq_2)
  moreover have "normpath (render sp) \<noteq> CHR ''/'' # render sp"
  proof
    assume e: "normpath (render sp) = CHR ''/'' # render sp"
    have "startswith (render sp) ''//'' \<and> \<not> startswith (render sp) ''///''"
    proof (rule ccontr)
      assume "\<not> ?thesis"
      then have "normpath (render sp) =
          replicate 1 CHR ''/'' @ str_join ''/'' (norm_comps 1 [] (str_split CHR ''/'' (render sp)))"
        using a by (auto simp: normpath_def Let_def isabs_def render_def simp del: str_split.simps)
      with norm_comps_walk[OF _ _ split_comps_plain, of 1 "[]" "render sp"] w e
      show False by (simp add: render_def)
    qed
    with render_single_slash[OF assms] show False by simp
  qed
  ultimately show ?thesis by simp
qed

lemma foldl_join:
  "xs \<noteq> [] \<Longrightarrow> \<forall>c\<in>set (xs @ cs). c \<noteq> [] \<and> CHR ''/'' \<notin> set c
     \<Longrightarrow> foldl join (str_join ''/'' xs) cs = str_join ''/'' (xs @ cs)"
proof (induction cs arbitrary: xs)
  case Nil
  then show ?case by simp
next
  case (Cons c cs)
  have x: "\<forall>c\<in>set xs. c \<noteq> [] \<and> CHR ''/'' \<notin> set c" using Cons.prems(2) by simp
  have c: "c \<noteq> [] \<and> CHR ''/'' \<notin> set c" using Cons.prems(2) by simp
  have a: "\<not> startswith c ''/''" using c by (cases c) (auto simp: startswith_def)
  have b: "\<not> endswith (str_join ''/'' xs) ''/''"
  proof
    assume "endswith (str_join ''/'' xs) ''/''"
    then obtain zs where "str_join ''/'' xs = zs @ ''/''" by (auto simp: endswith_def suffix_def)
    then have "last (str_join ''/'' xs) = CHR ''/''" by simp
    with str_join_last[OF Cons.prems(1) x] show False by simp
  qed
  have j: "join (str_join ''/'' xs) c = str_join ''/'' (xs @ [c])"
    using a b str_join_last[OF Cons.prems(1) x] str_join_snoc[OF Cons.prems(1), of "''/''" c]
    by (simp add: join_def)
  have "foldl join (str_join ''/'' (xs @ [c])) cs = str_join ''/'' ((xs @ [c]) @ cs)"
    using Cons.IH[of "xs @ [c]"] Cons.prems(2) by simp
  with j show ?case by simp
qed

lemma lcp_take:
  "take (length (longest_common_prefix xs ys)) xs = longest_common_prefix xs ys"
  "take (length (longest_common_prefix xs ys)) ys = longest_common_prefix xs ys"
  using longest_common_prefix_prefix1[of xs ys] longest_common_prefix_prefix2[of xs ys]
  by (metis append_eq_conv_conj prefix_def)+

lemma relpath_walk:
  assumes ab: "isabs base" and sp: "list_all plain sp"
    and r: "relpath cwd (render sp) base = Inr r"
  shows "walk (walk [] (str_split CHR ''/'' base)) (str_split CHR ''/'' r) = sp \<and> \<not> isabs r"
proof -
  define sb where "sb = walk [] (str_split CHR ''/'' base)"
  have psb: "list_all plain sb" unfolding sb_def
    using walk_plain[OF _ split_comps_plain, of "[]"] by simp
  from normpath_abs[OF ab] obtain sl where
    "normpath base = replicate sl CHR ''/'' @ str_join ''/'' sb" unfolding sb_def by blast
  then have sl: "filter (\<lambda>x. x \<noteq> []) (str_split CHR ''/'' (abspath cwd base)) = sb"
    using ab split_slashes[OF psb, of sl] by (simp add: abspath_def)
  have ar: "isabs (render sp)" by (simp add: isabs_def startswith_def render_def)
  have "filter (\<lambda>x. x \<noteq> []) (str_split CHR ''/'' (render sp)) = sp"
    using split_slashes[OF sp, of 1] by (simp add: render_def)
  then have pl: "filter (\<lambda>x. x \<noteq> []) (str_split CHR ''/'' (abspath cwd (render sp))) = sp"
    using ar normpath_render[OF sp] by (simp add: abspath_def)
  define i where "i = length (longest_common_prefix sb sp)"
  define rl where "rl = replicate (length sb - i) ''..'' @ drop i sp"
  have ne: "render sp \<noteq> []" by (simp add: render_def)
  have rv: "r = (if rl = [] then ''.'' else foldl join (hd rl) (tl rl))"
    using r ne unfolding relpath_def sl pl Let_def rl_def i_def by simp
  have il: "i \<le> length sb" unfolding i_def
    using longest_common_prefix_prefix1[of sb sp] by (simp add: prefix_length_le)
  have pd: "list_all plain (drop i sp)" using sp
    by (auto simp: list_all_iff dest: in_set_dropD)
  have "walk sb rl = walk (take i sb) (drop i sp)"
    unfolding rl_def using walk_dotdots[of sb "length sb - i" "drop i sp"] il by simp
  also have "\<dots> = take i sb @ drop i sp" using walk_plain_push[OF pd] .
  also have "\<dots> = sp" unfolding i_def using lcp_take[of sb sp]
    by (metis append_take_drop_id)
  finally have w: "walk sb rl = sp" .
  have seg: "\<forall>c\<in>set rl. c \<noteq> [] \<and> CHR ''/'' \<notin> set c"
    unfolding rl_def using seg_of_plain[OF pd] by auto
  show ?thesis
  proof (cases "rl = []")
    case True
    with rv w show ?thesis unfolding sb_def[symmetric]
      by (simp add: isabs_def startswith_def)
  next
    case False
    then have c: "rl = hd rl # tl rl" by simp
    have "foldl join (str_join ''/'' [hd rl]) (tl rl) = str_join ''/'' ([hd rl] @ tl rl)"
      using foldl_join[of "[hd rl]" "tl rl"] seg c by (metis append_Cons append_Nil list.distinct(1))
    then have rj: "r = str_join ''/'' rl" using rv False c by simp
    have s: "str_split CHR ''/'' r = rl"
      unfolding rj using str_split_join[OF False, of "CHR ''/''"] seg by simp
    have "hd rl \<in> set rl" using False by simp
    with seg have "hd rl \<noteq> [] \<and> CHR ''/'' \<notin> set (hd rl)" by blast
    then have "hd (hd rl) \<noteq> CHR ''/''" by (cases "hd rl") auto
    with str_join_last[OF False seg] have "\<not> isabs r" unfolding rj
      by (cases "str_join ''/'' rl") (auto simp: isabs_def startswith_def)
    with s w show ?thesis unfolding sb_def[symmetric] by simp
  qed
qed

lemma joinrealpath_nolinks_abs:
  assumes "isabs x"
  shows "joinrealpath_nolinks x = render (walk [] (str_split CHR ''/'' x))"
proof -
  obtain t where x: "x = CHR ''/'' # t" using assms
    by (cases x) (auto simp: isabs_def startswith_def)
  have "joinrealpath_loop (render []) (str_split CHR ''/'' t) = render (walk [] (str_split CHR ''/'' t))"
    using joinrealpath_loop_walk[OF _ split_comps_plain, of "[]" t] by simp
  then show ?thesis using assms unfolding x
    by (simp add: joinrealpath_nolinks_def render_def)
qed

lemma walk_join:
  assumes "\<not> isabs r" "base \<noteq> []"
  shows "walk st (str_split CHR ''/'' (join base r))
         = walk (walk st (str_split CHR ''/'' base)) (str_split CHR ''/'' r)"
proof (cases "endswith base ''/''")
  case True
  then obtain zs where z: "base = zs @ ''/''" by (auto simp: endswith_def suffix_def)
  have "join base r = zs @ CHR ''/'' # r" using assms True z
    by (simp add: join_def isabs_def)
  then have "str_split CHR ''/'' (join base r) = str_split CHR ''/'' zs @ str_split CHR ''/'' r"
    by (simp add: str_split_append)
  moreover have "str_split CHR ''/'' base = str_split CHR ''/'' zs @ [[]]"
    unfolding z using str_split_append[of "CHR ''/''" zs "[]"] by simp
  ultimately show ?thesis by (simp add: walk_append)
next
  case False
  have "join base r = base @ CHR ''/'' # r" using assms False
    by (simp add: join_def isabs_def)
  then show ?thesis by (simp add: str_split_append walk_append)
qed

lemma isabs_join: "isabs a \<Longrightarrow> isabs (join a b)"
  by (cases a) (auto simp: join_def isabs_def startswith_def)

lemma realpath_render:
  assumes "isabs (getcwd e)" "\<not> startswith (realpath e x) ''//''"
  shows "\<exists>sp. list_all plain sp \<and> realpath e x = render sp"
proof -
  define y where "y = (if isabs (resolve_links e x) then resolve_links e x
                       else join (getcwd e) (resolve_links e x))"
  have a: "isabs y" unfolding y_def using isabs_join[OF assms(1)] by simp
  have r: "realpath e x = normpath y" by (simp add: realpath_def abspath_def y_def)
  from normpath_abs_render[OF a] assms(2) r
  have "realpath e x = render (walk [] (str_split CHR ''/'' y))" by simp
  moreover have "list_all plain (walk [] (str_split CHR ''/'' y))"
    using walk_plain[OF _ split_comps_plain, of "[]"] by simp
  ultimately show ?thesis by blast
qed

lemma Path_init_realpath: "Path_init e f p b = Inr q \<Longrightarrow> \<exists>x. path q = realpath e x"
  by (auto simp: Path_init_def split: if_splits sum.splits)

lemma check_basedir_valid_isabs: "check_basedir_valid f (Some b) = Inr v \<Longrightarrow> isabs b"
  by (auto simp: check_basedir_valid_def split: if_splits)

text \<open>
  What \<^verbatim>\<open>to_relative\<close> is written to do, and does in the usual case. Let the working
  directory be absolute, let \<^verbatim>\<open>Path(p, base)\<close> be built with a canonical location that
  does not begin with two slashes, and let \<^verbatim>\<open>base\<close> be a valid base directory. If the
  name of that location relative to \<^verbatim>\<open>base\<close> does not begin with \<^verbatim>\<open>~/\<close>, and resolving
  \<^verbatim>\<open>base\<close> joined with that name meets no symbolic link, then \<^verbatim>\<open>to_relative(base)\<close>
  returns a relative Path on \<^verbatim>\<open>base\<close> whose canonical location is that of the original.
\<close>

lemma to_relative_roundtrip:
  assumes cw: "isabs (getcwd e)"
    and q: "Path_init e f p (Some base) = Inr q"
    and ns: "\<not> startswith (path q) ''//''"
    and vb: "check_basedir_valid f (Some base) = Inr True"
    and rp: "relpath (getcwd e) (path q) base = Inr r"
    and nt: "\<not> startswith r ''~/''"
    and nl: "resolve_links e (join base r) = joinrealpath_nolinks (join base r)"
  shows "\<exists>q'. to_relative e f q base = Inr q' \<and> path q' = path q
              \<and> ptype q' = Relative \<and> basedir q' = Some base"
proof -
  from Path_init_realpath[OF q] obtain x where x: "path q = realpath e x" by blast
  from realpath_render[OF cw, of x] ns x obtain sp where
    sp: "list_all plain sp" and pq: "path q = render sp" by auto
  have ab: "isabs base" using check_basedir_valid_isabs[OF vb] .
  have bn: "base \<noteq> []" using ab by (auto simp: isabs_def startswith_def)
  from relpath_walk[OF ab sp, of "getcwd e" r] rp pq
  have w: "walk (walk [] (str_split CHR ''/'' base)) (str_split CHR ''/'' r) = sp"
    and na: "\<not> isabs r" by simp_all
  have aj: "isabs (join base r)" using isabs_join[OF ab] .
  have "joinrealpath_nolinks (join base r) = render sp"
    using joinrealpath_nolinks_abs[OF aj] walk_join[OF na bn, of "[]"] w by simp
  then have "realpath e (join base r) = render sp"
    using nl normpath_render[OF sp]
    by (simp add: realpath_def abspath_def isabs_def startswith_def render_def)
  then have "to_relative e f q base
      = Inr \<lparr>ptype = Relative, basedir = Some base, path = path q\<rparr>"
    using vb rp nt na pq by (simp add: to_relative_def Path_init_def)
  then show ?thesis by simp
qed

lemma to_relative_roundtrip_example:
  "Path_init ex_env ex_script_files ''../v/lib'' (Some ''/w'')
     = Inr \<lparr>ptype = Relative, basedir = Some ''/w'', path = ''/v/lib''\<rparr> \<and>
   relpath ''/w'' ''/v/lib'' ''/w'' = Inr ''../v/lib'' \<and>
   (\<exists>q'. to_relative ex_env ex_script_files
            \<lparr>ptype = Relative, basedir = Some ''/w'', path = ''/v/lib''\<rparr> ''/w'' = Inr q'
         \<and> path q' = ''/v/lib'' \<and> ptype q' = Relative \<and> basedir q' = Some ''/w'')"
proof -
  have init: "Path_init ex_env ex_script_files ''../v/lib'' (Some ''/w'')
     = Inr \<lparr>ptype = Relative, basedir = Some ''/w'', path = ''/v/lib''\<rparr>"
    by (simp add: Path_init_def ex_env_def ex_script_files_def startswith_def isabs_def
        check_basedir_valid_def os_exists_def os_isdir_def realpath_def abspath_def normpath_def
        join_def endswith_def suffix_to_prefix joinrealpath_nolinks_def Let_def
        basename_def dirname_def)
  have rel: "relpath ''/w'' ''/v/lib'' ''/w'' = Inr ''../v/lib''"
    by (simp add: relpath_def abspath_def normpath_def isabs_def startswith_def Let_def
        join_def endswith_def suffix_to_prefix)
  have v: "check_basedir_valid ex_script_files (Some ''/w'') = Inr True"
    by (simp add: check_basedir_valid_def ex_script_files_def isabs_def startswith_def
        os_exists_def os_isdir_def)
  have c: "isabs (getcwd ex_env)" "getcwd ex_env = ''/w''"
    "resolve_links ex_env (join ''/w'' ''../v/lib'') = joinrealpath_nolinks (join ''/w'' ''../v/lib'')"
    by (simp_all add: ex_env_def isabs_def startswith_def)
  from to_relative_roundtrip [OF c(1) init _ v, of "''../v/lib''"] rel c(2,3) init
  show ?thesis by (simp add: startswith_def)
qed

text \<open>
  Claim C1. \<^verbatim>\<open>Path(p, base).to_relative(base)\<close> is to name the location of
  \<^verbatim>\<open>Path(p, base)\<close> again, relative to \<^verbatim>\<open>base\<close>. It does not when that location lies in a
  directory named \<^verbatim>\<open>~\<close> directly under the base: the relative name of \<^verbatim>\<open>/w/~/x\<close> on
  \<^verbatim>\<open>/w\<close> is \<^verbatim>\<open>~/x\<close>, which \<^verbatim>\<open>Path.__init__\<close> reads as a name in the home directory, so
  the Path returned is a user path at \<^verbatim>\<open>/home/u/x\<close>.
\<close>

theorem to_relative_tilde_directory:
  "Path_init ex_env ex_script_files ''./~/x'' (Some ''/w'')
     = Inr \<lparr>ptype = Relative, basedir = Some ''/w'', path = ''/w/~/x''\<rparr> \<and>
   to_relative ex_env ex_script_files
     \<lparr>ptype = Relative, basedir = Some ''/w'', path = ''/w/~/x''\<rparr> ''/w''
     = Inr \<lparr>ptype = User, basedir = Some ''/home/u/'', path = ''/home/u/x''\<rparr>"
  by (simp add: Path_init_def to_relative_def ex_env_def ex_script_files_def startswith_def
      isabs_def check_basedir_valid_def os_exists_def os_isdir_def realpath_def abspath_def
      normpath_def join_def endswith_def suffix_to_prefix joinrealpath_nolinks_def Let_def
      relpath_def expanduser_def rstrip_def basename_def dirname_def)

subsection \<open>The composer keeps the files and, when it succeeds, the stack\<close>

lemma load_yaml_files: "load_yaml e p w = (r, w') \<Longrightarrow> files w' = files w \<and> extra_config_stack w' = extra_config_stack w \<and> stdout w' = stdout w"
  by (auto simp: load_yaml_def split: option.splits node.splits)

lemma load_yaml_same:
  "files w = files v \<Longrightarrow> load_yaml e p w = (r, w') \<Longrightarrow> load_yaml e p v = (s, v') \<Longrightarrow> r = s"
  by (auto simp: load_yaml_def split: option.splits node.splits)

lemma gec_circular:
  "Path_in p (extra_config_stack w) \<Longrightarrow>
   get_extra_configs (Suc d) e p w =
     (Inl (Exception ''Aborting due to circular configuration inclusion''),
      w\<lparr>stdout := stdout w
              @ [''Circular configuration inclusion detected while parsing '' @ path p,
                 ''Inclusion stack: '']
              @ map (\<lambda>stack_item. '' - '' @ path stack_item) (extra_config_stack w)\<rparr>)"
  by simp

lemma gec_load_fail:
  "\<not> Path_in p (extra_config_stack w) \<Longrightarrow>
   load_yaml e (path p) (w\<lparr>extra_config_stack := extra_config_stack w @ [p]\<rparr>) = (Inl err, w1) \<Longrightarrow>
   get_extra_configs (Suc d) e p w = (Inl err, w1)"
  by simp

lemma gec_configs_fail:
  "\<not> Path_in p (extra_config_stack w) \<Longrightarrow>
   load_yaml e (path p) (w\<lparr>extra_config_stack := extra_config_stack w @ [p]\<rparr>) = (Inr data, w1) \<Longrightarrow>
   (case map_of data (KStr ''configs'') of None \<Rightarrow> Inr [] | Some v \<Rightarrow> iter_yaml v) = Inl err \<Longrightarrow>
   get_extra_configs (Suc d) e p w = (Inl err, w1)"
  by simp

lemma gec_loop_fail:
  "\<not> Path_in p (extra_config_stack w) \<Longrightarrow>
   load_yaml e (path p) (w\<lparr>extra_config_stack := extra_config_stack w @ [p]\<rparr>) = (Inr data, w1) \<Longrightarrow>
   (case map_of data (KStr ''configs'') of None \<Rightarrow> Inr [] | Some v \<Rightarrow> iter_yaml v) = Inr cs \<Longrightarrow>
   get_extra_configs_loop d e p cs [] w1 = (Inl err, w2) \<Longrightarrow>
   get_extra_configs (Suc d) e p w = (Inl err, w2)"
  by simp

lemma gec_loop_ok:
  "\<not> Path_in p (extra_config_stack w) \<Longrightarrow>
   load_yaml e (path p) (w\<lparr>extra_config_stack := extra_config_stack w @ [p]\<rparr>) = (Inr data, w1) \<Longrightarrow>
   (case map_of data (KStr ''configs'') of None \<Rightarrow> Inr [] | Some v \<Rightarrow> iter_yaml v) = Inr cs \<Longrightarrow>
   get_extra_configs_loop d e p cs [] w1 = (Inr ret, w2) \<Longrightarrow>
   get_extra_configs (Suc d) e p w = (Inr ret, w2\<lparr>extra_config_stack := butlast (extra_config_stack w2)\<rparr>)"
  by simp

lemma gecl_init_fail:
  "Path_init e (files w) c (Some (path (parent_dir p))) = Inl err \<Longrightarrow>
   get_extra_configs_loop d e p (c # cs) ret w = (Inl err, w)"
  by simp

lemma gecl_sub_fail:
  "Path_init e (files w) c (Some (path (parent_dir p))) = Inr cp \<Longrightarrow>
   get_extra_configs d e cp w = (Inl err, w1) \<Longrightarrow>
   get_extra_configs_loop d e p (c # cs) ret w = (Inl err, w1)"
  by simp

lemma gecl_sub_ok:
  "Path_init e (files w) c (Some (path (parent_dir p))) = Inr cp \<Longrightarrow>
   get_extra_configs d e cp w = (Inr sub, w1) \<Longrightarrow>
   get_extra_configs_loop d e p (c # cs) ret w = get_extra_configs_loop d e p cs (ret @ [cp] @ sub) w1"
  by simp

lemma get_extra_configs_frame:
  "same_input w v \<Longrightarrow> frame w v (get_extra_configs d e p w) (get_extra_configs d e p v)"
  "same_input w v \<Longrightarrow> frame w v (get_extra_configs_loop d e p cs ret w) (get_extra_configs_loop d e p cs ret v)"
proof (induction d e p w and d e p cs ret w arbitrary: v and v rule: get_extra_configs_get_extra_configs_loop.induct)
  case (1 e p w)
  then show ?case by (simp add: frame_def)
next
  case (2 depth e p w)
  note si = \<open>same_input w v\<close>
  then have st: "extra_config_stack v = extra_config_stack w" and fl: "files v = files w"
    by (simp_all add: same_input_def)
  show ?case
  proof (cases "Path_in p (extra_config_stack w)")
    case True
    then have "Path_in p (extra_config_stack v)" by (simp add: st)
    then show ?thesis using True st fl
      by (simp only: gec_circular) (simp add: frame_def same_input_def)
  next
    case False
    then have Fv: "\<not> Path_in p (extra_config_stack v)" by (simp add: st)
    obtain r1 w1 where l: "load_yaml e (path p) (w\<lparr>extra_config_stack := extra_config_stack w @ [p]\<rparr>) = (r1, w1)"
      by (cases "load_yaml e (path p) (w\<lparr>extra_config_stack := extra_config_stack w @ [p]\<rparr>)")
    obtain s1 v1 where lv: "load_yaml e (path p) (v\<lparr>extra_config_stack := extra_config_stack v @ [p]\<rparr>) = (s1, v1)"
      by (cases "load_yaml e (path p) (v\<lparr>extra_config_stack := extra_config_stack v @ [p]\<rparr>)")
    from load_yaml_files[OF l] have w1: "files w1 = files w" "extra_config_stack w1 = extra_config_stack w @ [p]" by simp_all
    from load_yaml_files[OF lv] have v1: "files v1 = files w" "extra_config_stack v1 = extra_config_stack w @ [p]" by (simp_all add: st fl)
    have rs: "s1 = r1" using load_yaml_same[OF _ l lv] fl by simp
    have si1: "same_input w1 v1" using w1 v1 by (simp add: same_input_def)
    show ?thesis
    proof (cases r1)
      case (Inl err)
      show ?thesis
        using gec_load_fail[OF False l[unfolded Inl]] gec_load_fail[OF Fv lv[unfolded rs Inl]] si1 w1
        by (simp add: frame_def)
    next
      case (Inr data)
      show ?thesis
      proof (cases "case map_of data (KStr ''configs'') of None \<Rightarrow> Inr [] | Some v \<Rightarrow> iter_yaml v")
        case (Inl err)
        show ?thesis
          using gec_configs_fail[OF False l[unfolded Inr] Inl] gec_configs_fail[OF Fv lv[unfolded rs Inr] Inl] si1 w1
          by (simp add: frame_def)
      next
        case cfgs: (Inr configs)
        obtain r2 w2 where lp: "get_extra_configs_loop depth e p configs [] w1 = (r2, w2)"
          by (cases "get_extra_configs_loop depth e p configs [] w1")
        obtain s2 v2 where lpv: "get_extra_configs_loop depth e p configs [] v1 = (s2, v2)"
          by (cases "get_extra_configs_loop depth e p configs [] v1")
        from 2(1)[OF False l[symmetric] Inr cfgs si1] lp lpv
        have fr: "s2 = r2" "same_input w2 v2" "files w2 = files w1"
          "(case r2 of Inr x \<Rightarrow> extra_config_stack w2 = extra_config_stack w1 | Inl err \<Rightarrow> True)"
          by (auto simp: frame_def split: sum.splits)
        show ?thesis
        proof (cases r2)
          case (Inl err)
          show ?thesis
            using gec_loop_fail[OF False l[unfolded Inr] cfgs lp[unfolded Inl]]
                  gec_loop_fail[OF Fv lv[unfolded rs Inr] cfgs lpv[unfolded fr(1) Inl]] fr w1
            by (simp add: frame_def)
        next
          case ok: (Inr ret)
          show ?thesis
            using gec_loop_ok[OF False l[unfolded Inr] cfgs lp[unfolded ok]]
                  gec_loop_ok[OF Fv lv[unfolded rs Inr] cfgs lpv[unfolded fr(1) ok]] fr w1 ok
            by (simp add: frame_def same_input_def)
        qed
      qed
    qed
  qed
next
  case (3 depth e p ret w)
  then show ?case by (simp add: frame_def)
next
  case (4 depth e p config configs ret w)
  note si = \<open>same_input w v\<close>
  then have st: "extra_config_stack v = extra_config_stack w" and fl: "files v = files w"
    by (simp_all add: same_input_def)
  show ?case
  proof (cases "Path_init e (files w) config (Some (path (parent_dir p)))")
    case (Inl err)
    from Inl have Iv: "Path_init e (files v) config (Some (path (parent_dir p))) = Inl err" by (simp add: fl)
    show ?thesis using gecl_init_fail[OF Inl] gecl_init_fail[OF Iv] si
      by (simp add: frame_def)
  next
    case (Inr config_path)
    from Inr have Iv: "Path_init e (files v) config (Some (path (parent_dir p))) = Inr config_path" by (simp add: fl)
    obtain r1 w1 where g: "get_extra_configs depth e config_path w = (r1, w1)"
      by (cases "get_extra_configs depth e config_path w")
    obtain s1 v1 where gv: "get_extra_configs depth e config_path v = (s1, v1)"
      by (cases "get_extra_configs depth e config_path v")
    from 4(1)[OF Inr si] g gv
    have fr: "s1 = r1" "same_input w1 v1" "files w1 = files w"
      "(case r1 of Inr x \<Rightarrow> extra_config_stack w1 = extra_config_stack w | Inl err \<Rightarrow> True)"
      by (auto simp: frame_def split: sum.splits)
    show ?thesis
    proof (cases r1)
      case (Inl err)
      show ?thesis
        using gecl_sub_fail[OF Inr g[unfolded Inl]] gecl_sub_fail[OF Iv gv[unfolded fr(1) Inl]] fr
        by (simp add: frame_def)
    next
      case sub: (Inr sub)
      from 4(2)[OF Inr g[symmetric] sub fr(2)]
      have "frame w1 v1 (get_extra_configs_loop depth e p configs (ret @ [config_path] @ sub) w1)
              (get_extra_configs_loop depth e p configs (ret @ [config_path] @ sub) v1)" .
      then show ?thesis
        using gecl_sub_ok[OF Inr g[unfolded sub]] gecl_sub_ok[OF Iv gv[unfolded fr(1) sub]] fr sub
        by (simp add: frame_def split: sum.splits)
    qed
  qed
qed

lemma same_input_refl: "same_input w w"
  by (simp add: same_input_def)

lemma frame_bind:
  assumes "frame w v (r1, w1) (s1, v1)"
    and "\<And>x. r1 = Inr x \<Longrightarrow> s1 = Inr x \<Longrightarrow> same_input w1 v1 \<Longrightarrow> frame w1 v1 (k x w1) (k x v1)"
  shows "frame w v (case (r1, w1) of (Inl err, w') \<Rightarrow> (Inl err, w') | (Inr x, w') \<Rightarrow> k x w')
                  (case (s1, v1) of (Inl err, v') \<Rightarrow> (Inl err, v') | (Inr x, v') \<Rightarrow> k x v')"
proof (cases r1)
  case (Inl err)
  with assms(1) show ?thesis by (auto simp: frame_def)
next
  case (Inr x)
  with assms(1) have s: "s1 = Inr x" and si: "same_input w1 v1" and f: "files w1 = files w"
    and st: "extra_config_stack w1 = extra_config_stack w"
    by (simp_all add: frame_def)
  from assms(2)[OF Inr s si] show ?thesis using Inr s f st
    by (auto simp: frame_def split: sum.splits)
qed

lemma frame_shift:
  "frame w1 v1 X Y \<Longrightarrow> files w1 = files w \<Longrightarrow> extra_config_stack w1 = extra_config_stack w \<Longrightarrow>
   frame w v X Y"
  by (auto simp: frame_def split: sum.splits)

lemma init_paths_frame:
  "same_input w v \<Longrightarrow> frame w v (init_paths e ps acc w) (init_paths e ps acc v)"
proof (induction ps arbitrary: acc w v)
  case Nil
  then show ?case by (simp add: frame_def)
next
  case (Cons p ps)
  obtain r1 w1 where g: "get_extra_configs (recursionlimit e) e p w = (r1, w1)"
    by (cases "get_extra_configs (recursionlimit e) e p w")
  obtain s1 v1 where gv: "get_extra_configs (recursionlimit e) e p v = (s1, v1)"
    by (cases "get_extra_configs (recursionlimit e) e p v")
  from get_extra_configs_frame(1)[OF Cons.prems, of "recursionlimit e" e p] g gv
  have fr: "frame w v (r1, w1) (s1, v1)" by simp
  have "frame w v
          (case (r1, w1) of (Inl err, w') \<Rightarrow> (Inl err, w') | (Inr sub, w') \<Rightarrow> init_paths e ps (acc @ [p] @ sub) w')
          (case (s1, v1) of (Inl err, v') \<Rightarrow> (Inl err, v') | (Inr sub, v') \<Rightarrow> init_paths e ps (acc @ [p] @ sub) v')"
    by (rule frame_bind[OF fr]) (rule Cons.IH)
  then show ?case using g gv by simp
qed

lemma merge_key_frame:
  "same_input w v \<Longrightarrow> frame w v (merge_key e p key x c w) (merge_key e p key x c v)"
  by (auto simp: merge_key_def frame_def same_input_def py_print_def split: sum.splits ykey.splits)

lemma merge_key_stack:
  "merge_key e p key x c w = (r, w') \<Longrightarrow>
     files w' = files w \<and> extra_config_stack w' = extra_config_stack w \<and> loads w' = loads w"
  by (auto simp: merge_key_def py_print_def split: sum.splits if_splits ykey.splits)

lemma merge_keys_frame:
  "same_input w v \<Longrightarrow> frame w v (merge_keys e p d c w) (merge_keys e p d c v)"
proof (induction d arbitrary: c w v)
  case Nil
  then show ?case by (simp add: frame_def)
next
  case (Cons kv d)
  obtain key x where kv: "kv = (key, x)" by (cases kv)
  obtain r1 w1 where g: "merge_key e p key x c w = (r1, w1)" by (cases "merge_key e p key x c w")
  obtain s1 v1 where gv: "merge_key e p key x c v = (s1, v1)" by (cases "merge_key e p key x c v")
  from merge_key_frame[OF Cons.prems, of e p key x c] g gv
  have fr: "frame w v (r1, w1) (s1, v1)" by simp
  have "frame w v
          (case (r1, w1) of (Inl err, w') \<Rightarrow> (Inl err, w') | (Inr c1, w') \<Rightarrow> merge_keys e p d c1 w')
          (case (s1, v1) of (Inl err, v') \<Rightarrow> (Inl err, v') | (Inr c1, v') \<Rightarrow> merge_keys e p d c1 v')"
    by (rule frame_bind[OF fr]) (rule Cons.IH)
  then show ?case using g gv kv by simp
qed

lemma merge_keys_stack:
  "merge_keys e p d c w = (r, w') \<Longrightarrow>
     files w' = files w \<and> extra_config_stack w' = extra_config_stack w \<and> loads w' = loads w"
proof (induction d arbitrary: c w)
  case Nil
  then show ?case by simp
next
  case (Cons kv d)
  obtain key x where kv: "kv = (key, x)" by (cases kv)
  obtain r1 w1 where g: "merge_key e p key x c w = (r1, w1)" by (cases "merge_key e p key x c w")
  from merge_key_stack[OF g] have k: "files w1 = files w" "extra_config_stack w1 = extra_config_stack w" "loads w1 = loads w"
    by simp_all
  show ?case
  proof (cases r1)
    case (Inl err)
    with Cons.prems g kv k show ?thesis by simp
  next
    case (Inr c1)
    with Cons.prems g kv have "merge_keys e p d c1 w1 = (r, w')" by simp
    from Cons.IH[OF this] k show ?thesis by simp
  qed
qed

lemma load_yaml_frame:
  "same_input w v \<Longrightarrow> frame w v (load_yaml e p w) (load_yaml e p v)"
  by (auto simp: load_yaml_def frame_def same_input_def split: option.splits node.splits sum.splits)

lemma frame_print:
  "frame w v (Inl err, w1) (Inl err, v1) \<Longrightarrow> frame w v (Inl err, py_print s w1) (Inl err, py_print s v1)"
  by (auto simp: frame_def same_input_def py_print_def)

lemma merge_paths_frame:
  "same_input w v \<Longrightarrow> frame w v (merge_paths e ps c w) (merge_paths e ps c v)"
proof (induction ps arbitrary: c w v)
  case Nil
  then show ?case by (simp add: frame_def)
next
  case (Cons p ps)
  obtain r1 w1 where g: "load_yaml e (path p) w = (r1, w1)" by (cases "load_yaml e (path p) w")
  obtain s1 v1 where gv: "load_yaml e (path p) v = (s1, v1)" by (cases "load_yaml e (path p) v")
  from load_yaml_frame[OF Cons.prems, of e "path p"] g gv
  have fr: "frame w v (r1, w1) (s1, v1)" by simp
  show ?case
  proof (cases r1)
    case (Inl err)
    with fr have s1: "s1 = Inl err" and fr': "frame w v (Inl err, w1) (Inl err, v1)" by (simp_all add: frame_def)
    show ?thesis using g gv Inl s1 fr' frame_print[OF fr']
      by (cases err) simp_all
  next
    case (Inr data)
    with fr have s1: "s1 = Inr data" and si: "same_input w1 v1" and f: "files w1 = files w"
      and st: "extra_config_stack w1 = extra_config_stack w" by (simp_all add: frame_def)
    obtain r2 w2 where m: "merge_keys e p data c w1 = (r2, w2)" by (cases "merge_keys e p data c w1")
    obtain s2 v2 where mv: "merge_keys e p data c v1 = (s2, v2)" by (cases "merge_keys e p data c v1")
    from merge_keys_frame[OF si, of e p data c] m mv
    have fr2: "frame w1 v1 (r2, w2) (s2, v2)" by simp
    have "frame w1 v1
          (case (r2, w2) of (Inl err, w') \<Rightarrow> (Inl err, w') | (Inr c1, w') \<Rightarrow> merge_paths e ps c1 w')
          (case (s2, v2) of (Inl err, v') \<Rightarrow> (Inl err, v') | (Inr c1, v') \<Rightarrow> merge_paths e ps c1 v')"
      by (rule frame_bind[OF fr2]) (rule Cons.IH)
    from frame_shift[OF this f st] show ?thesis using g gv Inr s1 m mv
      by simp
  qed
qed

lemma Config_init_frame:
  "same_input w v \<Longrightarrow> frame w v (Config_init e ps w) (Config_init e ps v)"
proof -
  assume si: "same_input w v"
  obtain r1 w1 where g: "init_paths e ps [] w = (r1, w1)" by (cases "init_paths e ps [] w")
  obtain s1 v1 where gv: "init_paths e ps [] v = (s1, v1)" by (cases "init_paths e ps [] v")
  from init_paths_frame[OF si, of e ps "[]"] g gv
  have fr: "frame w v (r1, w1) (s1, v1)" by simp
  show ?thesis
  proof (cases r1)
    case (Inl err)
    with fr g gv show ?thesis by (auto simp: Config_init_def frame_def)
  next
    case (Inr all_paths)
    with fr have s1: "s1 = Inr all_paths" and si1: "same_input w1 v1" and f: "files w1 = files w"
      and st: "extra_config_stack w1 = extra_config_stack w" by (simp_all add: frame_def)
    define c0 where "c0 = initial_config ps all_paths"
    obtain r2 w2 where m: "merge_paths e all_paths c0 w1 = (r2, w2)" by (cases "merge_paths e all_paths c0 w1")
    obtain s2 v2 where mv: "merge_paths e all_paths c0 v1 = (s2, v2)" by (cases "merge_paths e all_paths c0 v1")
    from merge_paths_frame[OF si1, of e all_paths c0] m mv
    have fr2: "frame w1 v1 (r2, w2) (s2, v2)" by simp
    show ?thesis
    proof (cases r2)
      case (Inl err)
      with fr2 g gv Inr s1 m mv f show ?thesis
        by (auto simp: Config_init_def frame_def c0_def)
    next
      case c: (Inr c)
      with fr2 have s2: "s2 = Inr c" and si2: "same_input w2 v2" and f2: "files w2 = files w1"
        and st2: "extra_config_stack w2 = extra_config_stack w1" by (simp_all add: frame_def)
      show ?thesis using g gv Inr s1 m mv c s2 si2 f2 st2 f st
        by (auto simp: Config_init_def frame_def c0_def same_input_def py_print_def split: sum.splits)
    qed
  qed
qed

text \<open>
  Claim C8, as the code has it. The inclusion stack is a class attribute, shared by
  every composition of the process. A composition that completes leaves the stack and
  the files as it found them, so a second composition of the same configuration returns
  the same result and leaves the stack as it was again. (A composition that fails leaves
  the paths in progress on the stack.)
\<close>

theorem composition_restores_stack:
  "Config_init e ps w = (Inr c, w') \<Longrightarrow>
     extra_config_stack w' = extra_config_stack w \<and> files w' = files w \<and>
     fst (Config_init e ps w') = Inr c \<and>
     extra_config_stack (snd (Config_init e ps w')) = extra_config_stack w"
proof -
  assume ok: "Config_init e ps w = (Inr c, w')"
  from Config_init_frame[OF same_input_refl, of w e ps] ok
  have a: "extra_config_stack w' = extra_config_stack w" "files w' = files w"
    by (simp_all add: frame_def)
  then have si: "same_input w w'" by (simp add: same_input_def)
  from Config_init_frame[OF si, of e ps] ok
  have "fst (Config_init e ps w') = Inr c" "extra_config_stack (snd (Config_init e ps w')) = extra_config_stack w"
    by (auto simp: frame_def same_input_def)
  with a show ?thesis by simp
qed

lemma ex_x_config:
  "map_sum id (\<lambda>c. (paths c, cflags c, baudrate c, fqbn c, lib_paths c))
     (fst (Config_init ex_env [ex_rel ''/w'' ''/w/x.yaml''] (ex_world ex_config_files)))
   = Inr ([ex_rel ''/w'' ''/w/x.yaml'', ex_rel ''/w'' ''/w/sub/y.yaml''],
          [''-DA'', ''-DB''], YStr ''57600'', YStr ''arduino:avr:uno'',
          [ex_rel ''/w'' ''/w/libA'', ex_rel ''/w/sub'' ''/w/sub/libB''])"
  by code_simp

theorem composition_restores_stack_witness:
  "(\<exists>c. fst (Config_init ex_env [ex_rel ''/w'' ''/w/x.yaml''] (ex_world ex_config_files)) = Inr c \<and>
        fst (Config_init ex_env [ex_rel ''/w'' ''/w/x.yaml'']
               (snd (Config_init ex_env [ex_rel ''/w'' ''/w/x.yaml''] (ex_world ex_config_files))))
          = Inr c) \<and>
   extra_config_stack (snd (Config_init ex_env [ex_rel ''/w'' ''/w/x.yaml''] (ex_world ex_config_files)))
     = []"
proof -
  obtain r w' where cw: "Config_init ex_env [ex_rel ''/w'' ''/w/x.yaml''] (ex_world ex_config_files) = (r, w')"
    by (cases "Config_init ex_env [ex_rel ''/w'' ''/w/x.yaml''] (ex_world ex_config_files)")
  with ex_x_config obtain c where r: "r = Inr c" by (cases r) simp_all
  from composition_restores_stack [OF cw[unfolded r]] cw r
  show ?thesis by (simp add: ex_world_def)
qed

theorem failed_composition_leaves_stack_counterexample:
  "fst (Config_init ex_env [ex_rel ''/w'' ''/w/m.yaml''] (ex_world ex_config_files))
     = Inl (FileNotFoundError ''/w/missing.yaml'') \<and>
   extra_config_stack (snd (Config_init ex_env [ex_rel ''/w'' ''/w/m.yaml''] (ex_world ex_config_files)))
     = [ex_rel ''/w'' ''/w/m.yaml'', ex_rel ''/w'' ''/w/missing.yaml''] \<and>
   fst (Config_init ex_env [ex_rel ''/w'' ''/w/m.yaml'']
          (snd (Config_init ex_env [ex_rel ''/w'' ''/w/m.yaml''] (ex_world ex_config_files))))
     = Inl (Exception ''Aborting due to circular configuration inclusion'')"
  by code_simp

subsection \<open>Circular inclusion\<close>




subsection \<open>Merging the layers\<close>

lemma list_from_key_loop_Inr:
  "list_from_key_loop e f xs dir = Inr ps \<Longrightarrow> map Inr ps = map (\<lambda>s. Path_init e f s (Some dir)) xs"
  by (induction xs arbitrary: ps) (auto split: sum.splits)

lemma list_from_key_Inr:
  "list_from_key e f x (path (parent_dir p)) = Inr ps \<Longrightarrow>
     map Inr ps = resolved_in e f p (items x)"
  by (auto simp: list_from_key_def resolved_in_def parent_dir_def items_def dest: list_from_key_loop_Inr split: sum.splits)

lemma merge_key_effect:
  assumes "merge_key e p key x c w = (Inr c1, w1)"
  shows "fqbn c1 = (if key = KStr ''fqbn'' then x else fqbn c)"
    and "cflags c1 = cflags c @ (if key = KStr ''cflags'' then items x else [])"
    and "debug_command c1 = (if key = KStr ''debug_command'' then x else debug_command c)"
    and "baudrate c1 = (if key = KStr ''baudrate'' then x else baudrate c)"
    and "map Inr (lib_paths c1) = map Inr (lib_paths c) @ (if key = KStr ''libs'' then resolved_in e (files w) p (items x) else [])"
    and "map Inr (qmake_dirs c1) = map Inr (qmake_dirs c) @ (if key = KStr ''qmake_dirs'' then resolved_in e (files w) p (items x) else [])"
    and "map Inr (qmake_exclude_dirs c1) = map Inr (qmake_exclude_dirs c) @ (if key = KStr ''qmake_exclude_dirs'' then resolved_in e (files w) p (items x) else [])"
    and "main_paths c1 = main_paths c" and "paths c1 = paths c"
    and "files w1 = files w"
  using assms
  by (auto simp: merge_key_def items_def py_print_def dest: list_from_key_Inr split: sum.splits if_splits ykey.splits)

lemma declared_Cons:
  "declared ((key, x) # d) k = (if key = KStr k then items x else declared d k)"
  by (simp add: declared_def)

lemma overwrite_Cons:
  "overwrite k cur ((key, x) # d) = (if key = KStr k then x else overwrite k cur d)"
  by (simp add: overwrite_def)

lemma declared_absent: "KStr k \<notin> fst ` set d \<Longrightarrow> declared d k = []"
  using map_of_eq_None_iff[of d "KStr k"] by (simp add: declared_def)

lemma overwrite_absent: "KStr k \<notin> fst ` set d \<Longrightarrow> overwrite k cur d = cur"
  using map_of_eq_None_iff[of d "KStr k"] by (simp add: overwrite_def)

lemma resolved_in_Nil: "resolved_in e f p [] = []"
  by (simp add: resolved_in_def)

lemma merge_keys_layer:
  "distinct (map fst d) \<Longrightarrow> merge_keys e p d c w = (Inr c', w') \<Longrightarrow>
     layer_merged e (files w) p d c c' \<and> files w' = files w"
proof (induction d arbitrary: c w)
  case Nil
  then show ?case
    by (simp add: layer_merged_def declared_def overwrite_def resolved_in_def)
next
  case (Cons kv d)
  obtain key x where kv: "kv = (key, x)" by (cases kv)
  obtain r1 w1 where g: "merge_key e p key x c w = (r1, w1)" by (cases "merge_key e p key x c w")
  with Cons.prems(2) kv obtain c1 where r1: "r1 = Inr c1" and rest: "merge_keys e p d c1 w1 = (Inr c', w')"
    by (cases r1) simp_all
  note eff = merge_key_effect[OF g[unfolded r1]]
  from Cons.prems(1) kv have dist: "distinct (map fst d)" and fresh: "key \<notin> fst ` set d" by simp_all
  from Cons.IH[OF dist rest] eff(10)
  have ih: "layer_merged e (files w) p d c1 c'" and fw: "files w' = files w" by simp_all
  have a: "\<And>k. key = KStr k \<Longrightarrow> declared d k = []" "\<And>k cur. key = KStr k \<Longrightarrow> overwrite k cur d = cur"
    using fresh by (simp_all add: declared_absent overwrite_absent)
  from ih have ih':
    "fqbn c' = overwrite ''fqbn'' (fqbn c1) d"
    "cflags c' = cflags c1 @ declared d ''cflags''"
    "debug_command c' = overwrite ''debug_command'' (debug_command c1) d"
    "baudrate c' = overwrite ''baudrate'' (baudrate c1) d"
    "map Inr (lib_paths c') = map Inr (lib_paths c1) @ resolved_in e (files w) p (declared d ''libs'')"
    "map Inr (qmake_dirs c') = map Inr (qmake_dirs c1) @ resolved_in e (files w) p (declared d ''qmake_dirs'')"
    "map Inr (qmake_exclude_dirs c') =
       map Inr (qmake_exclude_dirs c1) @ resolved_in e (files w) p (declared d ''qmake_exclude_dirs'')"
    "main_paths c' = main_paths c1" "paths c' = paths c1"
    by (simp_all add: layer_merged_def)
  have 1: "fqbn c' = overwrite ''fqbn'' (fqbn c) ((key, x) # d)"
    using ih'(1) eff(1) a(2)[of "''fqbn''"] by (cases "key = KStr ''fqbn''") (simp_all add: overwrite_Cons)
  have 2: "cflags c' = cflags c @ declared ((key, x) # d) ''cflags''"
    using ih'(2) eff(2) a(1)[of "''cflags''"] by (cases "key = KStr ''cflags''") (simp_all add: declared_Cons)
  have 3: "debug_command c' = overwrite ''debug_command'' (debug_command c) ((key, x) # d)"
    using ih'(3) eff(3) a(2)[of "''debug_command''"]
    by (cases "key = KStr ''debug_command''") (simp_all add: overwrite_Cons)
  have 4: "baudrate c' = overwrite ''baudrate'' (baudrate c) ((key, x) # d)"
    using ih'(4) eff(4) a(2)[of "''baudrate''"]
    by (cases "key = KStr ''baudrate''") (simp_all add: overwrite_Cons)
  have 5: "map Inr (lib_paths c') =
      map Inr (lib_paths c) @ resolved_in e (files w) p (declared ((key, x) # d) ''libs'')"
    using ih'(5) eff(5) a(1)[of "''libs''"]
    by (cases "key = KStr ''libs''") (simp_all add: declared_Cons resolved_in_Nil)
  have 6: "map Inr (qmake_dirs c') =
      map Inr (qmake_dirs c) @ resolved_in e (files w) p (declared ((key, x) # d) ''qmake_dirs'')"
    using ih'(6) eff(6) a(1)[of "''qmake_dirs''"]
    by (cases "key = KStr ''qmake_dirs''") (simp_all add: declared_Cons resolved_in_Nil)
  have 7: "map Inr (qmake_exclude_dirs c') =
      map Inr (qmake_exclude_dirs c)
        @ resolved_in e (files w) p (declared ((key, x) # d) ''qmake_exclude_dirs'')"
    using ih'(7) eff(7) a(1)[of "''qmake_exclude_dirs''"]
    by (cases "key = KStr ''qmake_exclude_dirs''") (simp_all add: declared_Cons resolved_in_Nil)
  have "layer_merged e (files w) p ((key, x) # d) c c'"
    unfolding layer_merged_def using 1 2 3 4 5 6 7 ih'(8,9) eff(8,9) by simp
  with fw kv show ?case by simp
qed

lemma load_yaml_doc_of:
  "load_yaml e (path p) w = (Inr data, w1) \<Longrightarrow> data = doc_of e (files w) p \<and> files w1 = files w"
  by (auto simp: load_yaml_def doc_of_def split: option.splits node.splits)

lemma merge_paths_layers:
  "list_all (\<lambda>p. distinct (map fst (doc_of e (files w) p))) ps \<Longrightarrow>
   merge_paths e ps c w = (Inr c', w') \<Longrightarrow>
     layers_merged e (files w) ps c c' \<and> files w' = files w"
proof (induction ps arbitrary: c w)
  case Nil
  then show ?case by (simp add: layers_merged_def last_value_def)
next
  case (Cons p ps)
  obtain r1 w1 where l: "load_yaml e (path p) w = (r1, w1)" by (cases "load_yaml e (path p) w")
  with Cons.prems(2) obtain data where r1: "r1 = Inr data" by (cases r1) simp_all
  from load_yaml_doc_of[OF l[unfolded r1]] have data: "data = doc_of e (files w) p" and f1: "files w1 = files w"
    by simp_all
  obtain r2 w2 where m: "merge_keys e p data c w1 = (r2, w2)" by (cases "merge_keys e p data c w1")
  with Cons.prems(2) l r1 obtain c1 where r2: "r2 = Inr c1" and rest: "merge_paths e ps c1 w2 = (Inr c', w')"
    by (cases r2) simp_all
  from Cons.prems(1) data have dist: "distinct (map fst data)" by simp
  from merge_keys_layer[OF dist m[unfolded r2]] f1
  have lm: "layer_merged e (files w) p data c c1" and f2: "files w2 = files w" by simp_all
  from Cons.prems(1) f2 have "list_all (\<lambda>p. distinct (map fst (doc_of e (files w2) p))) ps" by simp
  from Cons.IH[OF this rest] f2
  have ih: "layers_merged e (files w) ps c1 c'" and fw: "files w' = files w" by simp_all
  have "layers_merged e (files w) (p # ps) c c'"
    using lm ih unfolding layers_merged_def layer_merged_def last_value_def data
    by simp
  with fw show ?case by simp
qed

lemma last_value_absent:
  "list_all (\<lambda>d. map_of d (KStr k) = None) docs \<Longrightarrow> last_value k cur docs = cur"
  by (induction docs arbitrary: cur) (simp_all add: last_value_def overwrite_def)

lemma init_paths_files:
  "init_paths e ps acc w = (r, w1) \<Longrightarrow> files w1 = files w"
  using init_paths_frame[OF same_input_refl, of w e ps acc] by (simp add: frame_def)

lemma merge_key_unrecognized:
  "key \<notin> set recognized_keys \<Longrightarrow>
   merge_key e p (KStr key) x c w =
     (Inr c,
      w\<lparr>stdout := stdout w
           @ [''Warning: unhandled key '' @ key @ '' in configuration file '' @ Path_str e p]\<rparr>)"
  by (simp add: merge_key_def recognized_keys_def py_print_def)

lemma merge_key_not_a_string:
  "\<forall>k. key \<noteq> KStr k \<Longrightarrow>
   merge_key e p key x c w =
     (Inl (TypeError (''can only concatenate str (not '' @ [CHR 0x22] @ type_name key
                       @ [CHR 0x22] @ '') to str'')), w)"
  by (cases key) (simp_all add: merge_key_def)

text \<open>
  The merge of the layers. When the composition succeeds, the merged configuration is
  what the specification says for the flattened sequence of layers \<open>paths c'\<close>: the
  list-valued field \<open>cflags\<close> is the concatenation of what the layers declare, in order;
  the scalar fields hold the last value a layer gives (the default when none does); the
  path-valued lists hold, in order, the paths the layers declare, each resolved against
  the parent directory of the file that declares it. A key that is a string and is not
  recognized leaves the configuration as it is and prints a warning.
\<close>

lemma merge_layers:
  "(Config_init e mains w = (Inr c', w') \<and>
    list_all (\<lambda>p. distinct (map fst (doc_of e (files w) p))) (paths c') \<longrightarrow>
      cflags c' = concat (map (\<lambda>p. declared (doc_of e (files w) p) ''cflags'') (paths c')) \<and>
      fqbn c' = last_value ''fqbn'' YNull (map (doc_of e (files w)) (paths c')) \<and>
      debug_command c' =
        last_value ''debug_command'' (YStr ''cat $$SERIALPORT'') (map (doc_of e (files w)) (paths c')) \<and>
      baudrate c' = last_value ''baudrate'' (YStr ''115200'') (map (doc_of e (files w)) (paths c')) \<and>
      map Inr (lib_paths c') =
        concat (map (\<lambda>p. resolved_in e (files w) p (declared (doc_of e (files w) p) ''libs''))
                  (paths c')) \<and>
      map Inr (qmake_dirs c') =
        concat (map (\<lambda>p. resolved_in e (files w) p (declared (doc_of e (files w) p) ''qmake_dirs''))
                  (paths c')) \<and>
      map Inr (qmake_exclude_dirs c') =
        concat (map (\<lambda>p. resolved_in e (files w) p
                             (declared (doc_of e (files w) p) ''qmake_exclude_dirs''))
                  (paths c'))) \<and>
   (key \<notin> set recognized_keys \<longrightarrow>
      merge_key e p (KStr key) x c w =
        (Inr c,
         w\<lparr>stdout := stdout w
              @ [''Warning: unhandled key '' @ key @ '' in configuration file '' @ Path_str e p]\<rparr>))"
proof (intro conjI impI)
  assume h: "Config_init e mains w = (Inr c', w') \<and>
    list_all (\<lambda>p. distinct (map fst (doc_of e (files w) p))) (paths c')"
  obtain r1 w1 where ip: "init_paths e mains [] w = (r1, w1)" by (cases "init_paths e mains [] w")
  with h obtain all_paths where r1: "r1 = Inr all_paths"
    by (cases r1) (simp_all add: Config_init_def)
  from init_paths_files[OF ip] have f1: "files w1 = files w" .
  obtain r2 w2 where mp: "merge_paths e all_paths (initial_config mains all_paths) w1 = (r2, w2)"
    by (cases "merge_paths e all_paths (initial_config mains all_paths) w1")
  with h ip r1 have r2: "r2 = Inr c'"
    by (cases r2) (auto simp: Config_init_def split: if_splits sum.splits)
  have pc: "paths c' = all_paths"
  proof -
    have "\<And>ps. merge_paths e ps (initial_config mains all_paths) w1 = (Inr c', w2) \<Longrightarrow> paths c' = all_paths"
    proof -
      fix ps assume a: "merge_paths e ps (initial_config mains all_paths) w1 = (Inr c', w2)"
      have "\<And>c w. merge_paths e ps c w = (Inr c', w2) \<Longrightarrow> paths c' = paths c"
      proof (induction ps)
        case Nil then show ?case by simp
      next
        case (Cons q qs)
        obtain ra wa where l: "load_yaml e (path q) w = (ra, wa)" by (cases "load_yaml e (path q) w")
        with Cons.prems obtain data where ra: "ra = Inr data" by (cases ra) simp_all
        obtain rb wb where m: "merge_keys e q data c wa = (rb, wb)" by (cases "merge_keys e q data c wa")
        with Cons.prems l ra obtain c1 where rb: "rb = Inr c1" and rest: "merge_paths e qs c1 wb = (Inr c', w2)"
          by (cases rb) simp_all
        have "paths c1 = paths c"
          using m[unfolded rb]
        proof (induction data arbitrary: c wa)
          case Nil then show ?case by simp
        next
          case (Cons kv d)
          obtain k v where kv: "kv = (k, v)" by (cases kv)
          obtain rc wc where mk: "merge_key e q k v c wa = (rc, wc)" by (cases "merge_key e q k v c wa")
          with Cons.prems kv obtain c2 where rc: "rc = Inr c2" and r: "merge_keys e q d c2 wc = (Inr c1, wb)"
            by (cases rc) simp_all
          from merge_key_effect(9)[OF mk[unfolded rc]] Cons.IH[OF r] show ?case by simp
        qed
        with Cons.IH[OF rest] show ?case by simp
      qed
      from this[OF a] show "paths c' = all_paths" by (simp add: initial_config_def)
    qed
    from this[OF mp[unfolded r2]] show ?thesis .
  qed
  from h pc f1 have "list_all (\<lambda>p. distinct (map fst (doc_of e (files w1) p))) all_paths" by simp
  from merge_paths_layers[OF this mp[unfolded r2]]
  have "layers_merged e (files w) all_paths (initial_config mains all_paths) c'" by (simp add: f1)
  then show
    "cflags c' = concat (map (\<lambda>p. declared (doc_of e (files w) p) ''cflags'') (paths c'))"
    "fqbn c' = last_value ''fqbn'' YNull (map (doc_of e (files w)) (paths c'))"
    "debug_command c' =
        last_value ''debug_command'' (YStr ''cat $$SERIALPORT'') (map (doc_of e (files w)) (paths c'))"
    "baudrate c' = last_value ''baudrate'' (YStr ''115200'') (map (doc_of e (files w)) (paths c'))"
    "map Inr (lib_paths c') =
        concat (map (\<lambda>p. resolved_in e (files w) p (declared (doc_of e (files w) p) ''libs''))
                  (paths c'))"
    "map Inr (qmake_dirs c') =
        concat (map (\<lambda>p. resolved_in e (files w) p (declared (doc_of e (files w) p) ''qmake_dirs''))
                  (paths c'))"
    "map Inr (qmake_exclude_dirs c') =
        concat (map (\<lambda>p. resolved_in e (files w) p
                             (declared (doc_of e (files w) p) ''qmake_exclude_dirs''))
                  (paths c'))"
    by (simp_all add: layers_merged_def initial_config_def pc)
next
  assume "key \<notin> set recognized_keys"
  then show "merge_key e p (KStr key) x c w =
        (Inr c,
         w\<lparr>stdout := stdout w
              @ [''Warning: unhandled key '' @ key @ '' in configuration file '' @ Path_str e p]\<rparr>)"
    by (rule merge_key_unrecognized)
qed

lemma merge_layers_example:
  "\<exists>c'. fst (Config_init ex_env [ex_rel ''/w'' ''/w/x.yaml''] (ex_world ex_config_files)) = Inr c' \<and>
     cflags c' = concat (map (\<lambda>p. declared (doc_of ex_env ex_config_files p) ''cflags'') (paths c')) \<and>
     cflags c' = [''-DA'', ''-DB''] \<and>
     baudrate c' = last_value ''baudrate'' (YStr ''115200'') (map (doc_of ex_env ex_config_files) (paths c')) \<and>
     baudrate c' = YStr ''57600'' \<and>
     map Inr (lib_paths c') =
        concat (map (\<lambda>p. resolved_in ex_env ex_config_files p (declared (doc_of ex_env ex_config_files p) ''libs''))
                  (paths c')) \<and>
     lib_paths c' = [ex_rel ''/w'' ''/w/libA'', ex_rel ''/w/sub'' ''/w/sub/libB'']"
proof -
  obtain r w' where cw: "Config_init ex_env [ex_rel ''/w'' ''/w/x.yaml''] (ex_world ex_config_files) = (r, w')"
    by (cases "Config_init ex_env [ex_rel ''/w'' ''/w/x.yaml''] (ex_world ex_config_files)")
  with ex_x_config obtain c where r: "r = Inr c" by (cases r) simp_all
  from ex_x_config cw r have v: "paths c = [ex_rel ''/w'' ''/w/x.yaml'', ex_rel ''/w'' ''/w/sub/y.yaml'']"
    "cflags c = [''-DA'', ''-DB'']" "baudrate c = YStr ''57600''"
    "lib_paths c = [ex_rel ''/w'' ''/w/libA'', ex_rel ''/w/sub'' ''/w/sub/libB'']"
    by simp_all
  have d: "list_all (\<lambda>p. distinct (map fst (doc_of ex_env (files (ex_world ex_config_files)) p)))
             [ex_rel ''/w'' ''/w/x.yaml'', ex_rel ''/w'' ''/w/sub/y.yaml'']"
    by code_simp
  from merge_layers [THEN conjunct1, rule_format, of ex_env "[ex_rel ''/w'' ''/w/x.yaml'']" "ex_world ex_config_files" c w']
    cw r d v
  show ?thesis by (simp add: ex_world_def)
qed

text \<open>
  Claim C3. A key that is not recognized is to be dropped with a warning that is not
  fatal. When the key is not a string the warning is: \<^verbatim>\<open>"Warning: unhandled key " + key\<close>
  raises \<^verbatim>\<open>TypeError\<close>. The file \<^verbatim>\<open>k.yaml\<close> holds \<^verbatim>\<open>fqbn: arduino:avr:uno\<close> and
  \<^verbatim>\<open>5: five\<close>; its second key is the integer 5. The composition of \<^verbatim>\<open>k.yaml\<close> fails with
  that error, and no warning has been printed.
\<close>

theorem key_not_a_string_is_fatal:
  "ex_config_files ''/w/k.yaml'' = Some (File ''fqbn: arduino:avr:uno\<newline>5: five\<newline>'') \<and>
   yaml_safe_load ex_env ''fqbn: arduino:avr:uno\<newline>5: five\<newline>''
     = Inr [(KStr ''fqbn'', YStr ''arduino:avr:uno''), (KInt 5, YStr ''five'')] \<and>
   fst (Config_init ex_env [ex_rel ''/w'' ''/w/k.yaml''] (ex_world ex_config_files))
     = Inl (TypeError (''can only concatenate str (not '' @ [CHR 0x22] @ ''int'' @ [CHR 0x22]
                        @ '') to str'')) \<and>
   stdout (snd (Config_init ex_env [ex_rel ''/w'' ''/w/k.yaml''] (ex_world ex_config_files))) = []"
  by code_simp

subsection \<open>A missing board identifier\<close>

lemma merge_keys_fqbn:
  "KStr ''fqbn'' \<notin> fst ` set d \<Longrightarrow> merge_keys e p d c w = (Inr c', w') \<Longrightarrow> fqbn c' = fqbn c"
proof (induction d arbitrary: c w)
  case Nil
  then show ?case by simp
next
  case (Cons kv d)
  obtain k v where kv: "kv = (k, v)" by (cases kv)
  obtain r1 w1 where mk: "merge_key e p k v c w = (r1, w1)" by (cases "merge_key e p k v c w")
  with Cons.prems(2) kv obtain c1 where r1: "r1 = Inr c1" and rest: "merge_keys e p d c1 w1 = (Inr c', w')"
    by (cases r1) simp_all
  from Cons.prems(1) kv have "k \<noteq> KStr ''fqbn''" "KStr ''fqbn'' \<notin> fst ` set d" by auto
  with merge_key_effect(1)[OF mk[unfolded r1]] Cons.IH[OF _ rest] show ?case by simp
qed

lemma merge_paths_fqbn:
  "list_all (\<lambda>p. KStr ''fqbn'' \<notin> fst ` set (doc_of e (files w) p)) ps \<Longrightarrow>
   merge_paths e ps c w = (Inr c', w') \<Longrightarrow> fqbn c' = fqbn c"
proof (induction ps arbitrary: c w)
  case Nil
  then show ?case by simp
next
  case (Cons p ps)
  obtain r1 w1 where l: "load_yaml e (path p) w = (r1, w1)" by (cases "load_yaml e (path p) w")
  with Cons.prems(2) obtain data where r1: "r1 = Inr data" by (cases r1) simp_all
  from load_yaml_doc_of[OF l[unfolded r1]] have data: "data = doc_of e (files w) p" and f1: "files w1 = files w"
    by simp_all
  obtain r2 w2 where m: "merge_keys e p data c w1 = (r2, w2)" by (cases "merge_keys e p data c w1")
  with Cons.prems(2) l r1 obtain c1 where r2: "r2 = Inr c1" and rest: "merge_paths e ps c1 w2 = (Inr c', w')"
    by (cases r2) simp_all
  from merge_keys_stack[OF m] f1 have f2: "files w2 = files w" by simp
  from Cons.prems(1) data have "KStr ''fqbn'' \<notin> fst ` set data" by simp
  from merge_keys_fqbn[OF this m[unfolded r2]] have a: "fqbn c1 = fqbn c" .
  from Cons.prems(1) f2 have "list_all (\<lambda>p. KStr ''fqbn'' \<notin> fst ` set (doc_of e (files w2) p)) ps" by simp
  from Cons.IH[OF this rest] a show ?case by simp
qed

lemma Config_init_files: "Config_init e ps w = (r, w') \<Longrightarrow> files w' = files w"
  using Config_init_frame[OF same_input_refl, of w e ps] by (simp add: frame_def)

lemma main_prologue:
  "main e a w = (r, w') \<Longrightarrow>
     (w' = w \<and> (\<exists>err. r = Inl err)) \<or>
     (\<exists>sk cps mk mt qm. config_paths_of e (files w) (arg_config a) = Inr cps \<and>
        main_generate e sk cps mk mt qm w = (r, w'))"
  unfolding main_def Let_def
  by (auto split: sum.splits if_splits) metis+

text \<open>
  Claim C5. When no layer of the composition has the key \<open>fqbn\<close>, and the layers have
  been read and merged, the composition fails with the missing-field error and the files
  are as they were. When a composition fails, whatever the error, the files are as they
  were and \<open>main\<close> stops with that error: nothing has been created, written or removed.
\<close>

theorem missing_fqbn_no_output:
  "(init_paths e cps [] w = (Inr all_paths, w1) \<and>
    merge_paths e all_paths (initial_config cps all_paths) w1 = (Inr c, w2) \<and>
    list_all (\<lambda>p. KStr ''fqbn'' \<notin> fst ` set (doc_of e (files w) p)) all_paths \<longrightarrow>
      Config_init e cps w = (Inl (Exception ''Missing fqbn field in configuration''), w2) \<and>
      files w2 = files w) \<and>
   (Config_init e cps w = (Inl err, w') \<longrightarrow>
      files w' = files w \<and>
      main_generate e sketch_path cps makefile_path makefile_template_path qm w = (Inl err, w')) \<and>
   (config_paths_of e (files w) (arg_config a) = Inr cps \<and> Config_init e cps w = (Inl err, w') \<longrightarrow>
      files (snd (main e a w)) = files w \<and> (\<exists>err'. fst (main e a w) = Inl err'))"
proof (intro conjI impI)
  assume h: "init_paths e cps [] w = (Inr all_paths, w1) \<and>
    merge_paths e all_paths (initial_config cps all_paths) w1 = (Inr c, w2) \<and>
    list_all (\<lambda>p. KStr ''fqbn'' \<notin> fst ` set (doc_of e (files w) p)) all_paths"
  then have f1: "files w1 = files w" using init_paths_files by blast
  with h have "list_all (\<lambda>p. KStr ''fqbn'' \<notin> fst ` set (doc_of e (files w1) p)) all_paths" by simp
  from merge_paths_fqbn[OF this, of "initial_config cps all_paths" c w2] h
  have "fqbn c = YNull" by (simp add: initial_config_def)
  with h show c: "Config_init e cps w = (Inl (Exception ''Missing fqbn field in configuration''), w2)"
    by (simp add: Config_init_def)
  from Config_init_files[OF c] show "files w2 = files w" .
next
  assume h: "Config_init e cps w = (Inl err, w')"
  then show "files w' = files w" by (rule Config_init_files)
  from h show "main_generate e sketch_path cps makefile_path makefile_template_path qm w = (Inl err, w')"
    by (simp add: main_generate_def)
next
  assume h: "config_paths_of e (files w) (arg_config a) = Inr cps \<and> Config_init e cps w = (Inl err, w')"
  obtain r v where m: "main e a w = (r, v)" by (cases "main e a w")
  from main_prologue[OF m] h have "files v = files w \<and> (\<exists>err'. r = Inl err')"
    by (auto simp: main_generate_def dest: Config_init_files)
  with m show "files (snd (main e a w)) = files w" "\<exists>err'. fst (main e a w) = Inl err'" by simp_all
qed


theorem missing_fqbn_no_output_witness:
  "Config_init ex_env [ex_d] (ex_world ex_config_files) =
     (Inl (Exception ''Missing fqbn field in configuration''),
      \<lparr>files = ex_config_files, extra_config_stack = [], stdout = [],
       loads = [''/w/d.yaml'', ''/w/d.yaml'']\<rparr>) \<and>
   main_generate ex_env (ex_rel ''/w'' ''/w/s.ino'') [ex_d] (ex_rel ''/w'' ''/w/Makefile'')
       (ex_abs ''/opt/agm/templates/Makefile'') None (ex_world ex_config_files) =
     (Inl (Exception ''Missing fqbn field in configuration''),
      \<lparr>files = ex_config_files, extra_config_stack = [], stdout = [],
       loads = [''/w/d.yaml'', ''/w/d.yaml'']\<rparr>)"
proof -
  have y: "yaml_safe_load ex_env ''cflags: [-Os]\<newline>'' = Inr [(KStr ''cflags'', YSeq [''-Os''])]"
    by (simp add: ex_env_def ex_yaml_def ex_docs_def)
  have f: "ex_config_files ''/w/d.yaml'' = Some (File ''cflags: [-Os]\<newline>'')"
    by (simp add: ex_config_files_def)
  have i: "init_paths ex_env [ex_d] [] (ex_world ex_config_files) =
     (Inr [ex_d], \<lparr>files = ex_config_files, extra_config_stack = [], stdout = [], loads = [''/w/d.yaml'']\<rparr>)"
    using y f by (simp add: ex_env_def eval_nat_numeral ex_d_def ex_rel_def ex_world_def Path_in_def load_yaml_def)
  have m: "merge_paths ex_env [ex_d] (initial_config [ex_d] [ex_d])
       \<lparr>files = ex_config_files, extra_config_stack = [], stdout = [], loads = [''/w/d.yaml'']\<rparr> =
     (Inr ((initial_config [ex_d] [ex_d])\<lparr>cflags := [''-Os'']\<rparr>),
      \<lparr>files = ex_config_files, extra_config_stack = [], stdout = [],
       loads = [''/w/d.yaml'', ''/w/d.yaml'']\<rparr>)"
    by (simp add: y f ex_d_def ex_rel_def load_yaml_def merge_key_def iter_yaml_def initial_config_def)
  have d: "list_all (\<lambda>p. KStr ''fqbn'' \<notin> fst ` set (doc_of ex_env (files (ex_world ex_config_files)) p)) [ex_d]"
    by (simp add: doc_of_def y f ex_d_def ex_rel_def ex_world_def)
  from missing_fqbn_no_output [THEN conjunct1, rule_format, OF conjI [OF i conjI [OF m d]]]
  have c: "Config_init ex_env [ex_d] (ex_world ex_config_files) =
     (Inl (Exception ''Missing fqbn field in configuration''),
      \<lparr>files = ex_config_files, extra_config_stack = [], stdout = [],
       loads = [''/w/d.yaml'', ''/w/d.yaml'']\<rparr>)" by simp
  from missing_fqbn_no_output [THEN conjunct2, THEN conjunct1, rule_format, OF c] c
  show ?thesis by simp
qed

subsection \<open>What the generators write\<close>

lemma safely_remove_ok:
  "safely_remove_or_exit p w = (Inr (), w') \<Longrightarrow> files w' = (files w)(path p := None)"
  by (auto simp: safely_remove_or_exit_def exists_Path_def os_exists_def split: if_splits sum.splits)

lemma write_lines_files:
  "write_lines t ls w = (Inr (), w') \<Longrightarrow>
     files w' = (files w)(path t \<mapsto>
        File ((case files w (path t) of Some (File c) \<Rightarrow> c | _ \<Rightarrow> []) @ concat ls))"
  by (auto simp: write_lines_def split: if_splits option.splits node.splits)

lemma write_lines_begins:
  assumes "write_lines t ls w = (Inr (), w')" "startswith (concat ls) s"
    and "files w (path t) = None \<or> file_begins (files w) (path t) s"
  shows "file_begins (files w') (path t) s" "\<And>p. p \<noteq> path t \<Longrightarrow> files w' p = files w p"
  using write_lines_files[OF assms(1)] assms(2,3)
  by (auto simp: file_begins_def startswith_def split: option.splits node.splits)


lemma header_begins: "startswith (concat (header_strings e @ ls)) generated_by_us_string"
  by (simp add: header_strings_def Let_def startswith_def)

lemma script_begins:
  "startswith (concat ([''#!/bin/sh\<newline>''] @ header_strings e @ ls))
     (''#!/bin/sh\<newline>'' @ generated_by_us_string)"
  by (simp add: header_strings_def Let_def startswith_def)

lemma makefile_out_lines_prefix:
  "makefile_out_lines e f m in_lines acc = Inr out \<Longrightarrow> \<exists>ls. out = acc @ ls"
proof (induction in_lines arbitrary: acc)
  case Nil
  then show ?case by simp
next
  case (Cons line in_lines)
  then obtain ls where "Makefile_replace_tokens e f m line (m_sketch_path m) = Inr ls"
    and "makefile_out_lines e f m in_lines (acc @ ls) = Inr out"
    by (auto split: sum.splits)
  from Cons.IH[OF this(2)] show ?case by auto
qed

lemma qmake_out_lines_prefix:
  "qmake_out_lines e f q other_files headers sources includepaths defines ia ir iu in_lines acc = Inr out
     \<Longrightarrow> \<exists>ls. out = acc @ ls"
proof (induction in_lines arbitrary: acc)
  case Nil
  then show ?case by simp
next
  case (Cons line in_lines)
  then obtain ls where
    "qmake_out_lines e f q other_files headers sources includepaths defines ia ir iu in_lines (acc @ ls) = Inr out"
    by (auto split: sum.splits)
  from Cons.IH[OF this] show ?case by auto
qed

lemma Makefile_generate_begins:
  assumes "Makefile_generate e m w = (Inr (), w')"
  shows "file_begins (files w') (path (m_path m)) generated_by_us_string"
proof -
  from assms obtain w1 where sr: "safely_remove_or_exit (m_path m) w = (Inr (), w1)"
    by (auto simp: Makefile_generate_def split: prod.splits sum.splits)
  define w2 where "w2 = py_print (''Generating '' @ path (m_path m) @ ''...'') w1"
  from safely_remove_ok[OF sr] have f2: "files w2 = (files w)(path (m_path m) := None)"
    by (simp add: w2_def py_print_def)
  from assms sr obtain in_lines out_lines w3 where
    ol: "makefile_out_lines e (files w2) m in_lines (header_strings e) = Inr out_lines"
    and wl: "write_lines (m_path m) out_lines w2 = (Inr (), w3)" and w': "w' = py_print ''Done'' w3"
    by (auto simp: Makefile_generate_def Let_def w2_def split: prod.splits sum.splits)
  from makefile_out_lines_prefix[OF ol] obtain ls where out: "out_lines = header_strings e @ ls" by blast
  have "file_begins (files w3) (path (m_path m)) generated_by_us_string"
    using write_lines_begins(1)[OF wl, of generated_by_us_string] header_begins[of e ls] out f2
    by simp
  with w' show ?thesis by (simp add: py_print_def)
qed

lemma qmake_write_begins:
  assumes "qmake_write e q target template other_files headers sources includepaths defines ia ir iu w = (Inr (), w')"
    and "files w (path target) = None \<or> file_begins (files w) (path target) generated_by_us_string"
  shows "file_begins (files w') (path target) generated_by_us_string"
    and "\<And>p. p \<noteq> path target \<Longrightarrow> files w' p = files w p"
proof -
  define w1 where "w1 = py_print (''Generating '' @ path target @ ''...'') w"
  have f1: "files w1 = files w" by (simp add: w1_def py_print_def)
  from assms(1) obtain in_lines out_lines w2 where
    ol: "qmake_out_lines e (files w1) q other_files headers sources includepaths defines ia ir iu in_lines (header_strings e) = Inr out_lines"
    and wl: "write_lines target out_lines w1 = (Inr (), w2)" and w': "w' = py_print ''Done'' w2"
    by (auto simp: qmake_write_def Let_def w1_def split: prod.splits sum.splits)
  from qmake_out_lines_prefix[OF ol] obtain ls where out: "out_lines = header_strings e @ ls" by blast
  have s: "startswith (concat out_lines) generated_by_us_string"
    using header_begins[of e ls] out by simp
  have a: "files w1 (path target) = None \<or> file_begins (files w1) (path target) generated_by_us_string"
    using assms(2) f1 by simp
  from write_lines_begins(1)[OF wl s a] w'
  show "file_begins (files w') (path target) generated_by_us_string" by (simp add: py_print_def)
  fix p assume "p \<noteq> path target"
  from write_lines_begins(2)[OF wl s a this] w' f1
  show "files w' p = files w p" by (simp add: py_print_def)
qed

lemma create_runscript_begins:
  assumes "create_runscript e q w = (Inr (), w')"
  shows "file_begins (files w') (path (q_script_path q)) (''#!/bin/sh\<newline>'' @ generated_by_us_string)"
    and "\<And>p. p \<noteq> path (q_script_path q) \<Longrightarrow> files w' p = files w p"
proof -
  from assms obtain w1 where sr: "safely_remove_or_exit (q_script_path q) w = (Inr (), w1)"
    by (auto simp: create_runscript_def split: prod.splits sum.splits)
  from safely_remove_ok[OF sr] have f1: "files w1 = (files w)(path (q_script_path q) := None)" .
  from assms sr obtain r where
    wl: "write_lines (q_script_path q)
           ([''#!/bin/sh\<newline>''] @ header_strings e @ [''make -f '' @ r @ '' run\<newline>'']) w1 = (Inr (), w')"
    by (auto simp: create_runscript_def split: prod.splits sum.splits)
  have a: "files w1 (path (q_script_path q)) = None
      \<or> file_begins (files w1) (path (q_script_path q)) (''#!/bin/sh\<newline>'' @ generated_by_us_string)"
    using f1 by simp
  from write_lines_begins(1)[OF wl script_begins a]
  show "file_begins (files w') (path (q_script_path q)) (''#!/bin/sh\<newline>'' @ generated_by_us_string)" .
  fix p assume p: "p \<noteq> path (q_script_path q)"
  from write_lines_begins(2)[OF wl script_begins a p] f1 p
  show "files w' p = files w p" by simp
qed

lemma Qmake_generate_steps:
  assumes "Qmake_generate e q w = (Inr (), w')"
  shows "\<exists>w1 w2 w8 w9 hs srcs df.
           safely_remove_or_exit (q_path q) w = (Inr (), w1) \<and>
           safely_remove_or_exit (q_prifile_path q) w1 = (Inr (), w2) \<and>
           qmake_write e q (q_path q) (q_template_path q) (get_other_files q) hs
              (q_sketch_path q # srcs) (headers_dirs hs) df False True False (qmake_prints w2)
             = (Inr (), w8) \<and>
           qmake_write e q (q_prifile_path q) (q_prifile_template_path q) (get_other_files q) hs
              (q_sketch_path q # srcs) (headers_dirs hs) df True False True w8 = (Inr (), w9) \<and>
           create_runscript e q w9 = (Inr (), w')"
  using assms unfolding Qmake_generate_def Let_def qmake_prints_def
  by (auto split: prod.splits sum.splits) blast

lemma Qmake_generate_begins:
  assumes "Qmake_generate e q w = (Inr (), w')"
  shows "file_begins (files w') (path (q_script_path q)) (''#!/bin/sh\<newline>'' @ generated_by_us_string)"
    and "\<And>p. p \<noteq> path (q_script_path q) \<Longrightarrow>
           p = path (q_path q) \<or> p = path (q_prifile_path q)
             \<or> file_begins (files w) p generated_by_us_string \<Longrightarrow>
           file_begins (files w') p generated_by_us_string"
proof -
  from Qmake_generate_steps[OF assms] obtain w1 w2 w8 w9 hs srcs df where
      sr1: "safely_remove_or_exit (q_path q) w = (Inr (), w1)"
  and sr2: "safely_remove_or_exit (q_prifile_path q) w1 = (Inr (), w2)"
  and qw1: "qmake_write e q (q_path q) (q_template_path q) (get_other_files q) hs
              (q_sketch_path q # srcs) (headers_dirs hs) df False True False (qmake_prints w2) = (Inr (), w8)"
  and qw2: "qmake_write e q (q_prifile_path q) (q_prifile_template_path q) (get_other_files q) hs
              (q_sketch_path q # srcs) (headers_dirs hs) df True False True w8 = (Inr (), w9)"
  and cr: "create_runscript e q w9 = (Inr (), w')"
    by blast
  define w7 where "w7 = qmake_prints w2"
  have f7: "files w7 = files w2" by (simp add: w7_def qmake_prints_def py_print_def)
  note qw1 = qw1[folded w7_def]
  from safely_remove_ok[OF sr1] safely_remove_ok[OF sr2] f7
  have f2: "files w7 = (files w)(path (q_path q) := None, path (q_prifile_path q) := None)"
    by simp
  have a1: "files w7 (path (q_path q)) = None \<or> file_begins (files w7) (path (q_path q)) generated_by_us_string"
    using f2 by simp
  note b8 = qmake_write_begins[OF qw1 a1]
  have a2: "files w8 (path (q_prifile_path q)) = None
      \<or> file_begins (files w8) (path (q_prifile_path q)) generated_by_us_string"
    using b8(1) b8(2)[of "path (q_prifile_path q)"] f2
    by (cases "path (q_prifile_path q) = path (q_path q)") simp_all
  note b9 = qmake_write_begins[OF qw2 a2]
  note c = create_runscript_begins[OF cr]
  show "file_begins (files w') (path (q_script_path q)) (''#!/bin/sh\<newline>'' @ generated_by_us_string)"
    by (rule c(1))
  fix p assume p: "p \<noteq> path (q_script_path q)"
    and h: "p = path (q_path q) \<or> p = path (q_prifile_path q)
             \<or> file_begins (files w) p generated_by_us_string"
  have "file_begins (files w9) p generated_by_us_string"
  proof (cases "p = path (q_prifile_path q)")
    case True
    with b9(1) show ?thesis by simp
  next
    case np: False
    show ?thesis
    proof (cases "p = path (q_path q)")
      case True
      with b8(1) b9(2)[OF np] show ?thesis by (simp add: file_begins_def)
    next
      case False
      with np h have "file_begins (files w) p generated_by_us_string" by simp
      with b9(2)[OF np] b8(2)[OF False] f2 np False show ?thesis by (simp add: file_begins_def)
    qed
  qed
  with c(2)[OF p] show "file_begins (files w') p generated_by_us_string" by (simp add: file_begins_def)
qed


lemma main_ok:
  assumes "main e a w = (Inr (), w')"
  shows "\<exists>sk cps mk mt qm.
           Path_init e (files w) (arg_makefile a) (Some (getcwd e)) = Inr mk \<and>
           (if truthy (arg_qmake a)
            then \<exists>qp qt. Path_init e (files w) (the (arg_qmake a)) (Some (getcwd e)) = Inr qp
                          \<and> qm = Some (qp, qt)
            else qm = None) \<and>
           main_generate e sk cps mk mt qm w = (Inr (), w')"
  using assms unfolding main_def Let_def
  by (auto split: sum.splits if_splits) blast+

lemma main_generate_ok:
  assumes "main_generate e sk cps mk mt qm w = (Inr (), w')"
  shows "\<exists>cfg w1 m w2.
           Config_init e cps w = (Inr cfg, w1) \<and>
           Makefile_init e (files w1) cfg mk mt sk = Inr m \<and>
           Makefile_generate e m w1 = (Inr (), w2) \<and>
           (case qm of
              None \<Rightarrow> files w' = files w2
            | Some (qp, qt) \<Rightarrow>
                (\<exists>q w3. Qmake_init e (files w2) cfg qp qt sk mk = Inr q \<and>
                         Qmake_generate e q w2 = (Inr (), w3) \<and> files w' = files w3))"
  using assms unfolding main_generate_def
  by (auto simp: py_print_def split: prod.splits sum.splits option.splits)

lemma Makefile_init_path: "Makefile_init e f cfg mk mt sk = Inr m \<Longrightarrow> m_path m = mk"
  by (auto simp: Makefile_init_def split: sum.splits)

lemma Qmake_init_paths:
  "Qmake_init e f cfg qp qt sk mk = Inr q \<Longrightarrow>
     q_path q = qp \<and> with_extension qp ''.pri'' = Inr (q_prifile_path q)
       \<and> with_extension qp [] = Inr (q_script_path q)"
  by (auto simp: Qmake_init_def split: sum.splits)

lemma ex_objects_built:
  "fst (Config_init ex_project_env [ex_rel ''/w/proj'' ''/w/proj/c.yaml''] (ex_world ex_project_files))
     = Inr ex_config \<and>
   Makefile_init ex_project_env ex_project_files ex_config (ex_rel ''/w/proj'' ''/w/proj/Makefile'')
       (ex_abs ''/opt/agm/templates/Makefile'') (ex_rel ''/w/proj'' ''/w/proj/sketch.ino'')
     = Inr ex_makefile \<and>
   Qmake_init ex_project_env ex_project_files ex_config (ex_rel ''/w/proj'' ''/w/proj/proj.pro'')
       (ex_abs ''/opt/agm/templates/qmake.pro'') (ex_rel ''/w/proj'' ''/w/proj/sketch.ino'')
       (ex_rel ''/w/proj'' ''/w/proj/Makefile'')
     = Inr ex_qmake"
  by code_simp

text \<open>
  Claim C6 at a concrete project. The configuration excludes \<^verbatim>\<open>/w/libA/skip\<close>, and the
  scan of the headers still returns \<^verbatim>\<open>/w/libA/skip/b.h\<close>: \<^verbatim>\<open>is_rawpath_excluded\<close>
  compares the canonical name with \<^verbatim>\<open>str(excluded_dir)\<close>, which is not the path of the
  directory but the text \<^verbatim>\<open>object.__repr__\<close> prints.
\<close>

theorem excluded_directory_not_dropped:
  "q_excluded_dirs ex_qmake = [ex_rel ''/w/proj'' ''/w/libA/skip''] \<and>
   q_included_dirs ex_qmake = [ex_rel ''/w/proj'' ''/w/proj'', ex_rel ''/w/proj'' ''/w/libA''] \<and>
   map_sum id (map path) (get_files ex_project_env ex_project_files ex_qmake [''.h'', ''.hpp''])
     = Inr [''/w/libA/a.h'', ''/w/libA/skip/b.h'']"
  by code_simp

text \<open>
  Claim C7 at a concrete project. The configuration names a library directory that does
  not exist. \<^verbatim>\<open>main\<close> fails with \<^verbatim>\<open>FileNotFoundError\<close> from \<^verbatim>\<open>check_dirs_exist\<close>, and
  the Makefile of the earlier run is gone: \<^verbatim>\<open>Makefile.generate\<close> removes it before
  \<^verbatim>\<open>replace_tokens\<close> checks the library directories.
\<close>

theorem library_check_after_removal:
  "ex_nolib_files ''/w/proj/Makefile''
     = Some (File ''# Generated by arduino-genmakefile\<newline>FQBN := old\<newline>'') \<and>
   fst (main ex_project_env ex_args (ex_world ex_nolib_files))
     = Inl (FileNotFoundError (''/w/proj/nolib doesn'' @ [CHR 0x27] @ ''t exist'')) \<and>
   files (snd (main ex_project_env ex_args (ex_world ex_nolib_files))) ''/w/proj/Makefile'' = None"
  by code_simp

text \<open>
  Claim C9, as the code has it. After a run of \<^verbatim>\<open>main\<close> that ends without an error, the
  Makefile begins with the marker line when no qmake project was asked for. When one
  was, the helper script begins with \<^verbatim>\<open>#!/bin/sh\<close> and the marker line is its second line;
  the Makefile, the project file and the \<^verbatim>\<open>.pri\<close> file each begin with the marker line
  unless the helper script has been written at that file's path (its path is the path
  of the project file without the suffix).
\<close>

theorem generated_files_marker:
  assumes run: "main e a w = (Inr (), w')"
    and mk: "Path_init e (files w) (arg_makefile a) (Some (getcwd e)) = Inr mk"
  shows "(\<not> truthy (arg_qmake a) \<longrightarrow>
            file_begins (files w') (path mk) generated_by_us_string) \<and>
         (\<forall>qp pri scr.
            truthy (arg_qmake a) \<and>
            Path_init e (files w) (the (arg_qmake a)) (Some (getcwd e)) = Inr qp \<and>
            with_extension qp ''.pri'' = Inr pri \<and> with_extension qp [] = Inr scr \<longrightarrow>
              file_begins (files w') (path scr) (''#!/bin/sh\<newline>'' @ generated_by_us_string) \<and>
              (path scr \<noteq> path mk \<longrightarrow> file_begins (files w') (path mk) generated_by_us_string) \<and>
              (path scr \<noteq> path qp \<longrightarrow> file_begins (files w') (path qp) generated_by_us_string) \<and>
              (path scr \<noteq> path pri \<longrightarrow> file_begins (files w') (path pri) generated_by_us_string))"
proof -
  from main_ok[OF run] mk obtain sk cps mt qm where
    qm: "if truthy (arg_qmake a)
         then \<exists>qp qt. Path_init e (files w) (the (arg_qmake a)) (Some (getcwd e)) = Inr qp
                       \<and> qm = Some (qp, qt)
         else qm = None"
    and mg: "main_generate e sk cps mk mt qm w = (Inr (), w')" by auto
  from main_generate_ok[OF mg] obtain cfg w1 m w2 where
    mi: "Makefile_init e (files w1) cfg mk mt sk = Inr m"
    and gen: "Makefile_generate e m w1 = (Inr (), w2)"
    and rest: "case qm of
              None \<Rightarrow> files w' = files w2
            | Some (qp, qt) \<Rightarrow>
                (\<exists>q w3. Qmake_init e (files w2) cfg qp qt sk mk = Inr q \<and>
                         Qmake_generate e q w2 = (Inr (), w3) \<and> files w' = files w3)"
    by blast
  have b2: "file_begins (files w2) (path mk) generated_by_us_string"
    using Makefile_generate_begins[OF gen] Makefile_init_path[OF mi] by simp
  show ?thesis
  proof (intro conjI allI impI)
    assume "\<not> truthy (arg_qmake a)"
    with qm rest b2 show "file_begins (files w') (path mk) generated_by_us_string" by simp
  next
    fix qp pri scr
    assume h: "truthy (arg_qmake a) \<and>
            Path_init e (files w) (the (arg_qmake a)) (Some (getcwd e)) = Inr qp \<and>
            with_extension qp ''.pri'' = Inr pri \<and> with_extension qp [] = Inr scr"
    with qm obtain qt where q: "qm = Some (qp, qt)" by auto
    with rest obtain q w3 where qi: "Qmake_init e (files w2) cfg qp qt sk mk = Inr q"
      and qg: "Qmake_generate e q w2 = (Inr (), w3)" and f: "files w' = files w3" by auto
    from Qmake_init_paths[OF qi] h have p: "q_path q = qp" "q_prifile_path q = pri" "q_script_path q = scr"
      by simp_all
    note b = Qmake_generate_begins[OF qg, unfolded p, folded f]
    show "file_begins (files w') (path scr) (''#!/bin/sh\<newline>'' @ generated_by_us_string)"
      by (rule b(1))
    show "file_begins (files w') (path mk) generated_by_us_string" if "path scr \<noteq> path mk"
      using b(2)[of "path mk"] b2 that by auto
    show "file_begins (files w') (path qp) generated_by_us_string" if "path scr \<noteq> path qp"
      using b(2)[of "path qp"] that by auto
    show "file_begins (files w') (path pri) generated_by_us_string" if "path scr \<noteq> path pri"
      using b(2)[of "path pri"] that by auto
  qed
qed


text \<open>
  The first line of the helper script is not the marker line. With \<^verbatim>\<open>--makefile Makefile\<close>
  and \<^verbatim>\<open>--qmake Makefile.pro\<close> the helper script is written at the path of the Makefile,
  which then begins with \<^verbatim>\<open>#!/bin/sh\<close> too.
\<close>

theorem helper_script_first_line_counterexample:
  "fst (main ex_project_env ex_args_qmake (ex_world ex_project_files)) = Inr () \<and>
   file_begins (files (snd (main ex_project_env ex_args_qmake (ex_world ex_project_files))))
     ''/w/proj/proj'' ''#!/bin/sh\<newline>'' \<and>
   fst (main ex_project_env ex_args_collide (ex_world ex_project_files)) = Inr () \<and>
   file_begins (files (snd (main ex_project_env ex_args_collide (ex_world ex_project_files))))
     ''/w/proj/Makefile'' ''#!/bin/sh\<newline>''"
  by code_simp

theorem generated_files_marker_witness:
  "fst (main ex_project_env ex_args_qmake (ex_world ex_project_files)) = Inr () \<and>
   file_begins (files (snd (main ex_project_env ex_args_qmake (ex_world ex_project_files))))
     ''/w/proj/proj'' (''#!/bin/sh\<newline>'' @ generated_by_us_string) \<and>
   file_begins (files (snd (main ex_project_env ex_args_qmake (ex_world ex_project_files))))
     ''/w/proj/Makefile'' generated_by_us_string \<and>
   file_begins (files (snd (main ex_project_env ex_args_qmake (ex_world ex_project_files))))
     ''/w/proj/proj.pro'' generated_by_us_string \<and>
   file_begins (files (snd (main ex_project_env ex_args_qmake (ex_world ex_project_files))))
     ''/w/proj/proj.pri'' generated_by_us_string"
proof -
  have ok: "fst (main ex_project_env ex_args_qmake (ex_world ex_project_files)) = Inr ()"
    by code_simp
  then obtain w' where run: "main ex_project_env ex_args_qmake (ex_world ex_project_files) = (Inr (), w')"
    by (cases "main ex_project_env ex_args_qmake (ex_world ex_project_files)") auto
  have mk: "Path_init ex_project_env (files (ex_world ex_project_files)) (arg_makefile ex_args_qmake)
              (Some (getcwd ex_project_env)) = Inr (ex_rel ''/w/proj'' ''/w/proj/Makefile'')"
    by code_simp
  have qp: "truthy (arg_qmake ex_args_qmake) \<and>
      Path_init ex_project_env (files (ex_world ex_project_files)) (the (arg_qmake ex_args_qmake))
        (Some (getcwd ex_project_env)) = Inr (ex_rel ''/w/proj'' ''/w/proj/proj.pro'') \<and>
      with_extension (ex_rel ''/w/proj'' ''/w/proj/proj.pro'') ''.pri''
        = Inr (ex_rel ''/w/proj'' ''/w/proj/proj.pri'') \<and>
      with_extension (ex_rel ''/w/proj'' ''/w/proj/proj.pro'') []
        = Inr (ex_rel ''/w/proj'' ''/w/proj/proj'')"
    by code_simp
  from generated_files_marker [OF run mk, THEN conjunct2, rule_format, OF qp] ok run
  show ?thesis by (simp add: ex_rel_def)
qed

end
